(* ===== verification/Decoder_Prelude.thy ===== *)
theory Decoder_Prelude
  imports Complex_Main "HOL-Library.Word"
begin

text \<open>
  Shared vocabulary of the development.  Bytes are 8-bit words, a Node.js \<open>Buffer\<close> is a list of
  bytes, and a JavaScript string is the list of its UTF-16 code units (\<^typ>\<open>nat list\<close>), so that the
  text the decoder reads off the chain, which may hold any code unit, is represented exactly.
  The file collects the JavaScript list and string idioms the components share (\<open>indexOf\<close>,
  \<open>startsWith\<close>, \<open>split\<close>, \<open>join\<close>, an array read that may miss) with their laws, and the
  error-or-value result type used for code that can throw.
\<close>

section \<open>Types\<close>

type_synonym byte = "8 word"
type_synonym buffer = "byte list"
type_synonym jsstr = "nat list"

text \<open>An ASCII literal of the source as code units.\<close>

definition js :: "string \<Rightarrow> jsstr" where
  "js s = map of_char s"

named_theorems decoder_simps \<open>rewrite rules the component proofs share\<close>
named_theorems wf_intros \<open>introduction rules for the well-formedness predicates\<close>

lemma js_Nil [simp]: "js [] = []"
  by (simp add: js_def)

lemma js_eq_Nil [simp]: "js s = [] \<longleftrightarrow> s = []" "[] = js s \<longleftrightarrow> s = []"
  by (auto simp: js_def)

lemma js_append [simp]: "js (a @ b) = js a @ js b"
  by (simp add: js_def)

lemma length_js [simp]: "length (js s) = length s"
  by (simp add: js_def)

lemma js_inject [simp]: "js a = js b \<longleftrightarrow> a = b"
proof -
  have "inj (of_char :: char \<Rightarrow> nat)"
    by (rule injI) simp
  then show ?thesis
    unfolding js_def by (simp add: inj_map_eq_map)
qed

lemma js_less_256: "u \<in> set (js s) \<Longrightarrow> u < 256"
  by (auto simp: js_def)

section \<open>Reads, searches and pieces\<close>

text \<open>A string that passes a truthiness test: not \<open>null\<close> and not empty.\<close>

fun truthy_text :: "jsstr option \<Rightarrow> jsstr option" where
  "truthy_text None = None"
| "truthy_text (Some s) = (if s = [] then None else Some s)"

lemma truthy_text_Some: "truthy_text x = Some a \<longleftrightarrow> x = Some a \<and> a \<noteq> []"
  by (cases x) auto

text \<open>\<open>xs[i]\<close>: an array or buffer read, \<open>undefined\<close> past the end.\<close>

definition field :: "'a list \<Rightarrow> nat \<Rightarrow> 'a option" where
  "field xs i = (if i < length xs then Some (xs ! i) else None)"

lemma field_Nil [simp]: "field [] i = None"
  by (simp add: field_def)

lemma field_Cons [simp]: "field (x # xs) i = (case i of 0 \<Rightarrow> Some x | Suc j \<Rightarrow> field xs j)"
  by (auto simp: field_def split: nat.splits)

lemma field_SomeD: "field xs i = Some x \<Longrightarrow> x \<in> set xs \<and> i < length xs"
  by (auto simp: field_def split: if_splits)

lemma in_set_map_filter: "y \<in> set (List.map_filter f xs) \<longleftrightarrow> (\<exists>x \<in> set xs. f x = Some y)"
  by (induction xs) (auto simp: List.map_filter_def split: option.splits)

lemma map_Some_the: "None \<notin> set xs \<Longrightarrow> map Some (map the xs) = xs"
  by (induction xs) auto

text \<open>\<open>xs.indexOf(x)\<close>, with \<^const>\<open>None\<close> for the -1 answer.\<close>

fun index_of :: "'a \<Rightarrow> 'a list \<Rightarrow> nat option" where
  "index_of c [] = None"
| "index_of c (x # xs) = (if x = c then Some 0 else map_option Suc (index_of c xs))"

lemma index_of_None: "index_of c xs = None \<longleftrightarrow> c \<notin> set xs"
  by (induction xs) auto

lemma index_of_Some:
  "index_of c xs = Some i \<longleftrightarrow> i < length xs \<and> xs ! i = c \<and> c \<notin> set (take i xs)"
proof (induction xs arbitrary: i)
  case (Cons x xs)
  then show ?case
    by (cases i) (auto simp: Cons.IH)
qed simp

text \<open>The piece of a sequence before its first separator, and the rest from the separator on.\<close>

definition until_first :: "'a \<Rightarrow> 'a list \<Rightarrow> 'a list" where
  "until_first c xs = take (case index_of c xs of None \<Rightarrow> length xs | Some i \<Rightarrow> i) xs"

definition from_first :: "'a \<Rightarrow> 'a list \<Rightarrow> 'a list" where
  "from_first c xs = drop (case index_of c xs of None \<Rightarrow> length xs | Some i \<Rightarrow> i) xs"

lemma until_from_first: "until_first c xs @ from_first c xs = xs"
  by (simp add: until_first_def from_first_def)

lemma until_first_rec [simp]:
  "until_first c [] = []"
  "until_first c (x # xs) = (if x = c then [] else x # until_first c xs)"
   apply (simp add: until_first_def)
  apply (cases "index_of c xs"; simp add: until_first_def)
  done

lemma from_first_rec [simp]:
  "from_first c [] = []"
  "from_first c (x # xs) = (if x = c then x # xs else from_first c xs)"
   apply (simp add: from_first_def)
  apply (cases "index_of c xs"; simp add: from_first_def)
  done

lemma until_first_takeWhile: "until_first c xs = takeWhile (\<lambda>x. x \<noteq> c) xs"
  by (induction xs) auto

lemma from_first_dropWhile: "from_first c xs = dropWhile (\<lambda>x. x \<noteq> c) xs"
  by (induction xs) auto

lemma until_first_notin: "c \<notin> set (until_first c xs)"
  by (auto simp: until_first_takeWhile dest: set_takeWhileD)

lemma from_first_cases: "from_first c xs = [] \<or> (\<exists>t. from_first c xs = c # t)"
  by (induction xs) auto

lemma until_first_append_notin:
  assumes "c \<notin> set p"
  shows "until_first c (p @ from_first c xs) = p"
  using assms from_first_cases [of c xs] by (induction p) auto

lemma from_first_append_notin:
  assumes "c \<notin> set p"
  shows "from_first c (p @ from_first c xs) = from_first c xs"
  using assms from_first_cases [of c xs] by (induction p) auto

text \<open>\<open>s.startsWith(p)\<close>.\<close>

definition starts_with :: "'a list \<Rightarrow> 'a list \<Rightarrow> bool" where
  "starts_with p s \<longleftrightarrow> take (length p) s = p"

lemma starts_with_append: "starts_with p s \<longleftrightarrow> (\<exists>t. s = p @ t)"
  unfolding starts_with_def
  by (metis append_eq_conv_conj append_take_drop_id)

section \<open>Splitting on one separator\<close>

text \<open>
  \<open>s.split(c)\<close> for a one-character separator: the empty string has the single piece \<open>''\<close>, and
  every separator opens a new piece.
\<close>

fun split_on :: "'a \<Rightarrow> 'a list \<Rightarrow> 'a list list" where
  "split_on c [] = [[]]"
| "split_on c (x # xs) =
     (if x = c then [] # split_on c xs
      else (case split_on c xs of [] \<Rightarrow> [[x]] | p # ps \<Rightarrow> (x # p) # ps))"

text \<open>\<open>ps.join(c)\<close>.\<close>

fun join_on :: "'a \<Rightarrow> 'a list list \<Rightarrow> 'a list" where
  "join_on c [] = []"
| "join_on c [p] = p"
| "join_on c (p # q # ps) = p @ c # join_on c (q # ps)"

lemma split_on_not_Nil [simp]: "split_on c xs \<noteq> []"
  by (induction xs) (auto split: list.splits)

lemma split_on_pieces: "p \<in> set (split_on c xs) \<Longrightarrow> c \<notin> set p"
proof (induction xs arbitrary: p)
  case (Cons x xs)
  then show ?case
    by (cases "split_on c xs") (auto split: if_splits)
qed simp

lemma join_on_Cons_head: "join_on c ((x # p) # ps) = x # join_on c (p # ps)"
  by (cases ps) auto

lemma join_split_on [simp]: "join_on c (split_on c xs) = xs"
proof (induction xs)
  case (Cons x xs)
  obtain p ps where "split_on c xs = p # ps"
    by (cases "split_on c xs") auto
  with Cons show ?case
    by (auto simp: join_on_Cons_head)
qed simp

lemma split_on_notin [simp]: "c \<notin> set xs \<Longrightarrow> split_on c xs = [xs]"
  by (induction xs) auto

lemma split_on_append_sep:
  "c \<notin> set p \<Longrightarrow> split_on c (p @ c # xs) = p # split_on c xs"
  by (induction p) auto

lemma split_join_on:
  "ps \<noteq> [] \<Longrightarrow> \<forall>p \<in> set ps. c \<notin> set p \<Longrightarrow> split_on c (join_on c ps) = ps"
  by (induction c ps rule: join_on.induct) (auto simp: split_on_append_sep)

lemma hd_split_on: "hd (split_on c xs) = until_first c xs"
  by (induction xs) (auto simp: until_first_takeWhile split: list.splits)

lemma length_split_on: "length (split_on c xs) = Suc (count_list xs c)"
  by (induction xs) (auto split: list.splits)

section \<open>Results\<close>

text \<open>Code that throws returns \<^term>\<open>Inl e\<close>; sequencing stops at the first throw.\<close>

fun bind_res :: "'e + 'a \<Rightarrow> ('a \<Rightarrow> 'e + 'b) \<Rightarrow> 'e + 'b" where
  "bind_res (Inl e) f = Inl e"
| "bind_res (Inr a) f = f a"

lemma bind_res_Inr_iff: "bind_res r f = Inr y \<longleftrightarrow> (\<exists>x. r = Inr x \<and> f x = Inr y)"
  by (cases r) auto

lemma bind_res_Inl_iff:
  "bind_res r f = Inl e \<longleftrightarrow> r = Inl e \<or> (\<exists>x. r = Inr x \<and> f x = Inl e)"
  by (cases r) auto

lemma bind_res_assoc: "bind_res (bind_res r f) g = bind_res r (\<lambda>x. bind_res (f x) g)"
  by (cases r) auto

text \<open>A loop over a list whose body may throw.\<close>

fun map_res :: "('a \<Rightarrow> 'e + 'b) \<Rightarrow> 'a list \<Rightarrow> 'e + 'b list" where
  "map_res f [] = Inr []"
| "map_res f (x # xs) = bind_res (f x) (\<lambda>y. bind_res (map_res f xs) (\<lambda>ys. Inr (y # ys)))"

lemma map_res_length: "map_res f xs = Inr ys \<Longrightarrow> length ys = length xs"
  by (induction xs arbitrary: ys) (auto simp: bind_res_Inr_iff)

end
