(* ===== verification/Db_Connection.thy ===== *)
theory Db_Connection
  imports Decoder_Prelude
begin

text \<open>
  The database session (\<open>src/src/db/connection_lifecycle.js\<close>): the transaction lock with its queue of
  waiting callers, and statements run on a pooled or a transaction connection.  A session holds the
  tables its statements see, the tables a rollback returns to while a transaction is open, and the
  fates of the next round trips to the server: \<^const>\<open>None\<close> is one that executes, \<open>Some e\<close> one that
  fails with error number \<open>e\<close>.  Waiting and backoff take no model time.
\<close>

section \<open>The transaction lock\<close>

text \<open>
  \<open>_transactionLock\<close> and \<open>_transactionLockQueue\<close>, with the caller whose acquire has returned.  The
  source keeps resolve functions in the queue; here it is the caller each of them wakes.
\<close>

record 'c lock_state =
  lk_held :: bool
  lk_queue :: "'c list"
  lk_owner :: "'c option"

definition lock_init :: "'c lock_state" where
  "lock_init = \<lparr>lk_held = False, lk_queue = [], lk_owner = None\<rparr>"

definition acquireTransactionLock :: "'c \<Rightarrow> 'c lock_state \<Rightarrow> 'c lock_state" where
  "acquireTransactionLock c s =
     (if \<not> lk_held s then s\<lparr>lk_held := True, lk_owner := Some c\<rparr>
      else s\<lparr>lk_queue := lk_queue s @ [c]\<rparr>)"

definition releaseTransactionLock :: "'c lock_state \<Rightarrow> 'c lock_state" where
  "releaseTransactionLock s =
     (case lk_queue s of
        c # cs \<Rightarrow> s\<lparr>lk_queue := cs, lk_owner := Some c\<rparr>
      | [] \<Rightarrow> s\<lparr>lk_held := False, lk_owner := None\<rparr>)"

text \<open>Any caller may ask at any time; only the caller inside its transaction releases.\<close>

datatype 'c lock_event = Ask 'c | Leave 'c

inductive lock_step :: "'c lock_event \<Rightarrow> 'c lock_state \<Rightarrow> 'c lock_state \<Rightarrow> bool" where
  ask: "lock_step (Ask c) s (acquireTransactionLock c s)"
| leave: "lk_owner s = Some c \<Longrightarrow> lock_step (Leave c) s (releaseTransactionLock s)"

inductive lock_run :: "'c lock_event list \<Rightarrow> 'c lock_state \<Rightarrow> bool" where
  start: "lock_run [] lock_init"
| step: "lock_run es s \<Longrightarrow> lock_step e s s' \<Longrightarrow> lock_run (es @ [e]) s'"

inductive_cases lock_stepE: "lock_step e s s'"

definition lock_inv :: "'c lock_state \<Rightarrow> bool" where
  "lock_inv s \<longleftrightarrow> (lk_held s \<longleftrightarrow> lk_owner s \<noteq> None) \<and> (lk_queue s \<noteq> [] \<longrightarrow> lk_held s)"

lemma lock_step_inv: "lock_step e s s' \<Longrightarrow> lock_inv s \<Longrightarrow> lock_inv s'"
  by (erule lock_stepE)
    (auto simp: lock_inv_def acquireTransactionLock_def releaseTransactionLock_def split: list.splits)

lemma lock_run_inv: "lock_run es s \<Longrightarrow> lock_inv s"
  by (induction rule: lock_run.induct) (auto simp: lock_inv_def lock_init_def dest: lock_step_inv)

text \<open>The callers in the order they asked, and how many of them have left.\<close>

definition asked :: "'c lock_event list \<Rightarrow> 'c list" where
  "asked es = List.map_filter (\<lambda>e. case e of Ask c \<Rightarrow> Some c | Leave _ \<Rightarrow> None) es"

definition departed :: "'c lock_event list \<Rightarrow> 'c list" where
  "departed es = List.map_filter (\<lambda>e. case e of Leave c \<Rightarrow> Some c | Ask _ \<Rightarrow> None) es"

definition lock_line :: "'c lock_state \<Rightarrow> 'c list" where
  "lock_line s = (case lk_owner s of None \<Rightarrow> [] | Some c \<Rightarrow> [c]) @ lk_queue s"

lemma asked_snoc [simp]:
  "asked (es @ [Ask c]) = asked es @ [c]" "asked (es @ [Leave c]) = asked es"
  by (simp_all add: asked_def List.map_filter_def)

lemma departed_snoc [simp]:
  "departed (es @ [Ask c]) = departed es" "departed (es @ [Leave c]) = departed es @ [c]"
  by (simp_all add: departed_def List.map_filter_def)

text \<open>First come, first served: who left, who owns and who waits, in this order, are who asked.\<close>

lemma lock_fifo: "lock_run es s \<Longrightarrow> asked es = departed es @ lock_line s"
proof (induction rule: lock_run.induct)
  case start
  show ?case by (simp add: asked_def departed_def lock_line_def lock_init_def List.map_filter_def)
next
  case (step es s e s')
  have inv: "lock_inv s" using step.hyps(1) by (rule lock_run_inv)
  from step.hyps(2) step.IH inv show ?case
    by (cases rule: lock_step.cases)
      (auto simp: lock_inv_def lock_line_def acquireTransactionLock_def releaseTransactionLock_def
        split: list.splits option.splits)
qed

section \<open>Sessions\<close>

type_synonym errno = nat

record 't session =
  db_tables :: 't
  db_saved :: "'t option"
  db_fates :: "errno option list"

text \<open>A database operation: a throw is \<^const>\<open>Inl\<close> with its error number (0 when it has none).
  The combinators leave the kind of error open.\<close>

type_synonym ('e, 's, 'a) exop = "'s \<Rightarrow> ('e + 'a) \<times> 's"

type_synonym ('s, 'a) op = "(errno, 's, 'a) exop"

type_synonym ('t, 'a) dbop = "('t session, 'a) op"

definition db_return :: "'a \<Rightarrow> ('e, 's, 'a) exop" where
  "db_return x s = (Inr x, s)"

definition db_throw :: "'e \<Rightarrow> ('e, 's, 'a) exop" where
  "db_throw e s = (Inl e, s)"

definition db_bind :: "('e, 's, 'a) exop \<Rightarrow> ('a \<Rightarrow> ('e, 's, 'b) exop) \<Rightarrow> ('e, 's, 'b) exop" where
  "db_bind m f s = (case m s of (Inl e, s') \<Rightarrow> (Inl e, s') | (Inr x, s') \<Rightarrow> f x s')"

definition db_catch :: "('e, 's, 'a) exop \<Rightarrow> ('e \<Rightarrow> ('f, 's, 'a) exop) \<Rightarrow> ('f, 's, 'a) exop" where
  "db_catch m h s = (case m s of (Inl e, s') \<Rightarrow> h e s' | (Inr x, s') \<Rightarrow> (Inr x, s'))"

definition in_transaction :: "'t session \<Rightarrow> bool" where
  "in_transaction s \<longleftrightarrow> db_saved s \<noteq> None"

definition next_fate :: "'t session \<Rightarrow> errno option \<times> 't session" where
  "next_fate s =
     (case db_fates s of [] \<Rightarrow> (None, s) | f # fs \<Rightarrow> (f, s\<lparr>db_fates := fs\<rparr>))"

definition sql_query :: "('t \<Rightarrow> 'a) \<Rightarrow> ('t, 'a) dbop" where
  "sql_query q s =
     (case next_fate s of
        (Some e, s') \<Rightarrow> (Inl e, s')
      | (None, s') \<Rightarrow> (Inr (q (db_tables s')), s'))"

text \<open>A writing statement; the server may reject it (a duplicate key, a value out of range).\<close>

definition sql_write :: "('t \<Rightarrow> errno + 't) \<Rightarrow> ('t, unit) dbop" where
  "sql_write w s =
     (case next_fate s of
        (Some e, s') \<Rightarrow> (Inl e, s')
      | (None, s') \<Rightarrow>
          (case w (db_tables s') of
             Inl e \<Rightarrow> (Inl e, s')
           | Inr t \<Rightarrow> (Inr (), s'\<lparr>db_tables := t\<rparr>)))"

section \<open>Transactions\<close>

text \<open>Leaving a transaction: the server undoes it whether or not the client hears so.\<close>

definition roll_back :: "'t session \<Rightarrow> 't session" where
  "roll_back s =
     (case db_saved s of None \<Rightarrow> s | Some t \<Rightarrow> s\<lparr>db_tables := t, db_saved := None\<rparr>)"

definition endTransaction :: "('t, unit) dbop" where
  "endTransaction s =
     (case db_saved s of
        None \<Rightarrow> (Inr (), s)
      | Some _ \<Rightarrow>
          (case next_fate (roll_back s) of
             (Some e, s') \<Rightarrow> (Inl e, s')
           | (None, s') \<Rightarrow> (Inr (), s')))"

definition discardStaleTransactionConnection :: "('t, unit) dbop" where
  "discardStaleTransactionConnection s =
     (case next_fate (roll_back s) of (_, s') \<Rightarrow> (Inr (), s'))"

definition beginTransaction :: "('t, unit) dbop" where
  "beginTransaction =
     db_bind (\<lambda>s. if in_transaction s then discardStaleTransactionConnection s else (Inr (), s))
       (\<lambda>_ s. case next_fate s of
          (Some e, s') \<Rightarrow> (Inl e, s')
        | (None, s') \<Rightarrow> (Inr (), s'\<lparr>db_saved := Some (db_tables s')\<rparr>))"

definition commitTransaction :: "('t, bool) dbop" where
  "commitTransaction s =
     (if \<not> in_transaction s then (Inr False, s)
      else
        (case next_fate s of
           (None, s') \<Rightarrow> (Inr True, s'\<lparr>db_saved := None\<rparr>)
         | (Some _, s') \<Rightarrow> (case endTransaction s' of (_, s'') \<Rightarrow> (Inr False, s''))))"

text \<open>What the failure paths of the writing operations do: \<open>if (this.transactionConnection) \<dots>\<close>.\<close>

definition fail_with :: "'a \<Rightarrow> ('t, 'a) dbop" where
  "fail_with answer =
     db_bind (\<lambda>s. if in_transaction s then endTransaction s else (Inr (), s)) (\<lambda>_. db_return answer)"

text \<open>\<open>rethrowInTransaction\<close>: outside a transaction the lookup falls back to its answer.\<close>

definition rethrow_or :: "'a \<Rightarrow> errno \<Rightarrow> ('t, 'a) dbop" where
  "rethrow_or fallback e s = (if in_transaction s then (Inl e, s) else (Inr fallback, s))"

section \<open>Laws\<close>

lemma db_bind_simps [simp]:
  "db_bind (db_return x) f = f x"
  "db_bind (db_throw e) f = db_throw e"
  by (auto simp: db_bind_def db_return_def db_throw_def)

lemma db_bind_assoc: "db_bind (db_bind m f) g = db_bind m (\<lambda>x. db_bind (f x) g)"
  by (auto simp: db_bind_def fun_eq_iff split: prod.splits sum.splits)

lemma db_bind_Inr_iff:
  "db_bind m f s = (Inr y, s'') \<longleftrightarrow> (\<exists>x s'. m s = (Inr x, s') \<and> f x s' = (Inr y, s''))"
  by (auto simp: db_bind_def split: prod.splits sum.splits)

lemma db_catch_Inr_iff:
  "db_catch m h s = (Inr y, t) \<longleftrightarrow> m s = (Inr y, t) \<or> (\<exists>e s'. m s = (Inl e, s') \<and> h e s' = (Inr y, t))"
  by (auto simp: db_catch_def split: prod.splits sum.splits)

text \<open>A session with a transaction open and nothing failing.\<close>

definition healthy :: "'t session \<Rightarrow> bool" where
  "healthy s \<longleftrightarrow> db_fates s = []"

lemma healthy_next_fate [simp]: "healthy s \<Longrightarrow> next_fate s = (None, s)"
  by (simp add: next_fate_def healthy_def)

lemma healthy_sql [simp]:
  "healthy s \<Longrightarrow> sql_query q s = (Inr (q (db_tables s)), s)"
  "healthy s \<Longrightarrow> sql_write w s =
     (case w (db_tables s) of Inl e \<Rightarrow> (Inl e, s) | Inr t \<Rightarrow> (Inr (), s\<lparr>db_tables := t\<rparr>))"
  by (simp_all add: sql_query_def sql_write_def)

lemma healthy_update [simp]:
  "healthy (s\<lparr>db_tables := t\<rparr>) = healthy s" "healthy (s\<lparr>db_saved := x\<rparr>) = healthy s"
  by (simp_all add: healthy_def)

lemma next_fate_keeps:
  "next_fate s = (f, s') \<Longrightarrow> db_tables s' = db_tables s \<and> db_saved s' = db_saved s"
  by (auto simp: next_fate_def split: list.splits)

lemma sql_query_keeps:
  "sql_query q s = (r, s') \<Longrightarrow> db_tables s' = db_tables s \<and> db_saved s' = db_saved s"
  by (auto simp: sql_query_def dest!: next_fate_keeps split: prod.splits option.splits)

lemma sql_query_Inr: "sql_query q s = (Inr x, s') \<Longrightarrow> x = q (db_tables s)"
  by (auto simp: sql_query_def dest!: next_fate_keeps split: prod.splits option.splits)

lemma sql_write_keeps_saved: "sql_write w s = (r, s') \<Longrightarrow> db_saved s' = db_saved s"
  by (auto simp: sql_write_def dest!: next_fate_keeps split: prod.splits option.splits sum.splits)

lemma sql_write_Inr:
  "sql_write w s = (Inr u, s') \<Longrightarrow> w (db_tables s) = Inr (db_tables s')"
  by (auto simp: sql_write_def dest!: next_fate_keeps split: prod.splits option.splits sum.splits)

lemma sql_write_Inl:
  "sql_write w s = (Inl e, s') \<Longrightarrow> db_tables s' = db_tables s"
  by (auto simp: sql_write_def dest!: next_fate_keeps split: prod.splits option.splits sum.splits)

text \<open>However it ends, ending a transaction restores the tables it began with and closes it.\<close>

lemma endTransaction_restores:
  assumes "db_saved s = Some t" "endTransaction s = (r, s')"
  shows "db_tables s' = t \<and> db_saved s' = None"
  using assms
  by (auto simp: endTransaction_def roll_back_def dest!: next_fate_keeps split: prod.splits option.splits)

lemma commitTransaction_atomic:
  assumes "db_saved s = Some t" "commitTransaction s = (r, s')"
  shows "db_saved s' = None \<and>
    (r = Inr True \<and> db_tables s' = db_tables s \<or> r = Inr False \<and> db_tables s' = t)"
  using assms
  by (auto simp: commitTransaction_def in_transaction_def endTransaction_def roll_back_def
      dest!: next_fate_keeps split: prod.splits option.splits if_splits)

lemma beginTransaction_result:
  assumes "beginTransaction s = (r, s')" "db_saved s = None"
  shows "db_tables s' = db_tables s \<and>
    (r = Inr () \<and> db_saved s' = Some (db_tables s) \<or> (\<exists>e. r = Inl e) \<and> db_saved s' = None)"
  using assms
  by (auto simp: beginTransaction_def db_bind_def in_transaction_def dest!: next_fate_keeps
      split: prod.splits option.splits)

end
