(* ===== verification/Js_Text.thy ===== *)
theory Js_Text
  imports Decoder_Prelude
begin

text \<open>
  The two \<open>TextDecoder\<close>s the decoder shares (\<open>strictTextDecoder\<close>, \<open>lenientTextDecoder\<close> in
  \<open>src/src/XChainDecoder/constants.js\<close>), as the Encoding standard specifies them: a byte-driven
  state machine that emits scalar values and errors, an error aborting the decode in fatal mode and
  becoming U+FFFD otherwise, after a leading byte-order mark has been dropped.  \<open>Buffer.from(s)\<close> is
  the converse encoder.  The lemmas show that the fatal decoder only accepts what the encoder
  produces (nothing of a payload is lost when it decodes strictly), that it then agrees with the
  lenient one, and that ASCII text is its own image.
\<close>

section \<open>The UTF-8 state machine\<close>

text \<open>
  \<open>utf8_run cp need lo hi bs\<close> is the decoder with \<open>need\<close> continuation bytes outstanding, the next of
  which must lie in \<open>lo..hi\<close>; \<^const>\<open>None\<close> in the output marks one reported error.  A byte that
  cannot continue the sequence ends it with an error and is read again as a first byte.
\<close>

fun utf8_run :: "nat \<Rightarrow> nat \<Rightarrow> nat \<Rightarrow> nat \<Rightarrow> nat list \<Rightarrow> nat option list" where
  "utf8_run cp need lo hi [] = (if need = 0 then [] else [None])"
| "utf8_run cp need lo hi (b # bs) =
     (if need = 0 then
        (if b \<le> 0x7F then Some b # utf8_run 0 0 0x80 0xBF bs
         else if 0xC2 \<le> b \<and> b \<le> 0xDF then utf8_run (b - 0xC0) 1 0x80 0xBF bs
         else if 0xE0 \<le> b \<and> b \<le> 0xEF then
           utf8_run (b - 0xE0) 2 (if b = 0xE0 then 0xA0 else 0x80)
             (if b = 0xED then 0x9F else 0xBF) bs
         else if 0xF0 \<le> b \<and> b \<le> 0xF4 then
           utf8_run (b - 0xF0) 3 (if b = 0xF0 then 0x90 else 0x80)
             (if b = 0xF4 then 0x8F else 0xBF) bs
         else None # utf8_run 0 0 0x80 0xBF bs)
      else if lo \<le> b \<and> b \<le> hi then
        (if need = 1 then Some (cp * 64 + (b - 0x80)) # utf8_run 0 0 0x80 0xBF bs
         else utf8_run (cp * 64 + (b - 0x80)) (need - 1) 0x80 0xBF bs)
      else None # utf8_run 0 0 0x80 0xBF (b # bs))"

abbreviation utf8_start :: "nat list \<Rightarrow> nat option list" where
  "utf8_start bs \<equiv> utf8_run 0 0 0x80 0xBF bs"

text \<open>The byte-order mark a non-\<open>ignoreBOM\<close> decoder drops.\<close>

definition strip_bom :: "nat list \<Rightarrow> nat list" where
  "strip_bom bs = (if starts_with [0xEF, 0xBB, 0xBF] bs then drop 3 bs else bs)"

text \<open>UTF-16 code units of a scalar value.\<close>

definition utf16_units :: "nat \<Rightarrow> jsstr" where
  "utf16_units cp = (if cp < 0x10000 then [cp]
     else [0xD800 + (cp - 0x10000) div 0x400, 0xDC00 + (cp - 0x10000) mod 0x400])"

definition replacement_char :: nat where
  "replacement_char = 0xFFFD"

definition decode_scalars :: "buffer \<Rightarrow> nat option list" where
  "decode_scalars buf = utf8_start (strip_bom (map unat buf))"

definition lenient_scalars :: "nat option list \<Rightarrow> nat list" where
  "lenient_scalars xs = map (\<lambda>x. case x of None \<Rightarrow> replacement_char | Some cp \<Rightarrow> cp) xs"

text \<open>\<open>lenientTextDecoder.decode\<close>: total, errors become U+FFFD.\<close>

definition lenient_decode :: "buffer \<Rightarrow> jsstr" where
  "lenient_decode buf = concat (map utf16_units (lenient_scalars (decode_scalars buf)))"

text \<open>\<open>strictTextDecoder.decode\<close>: throws (\<^const>\<open>None\<close>) at the first error.\<close>

definition strict_decode :: "buffer \<Rightarrow> jsstr option" where
  "strict_decode buf =
     (if None \<in> set (decode_scalars buf) then None else Some (lenient_decode buf))"

section \<open>The encoder\<close>

definition utf8_bytes :: "nat \<Rightarrow> nat list" where
  "utf8_bytes cp =
     (if cp < 0x80 then [cp]
      else if cp < 0x800 then [0xC0 + cp div 64, 0x80 + cp mod 64]
      else if cp < 0x10000 then [0xE0 + cp div 4096, 0x80 + cp div 64 mod 64, 0x80 + cp mod 64]
      else [0xF0 + cp div 262144, 0x80 + cp div 4096 mod 64, 0x80 + cp div 64 mod 64, 0x80 + cp mod 64])"

text \<open>Scalar values of a code-unit sequence; a lone surrogate becomes U+FFFD.\<close>

fun units_scalars :: "jsstr \<Rightarrow> nat list" where
  "units_scalars [] = []"
| "units_scalars [u] = [if 0xD800 \<le> u \<and> u \<le> 0xDFFF then replacement_char else u]"
| "units_scalars (u # v # us) =
     (if 0xD800 \<le> u \<and> u \<le> 0xDBFF \<and> 0xDC00 \<le> v \<and> v \<le> 0xDFFF
      then (0x10000 + (u - 0xD800) * 0x400 + (v - 0xDC00)) # units_scalars us
      else (if 0xD800 \<le> u \<and> u \<le> 0xDFFF then replacement_char else u) # units_scalars (v # us))"

text \<open>\<open>Buffer.from(s)\<close> and \<open>Buffer.byteLength(s)\<close>.\<close>

definition utf8_encode :: "jsstr \<Rightarrow> buffer" where
  "utf8_encode s = map word_of_nat (concat (map utf8_bytes (units_scalars s)))"

definition scalar_value :: "nat \<Rightarrow> bool" where
  "scalar_value cp \<longleftrightarrow> cp < 0x110000 \<and> \<not> (0xD800 \<le> cp \<and> cp \<le> 0xDFFF)"

section \<open>Strict decoding loses nothing\<close>

text \<open>
  The three multi-byte forms: continuation bytes in the ranges the decoder demands give exactly the
  scalar whose encoding they are.
\<close>

lemma div_mod_64_step:
  fixes cp d :: nat
  assumes "d < 64"
  shows "(cp * 64 + d) div 64 = cp" "(cp * 64 + d) mod 64 = d"
  using assms by auto

lemma utf8_bytes_2:
  assumes "2 \<le> c" "c < 32" "d < 64"
  shows "utf8_bytes (c * 64 + d) = [0xC0 + c, 0x80 + d] \<and> scalar_value (c * 64 + d)"
proof -
  have "\<not> c * 64 + d < 0x80" "c * 64 + d < 0x800"
    using assms by auto
  then show ?thesis
    using assms div_mod_64_step [of d c] by (auto simp: utf8_bytes_def scalar_value_def)
qed

lemma utf8_bytes_3:
  fixes c d e :: nat
  assumes c: "c < 16" and d: "d < 64" and e: "e < 64"
    and "c = 0 \<longrightarrow> 0x20 \<le> d" and surr: "c = 13 \<longrightarrow> d < 0x20"
  shows "utf8_bytes ((c * 64 + d) * 64 + e) = [0xE0 + c, 0x80 + d, 0x80 + e]
           \<and> scalar_value ((c * 64 + d) * 64 + e)"
proof -
  define m where "m = c * 64 + d"
  define n where "n = m * 64 + e"
  have m: "m div 64 = c" "m mod 64 = d"
    using d by (simp_all add: m_def)
  have n: "n div 64 = m" "n mod 64 = e"
    using e by (simp_all add: n_def)
  have n4: "n div 4096 = c"
    using m(1) n(1) div_mult2_eq [of n 64 64] by simp
  have lo: "32 \<le> m"
    using assms(4) by (cases "c = 0") (auto simp: m_def)
  have hi: "m < 1024"
    using c d by (simp add: m_def)
  have gap: "m < 864 \<or> 896 \<le> m"
    using surr c d by (cases "c < 13"; cases "c = 13") (auto simp: m_def)
  have "\<not> n < 0x800" "n < 0x10000" "\<not> (0xD800 \<le> n \<and> n \<le> 0xDFFF)"
    using lo hi gap e unfolding n_def by linarith+
  then have "utf8_bytes n = [0xE0 + c, 0x80 + d, 0x80 + e] \<and> scalar_value n"
    using m n n4 by (simp add: utf8_bytes_def scalar_value_def)
  then show ?thesis
    by (simp add: n_def m_def)
qed

lemma utf8_bytes_4:
  fixes c d e f :: nat
  assumes c: "c < 5" and d: "d < 64" and e: "e < 64" and f: "f < 64"
    and "c = 0 \<longrightarrow> 0x10 \<le> d" and top: "c = 4 \<longrightarrow> d < 0x10"
  shows "utf8_bytes (((c * 64 + d) * 64 + e) * 64 + f) = [0xF0 + c, 0x80 + d, 0x80 + e, 0x80 + f]
           \<and> scalar_value (((c * 64 + d) * 64 + e) * 64 + f)"
proof -
  define m where "m = c * 64 + d"
  define n where "n = m * 64 + e"
  define p where "p = n * 64 + f"
  have m: "m div 64 = c" "m mod 64 = d"
    using d by (simp_all add: m_def)
  have n: "n div 64 = m" "n mod 64 = e"
    using e by (simp_all add: n_def)
  have p: "p div 64 = n" "p mod 64 = f"
    using f by (simp_all add: p_def)
  have p2: "p div 4096 = m" "p div 262144 = c"
    using m(1) n(1) p(1) div_mult2_eq [of p 64 64] div_mult2_eq [of p 4096 64] by simp_all
  have lo: "16 \<le> m"
    using assms(5) by (cases "c = 0") (auto simp: m_def)
  have hi: "m < 272"
    using c d top by (cases "c = 4") (auto simp: m_def)
  have "1024 \<le> n" "n < 17408"
    using lo hi e unfolding n_def by linarith+
  then have "\<not> p < 0x10000" "p < 0x110000"
    using f unfolding p_def by linarith+
  then have "utf8_bytes p = [0xF0 + c, 0x80 + d, 0x80 + e, 0x80 + f] \<and> scalar_value p"
    using m n p p2 by (simp add: utf8_bytes_def scalar_value_def)
  then show ?thesis
    by (simp add: n_def m_def p_def)
qed

text \<open>A pending sequence that ends without an error read a continuation byte in range.\<close>

lemma utf8_run_last:
  assumes "None \<notin> set (utf8_run cp 1 lo hi bs)"
  obtains b t where "bs = b # t" "lo \<le> b" "b \<le> hi"
    "utf8_run cp 1 lo hi bs = Some (cp * 64 + (b - 0x80)) # utf8_start t"
  using assms by (cases bs) (auto simp del: One_nat_def split: if_splits)

lemma utf8_run_more:
  assumes "None \<notin> set (utf8_run cp need lo hi bs)" "1 < need"
  obtains b t where "bs = b # t" "lo \<le> b" "b \<le> hi"
    "utf8_run cp need lo hi bs = utf8_run (cp * 64 + (b - 0x80)) (need - 1) 0x80 0xBF t"
  using assms by (cases bs) (auto split: if_splits)

definition accounts_for :: "nat option list \<Rightarrow> nat list \<Rightarrow> bool" where
  "accounts_for out bs \<longleftrightarrow>
     concat (map (\<lambda>x. utf8_bytes (the x)) out) = bs \<and> (\<forall>x \<in> set out. scalar_value (the x))"

lemma accounts_for_Cons:
  "accounts_for out t \<Longrightarrow> utf8_bytes cp = p \<Longrightarrow> scalar_value cp
     \<Longrightarrow> accounts_for (Some cp # out) (p @ t)"
  by (simp add: accounts_for_def)

lemma accounts_for_two:
  assumes "0xC2 \<le> b" "b \<le> 0xDF" and ok: "None \<notin> set (utf8_run (b - 0xC0) 1 0x80 0xBF bs)"
    and IH: "\<And>t. length t \<le> length bs \<Longrightarrow> None \<notin> set (utf8_start t) \<Longrightarrow> accounts_for (utf8_start t) t"
  shows "accounts_for (utf8_run (b - 0xC0) 1 0x80 0xBF bs) (b # bs)"
proof -
  obtain b1 t where t: "bs = b1 # t" "0x80 \<le> b1" "b1 \<le> 0xBF"
    and run: "utf8_run (b - 0xC0) 1 0x80 0xBF bs = Some ((b - 0xC0) * 64 + (b1 - 0x80)) # utf8_start t"
    using utf8_run_last [OF ok] by metis
  have enc: "utf8_bytes ((b - 0xC0) * 64 + (b1 - 0x80)) = [b, b1] \<and>
      scalar_value ((b - 0xC0) * 64 + (b1 - 0x80))"
  proof -
    have "2 \<le> b - 0xC0" "b - 0xC0 < 32" "b1 - 0x80 < 64"
      and eqs: "0xC0 + (b - 0xC0) = b" "0x80 + (b1 - 0x80) = b1"
      using assms(1,2) t by linarith+
    from utf8_bytes_2 [OF this(1-3)] show ?thesis unfolding eqs .
  qed
  have acc: "accounts_for (utf8_start t) t"
    using IH ok run t(1) by auto
  from accounts_for_Cons [OF acc enc [THEN conjunct1] enc [THEN conjunct2]] show ?thesis
    unfolding run by (simp only: t(1) append.simps)
qed

lemma accounts_for_three:
  fixes b :: nat and bs :: "nat list"
  defines "lo \<equiv> if b = 0xE0 then 0xA0 else 0x80" and "hi \<equiv> if b = 0xED then 0x9F else 0xBF"
  assumes "0xE0 \<le> b" "b \<le> 0xEF" and ok: "None \<notin> set (utf8_run (b - 0xE0) 2 lo hi bs)"
    and IH: "\<And>t. length t \<le> length bs \<Longrightarrow> None \<notin> set (utf8_start t) \<Longrightarrow> accounts_for (utf8_start t) t"
  shows "accounts_for (utf8_run (b - 0xE0) 2 lo hi bs) (b # bs)"
proof -
  obtain b1 t1 where t1: "bs = b1 # t1" "lo \<le> b1" "b1 \<le> hi"
    and run1: "utf8_run (b - 0xE0) 2 lo hi bs = utf8_run ((b - 0xE0) * 64 + (b1 - 0x80)) 1 0x80 0xBF t1"
    using utf8_run_more [OF ok] by (metis add_diff_cancel_left' one_add_one one_less_numeral_iff semiring_norm(76))
  obtain b2 t where t: "t1 = b2 # t" "0x80 \<le> b2" "b2 \<le> 0xBF"
    and run2: "utf8_run ((b - 0xE0) * 64 + (b1 - 0x80)) 1 0x80 0xBF t1
      = Some (((b - 0xE0) * 64 + (b1 - 0x80)) * 64 + (b2 - 0x80)) # utf8_start t"
    using utf8_run_last ok run1 by metis
  have b1: "0x80 \<le> b1" "b1 \<le> 0xBF" "b = 0xE0 \<longrightarrow> 0xA0 \<le> b1" "b = 0xED \<longrightarrow> b1 \<le> 0x9F"
    using t1 by (auto simp: lo_def hi_def split: if_splits)
  have enc: "utf8_bytes (((b - 0xE0) * 64 + (b1 - 0x80)) * 64 + (b2 - 0x80)) = [b, b1, b2] \<and>
      scalar_value (((b - 0xE0) * 64 + (b1 - 0x80)) * 64 + (b2 - 0x80))"
  proof -
    have prem: "b - 0xE0 < 16" "b1 - 0x80 < 64" "b2 - 0x80 < 64"
        "b - 0xE0 = 0 \<longrightarrow> 0x20 \<le> b1 - 0x80" "b - 0xE0 = 13 \<longrightarrow> b1 - 0x80 < 0x20"
      and eqs: "0xE0 + (b - 0xE0) = b" "0x80 + (b1 - 0x80) = b1" "0x80 + (b2 - 0x80) = b2"
      using assms(3,4) t b1 by linarith+
    from utf8_bytes_3 [OF prem] show ?thesis unfolding eqs .
  qed
  have acc: "accounts_for (utf8_start t) t"
    using IH ok run1 run2 t(1) t1(1) by auto
  from accounts_for_Cons [OF acc enc [THEN conjunct1] enc [THEN conjunct2]] show ?thesis
    unfolding run1 run2 by (simp only: t1(1) t(1) append.simps)
qed

lemma accounts_for_four:
  fixes b :: nat and bs :: "nat list"
  defines "lo \<equiv> if b = 0xF0 then 0x90 else 0x80" and "hi \<equiv> if b = 0xF4 then 0x8F else 0xBF"
  assumes "0xF0 \<le> b" "b \<le> 0xF4" and ok: "None \<notin> set (utf8_run (b - 0xF0) 3 lo hi bs)"
    and IH: "\<And>t. length t \<le> length bs \<Longrightarrow> None \<notin> set (utf8_start t) \<Longrightarrow> accounts_for (utf8_start t) t"
  shows "accounts_for (utf8_run (b - 0xF0) 3 lo hi bs) (b # bs)"
proof -
  let ?m = "\<lambda>b1. (b - 0xF0) * 64 + (b1 - 0x80 :: nat)"
  obtain b1 t1 where t1: "bs = b1 # t1" "lo \<le> b1" "b1 \<le> hi"
    and run1: "utf8_run (b - 0xF0) 3 lo hi bs = utf8_run (?m b1) (3 - 1) 0x80 0xBF t1"
    using utf8_run_more [OF ok] by (metis one_less_numeral_iff semiring_norm(77))
  have ok1: "None \<notin> set (utf8_run (?m b1) 2 0x80 0xBF t1)"
    using ok run1 by simp
  obtain b2 t2 where t2: "t1 = b2 # t2" "0x80 \<le> b2" "b2 \<le> 0xBF"
    and run2: "utf8_run (?m b1) 2 0x80 0xBF t1 = utf8_run (?m b1 * 64 + (b2 - 0x80)) (2 - 1) 0x80 0xBF t2"
    using utf8_run_more [OF ok1] by (metis one_less_numeral_iff semiring_norm(76))
  have ok2: "None \<notin> set (utf8_run (?m b1 * 64 + (b2 - 0x80)) 1 0x80 0xBF t2)"
    using ok1 run2 by simp
  obtain b3 t where t: "t2 = b3 # t" "0x80 \<le> b3" "b3 \<le> 0xBF"
    and run3: "utf8_run (?m b1 * 64 + (b2 - 0x80)) 1 0x80 0xBF t2
      = Some ((?m b1 * 64 + (b2 - 0x80)) * 64 + (b3 - 0x80)) # utf8_start t"
    using utf8_run_last [OF ok2] by metis
  have run: "utf8_run (b - 0xF0) 3 lo hi bs
      = Some ((?m b1 * 64 + (b2 - 0x80)) * 64 + (b3 - 0x80)) # utf8_start t"
    using run1 run2 run3 by simp
  have b1: "0x80 \<le> b1" "b1 \<le> 0xBF" "b = 0xF0 \<longrightarrow> 0x90 \<le> b1" "b = 0xF4 \<longrightarrow> b1 \<le> 0x8F"
    using t1 by (auto simp: lo_def hi_def split: if_splits)
  have enc: "utf8_bytes ((?m b1 * 64 + (b2 - 0x80)) * 64 + (b3 - 0x80)) = [b, b1, b2, b3] \<and>
      scalar_value ((?m b1 * 64 + (b2 - 0x80)) * 64 + (b3 - 0x80))"
  proof -
    have prem: "b - 0xF0 < 5" "b1 - 0x80 < 64" "b2 - 0x80 < 64" "b3 - 0x80 < 64"
        "b - 0xF0 = 0 \<longrightarrow> 0x10 \<le> b1 - 0x80" "b - 0xF0 = 4 \<longrightarrow> b1 - 0x80 < 0x10"
      and eqs: "0xF0 + (b - 0xF0) = b" "0x80 + (b1 - 0x80) = b1" "0x80 + (b2 - 0x80) = b2"
        "0x80 + (b3 - 0x80) = b3"
      using assms(3,4) t t2 b1 by linarith+
    from utf8_bytes_4 [OF prem] show ?thesis unfolding eqs .
  qed
  have acc: "accounts_for (utf8_start t) t"
    using IH ok run t(1) t1(1) t2(1) by auto
  from accounts_for_Cons [OF acc enc [THEN conjunct1] enc [THEN conjunct2]] show ?thesis
    unfolding run by (simp only: t1(1) t2(1) t(1) append.simps)
qed

lemma utf8_start_sound: "None \<notin> set (utf8_start bs) \<Longrightarrow> accounts_for (utf8_start bs) bs"
proof (induction "length bs" arbitrary: bs rule: less_induct)
  case less
  show ?case
  proof (cases bs)
    case Nil
    then show ?thesis by (simp add: accounts_for_def)
  next
    case (Cons b t)
    have IH: "None \<notin> set (utf8_start u) \<Longrightarrow> accounts_for (utf8_start u) u"
      if "length u \<le> length t" for u
      using less.hyps that Cons by auto
    consider "b \<le> 0x7F" | "0xC2 \<le> b" "b \<le> 0xDF" | "0xE0 \<le> b" "b \<le> 0xEF" | "0xF0 \<le> b" "b \<le> 0xF4"
      | "0x7F < b" "b < 0xC2" | "0xF4 < b"
      by linarith
    then show ?thesis
    proof cases
      case 1
      then have "utf8_bytes b = [b]" "scalar_value b"
        by (auto simp: utf8_bytes_def scalar_value_def)
      moreover have "utf8_start bs = Some b # utf8_start t"
        using 1 Cons by simp
      ultimately show ?thesis
        using less.prems IH Cons accounts_for_Cons [of "utf8_start t" t b "[b]"] by auto
    next
      case 2
      then have "utf8_start bs = utf8_run (b - 0xC0) 1 0x80 0xBF t"
        using Cons by simp
      then show ?thesis
        using accounts_for_two [OF 2 _ IH] less.prems Cons by metis
    next
      case 3
      then have "utf8_start bs = utf8_run (b - 0xE0) 2 (if b = 0xE0 then 0xA0 else 0x80)
          (if b = 0xED then 0x9F else 0xBF) t"
        using Cons by simp
      then show ?thesis
        using accounts_for_three [OF 3 _ IH] less.prems Cons by metis
    next
      case 4
      then have "utf8_start bs = utf8_run (b - 0xF0) 3 (if b = 0xF0 then 0x90 else 0x80)
          (if b = 0xF4 then 0x8F else 0xBF) t"
        using Cons by simp
      then show ?thesis
        using accounts_for_four [OF 4 _ IH] less.prems Cons by metis
    qed (use less.prems Cons in auto)
  qed
qed

text \<open>Code units and scalar values correspond.\<close>

lemma units_scalars_units:
  "scalar_value cp \<Longrightarrow> units_scalars (utf16_units cp @ s) = cp # units_scalars s"
proof (cases "cp < 0x10000")
  case True
  moreover assume "scalar_value cp"
  ultimately show ?thesis
    by (cases s) (auto simp: utf16_units_def scalar_value_def)
next
  case False
  assume sc: "scalar_value cp"
  define d where "d = cp - 0x10000"
  have d: "cp = 0x10000 + d" "d < 0x100000"
    using False sc by (auto simp: d_def scalar_value_def)
  have "d div 0x400 < 0x400" "d mod 0x400 < 0x400"
    using d(2) by (auto simp: less_mult_imp_div_less)
  moreover have "d div 0x400 * 0x400 + d mod 0x400 = d"
    by simp
  ultimately show ?thesis
    using False by (auto simp: utf16_units_def d(1))
qed

lemma units_scalars_concat:
  "\<forall>cp \<in> set cps. scalar_value cp \<Longrightarrow> units_scalars (concat (map utf16_units cps)) = cps"
  by (induction cps) (auto simp: units_scalars_units)

lemma map_word_of_unat: "map (word_of_nat :: nat \<Rightarrow> byte) (map unat buf) = buf"
  by (induction buf) auto

text \<open>
  A strictly decoded buffer is the UTF-8 encoding of the decoded text, after its byte-order mark if
  it has one: no two payloads without the mark decode strictly to the same text.
\<close>

lemma strict_decode_encode:
  assumes "strict_decode buf = Some s"
  shows "utf8_encode s = map word_of_nat (strip_bom (map unat buf))"
proof -
  let ?out = "decode_scalars buf"
  have none: "None \<notin> set ?out" and s: "s = lenient_decode buf"
    using assms by (auto simp: strict_decode_def split: if_splits)
  have acc: "accounts_for ?out (strip_bom (map unat buf))"
    using utf8_start_sound none by (simp add: decode_scalars_def)
  have the: "lenient_scalars ?out = map the ?out"
    using none by (auto simp: lenient_scalars_def split: option.splits)
  then have "units_scalars s = map the ?out"
    using acc units_scalars_concat [of "map the ?out"]
    by (auto simp: s lenient_decode_def accounts_for_def)
  then show ?thesis
    using acc by (simp add: utf8_encode_def accounts_for_def comp_def)
qed

lemma strict_decode_lenient: "strict_decode buf = Some s \<Longrightarrow> lenient_decode buf = s"
  by (auto simp: strict_decode_def split: if_splits)

section \<open>ASCII\<close>

definition ascii_units :: "jsstr \<Rightarrow> bool" where
  "ascii_units s \<longleftrightarrow> (\<forall>u \<in> set s. u < 128)"

text \<open>\<open>Buffer.from(s, 'ascii')\<close>: the low byte of every unit.\<close>

definition ascii_bytes :: "jsstr \<Rightarrow> buffer" where
  "ascii_bytes s = map word_of_nat s"

lemma utf8_start_ascii: "\<forall>u \<in> set s. u < 128 \<Longrightarrow> utf8_start (s @ t) = map Some s @ utf8_start t"
  by (induction s) auto

lemma unat_ascii_bytes: "ascii_units s \<Longrightarrow> map unat (ascii_bytes s) = s"
  by (induction s) (auto simp: ascii_units_def ascii_bytes_def unat_of_nat)

lemma strip_bom_ascii: "ascii_units s \<Longrightarrow> strip_bom s = s"
  by (cases s) (auto simp: strip_bom_def starts_with_def ascii_units_def)

lemma decode_scalars_ascii: "ascii_units s \<Longrightarrow> decode_scalars (ascii_bytes s) = map Some s"
  using utf8_start_ascii [of s "[]"]
  by (simp add: decode_scalars_def unat_ascii_bytes strip_bom_ascii ascii_units_def)

lemma lenient_decode_ascii [simp]: "ascii_units s \<Longrightarrow> lenient_decode (ascii_bytes s) = s"
proof -
  assume a: "ascii_units s"
  then have "concat (map utf16_units s) = s"
    by (induction s) (auto simp: utf16_units_def ascii_units_def)
  with a show ?thesis
    by (simp add: lenient_decode_def decode_scalars_ascii lenient_scalars_def comp_def)
qed

lemma strict_decode_ascii [simp]: "ascii_units s \<Longrightarrow> strict_decode (ascii_bytes s) = Some s"
  by (auto simp: strict_decode_def decode_scalars_ascii)

end
