(* ===== verification/Payload.thy ===== *)
theory Payload
  imports Js_Text
begin

text \<open>
  The payload helpers (\<open>src/src/XChainDecoder/payload_helpers.js\<close>), with the action-name tables they
  read (\<open>VALID_ACTION_NAMES\<close> of \<open>XChainDecoder/constants.js\<close> and \<open>protocol/action_aliases.js\<close>).
  An on-chain payload is \<open>ACTION|param|...\<close>; its name is expanded from a short alias and the bytes
  after the first pipe are kept verbatim.  The lemmas show that the rewriting is idempotent, touches
  nothing but the name, and leaves a payload whose name is not a known action alone.
\<close>

section \<open>Constants\<close>

definition OP_RETURN_PUSH_OVERHEAD :: nat where
  "OP_RETURN_PUSH_OVERHEAD = 3"

definition VALID_ACTION_NAMES :: "jsstr list" where
  "VALID_ACTION_NAMES = map js
     [''ADDRESS'', ''AIRDROP'', ''ANCHOR'', ''ATTEST'',
      ''BATCH'', ''BET'', ''BROADCAST'', ''CALLBACK'', ''COINPAY'', ''COLLECT'',
      ''DELEGATE'', ''DEPLOY'', ''DEPOSIT'', ''DESTROY'', ''DISPENSER'',
      ''DIVIDEND'', ''EXECUTE'', ''FILE'', ''ISSUE'', ''LINK'', ''LIST'', ''MESSAGE'', ''MINT'',
      ''NODEPROOF'', ''ORDER'', ''PRICE'', ''ROLLCALL'', ''SEND'', ''SLASH'', ''SLEEP'', ''STAKE'',
      ''SWAP'', ''SWEEP'', ''UNSTAKE'', ''VOTE'', ''WITHDRAW'', ''XBRIDGE'']"

definition ACTION_ALIASES :: "(jsstr \<times> jsstr) list" where
  "ACTION_ALIASES = map (\<lambda>(a, c). (js a, js c))
     [(''TRANSFER'', ''SEND''), (''ADDR'', ''ADDRESS''), (''DROP'', ''AIRDROP''),
      (''CAST'', ''BROADCAST''), (''MSG'', ''MESSAGE'')]"

text \<open>
  \<open>ACTION_ALIASES\<close> is an object literal, so an index by a name such as \<open>constructor\<close> answers the
  member it inherits from \<open>Object.prototype\<close>: neither a string nor nullish.
\<close>

definition object_prototype_names :: "jsstr list" where
  "object_prototype_names = map js
     [''constructor'', ''__defineGetter__'', ''__defineSetter__'', ''hasOwnProperty'',
      ''__lookupGetter__'', ''__lookupSetter__'', ''isPrototypeOf'', ''propertyIsEnumerable'',
      ''toString'', ''valueOf'', ''__proto__'', ''toLocaleString'']"

datatype action_value = ActionText jsstr | InheritedMember jsstr

definition alias_or_self :: "jsstr \<Rightarrow> action_value" where
  "alias_or_self raw =
     (case map_of ACTION_ALIASES raw of
        Some c \<Rightarrow> ActionText c
      | None \<Rightarrow> if raw \<in> set object_prototype_names then InheritedMember raw else ActionText raw)"

fun valid_action_value :: "action_value \<Rightarrow> bool" where
  "valid_action_value (ActionText s) \<longleftrightarrow> s \<in> set VALID_ACTION_NAMES"
| "valid_action_value (InheritedMember _) \<longleftrightarrow> False"

section \<open>Operations\<close>

text \<open>A \<open>getblockchaininfo\<close> reply: every field may be absent or of another type.\<close>

datatype js_field = JsAbsent | JsBool bool | JsNumber rat | JsOther

record chain_info =
  ci_blocks :: js_field
  ci_verificationprogress :: js_field
  ci_initialblockdownload :: js_field

definition nodeStillCatchingUp :: "chain_info option \<Rightarrow> bool" where
  "nodeStillCatchingUp info =
     (case info of None \<Rightarrow> False | Some i \<Rightarrow> ci_initialblockdownload i = JsBool True)"

fun is_js_number :: "js_field \<Rightarrow> bool" where
  "is_js_number (JsNumber _) = True"
| "is_js_number _ = False"

definition blockchainInfoWellFormed :: "chain_info option \<Rightarrow> bool" where
  "blockchainInfoWellFormed info =
     (case info of None \<Rightarrow> False
      | Some i \<Rightarrow> is_js_number (ci_blocks i) \<and> is_js_number (ci_verificationprogress i))"

definition compiledPushSize :: "nat \<Rightarrow> nat" where
  "compiledPushSize byteLength =
     (if byteLength \<le> 75 then byteLength + 1
      else if byteLength \<le> 255 then byteLength + 2
      else byteLength + OP_RETURN_PUSH_OVERHEAD)"

record canonical_payload =
  out_buffer :: buffer
  rawActionName :: jsstr
  actionName :: action_value
  isKnown :: bool

definition pipe_byte :: byte where
  "pipe_byte = 0x7C"

definition canonicalizeActionPayload :: "buffer \<Rightarrow> canonical_payload" where
  "canonicalizeActionPayload buf =
     (let nameEnd = (case index_of pipe_byte buf of None \<Rightarrow> length buf | Some i \<Rightarrow> i);
          raw = lenient_decode (take nameEnd buf);
          name = alias_or_self raw;
          known = valid_action_value name;
          out = (case name of
                   ActionText n \<Rightarrow>
                     if known \<and> n \<noteq> raw then ascii_bytes n @ drop nameEnd buf else buf
                 | InheritedMember _ \<Rightarrow> buf)
      in \<lparr>out_buffer = out, rawActionName = raw, actionName = name, isKnown = known\<rparr>)"

section \<open>Lemmas\<close>

lemma compiledPushSize_less_mono: "a < b \<Longrightarrow> compiledPushSize a < compiledPushSize b"
  by (simp add: compiledPushSize_def OP_RETURN_PUSH_OVERHEAD_def)

lemma compiledPushSize_le_iff [decoder_simps]:
  "258 \<le> limit \<Longrightarrow> compiledPushSize n \<le> limit \<longleftrightarrow> n + 3 \<le> limit"
  by (auto simp: compiledPushSize_def OP_RETURN_PUSH_OVERHEAD_def)

lemma valid_names_table:
  "list_all (\<lambda>n. list_all (\<lambda>u. u < 128 \<and> u \<noteq> 0x7C) n) VALID_ACTION_NAMES"
  "list_all (\<lambda>n. map_of ACTION_ALIASES n = None) VALID_ACTION_NAMES"
  "list_all (\<lambda>n. n \<notin> set object_prototype_names) VALID_ACTION_NAMES"
    apply (simp add: VALID_ACTION_NAMES_def js_def)
   apply (simp add: VALID_ACTION_NAMES_def js_def ACTION_ALIASES_def)
  apply (simp add: VALID_ACTION_NAMES_def js_def object_prototype_names_def)
  done

lemma valid_name_facts:
  assumes "n \<in> set VALID_ACTION_NAMES"
  shows valid_names_ascii: "ascii_units n \<and> 0x7C \<notin> set n"
    and valid_name_not_alias: "map_of ACTION_ALIASES n = None"
    and valid_name_not_inherited: "n \<notin> set object_prototype_names"
  using valid_names_table assms by (auto simp: list_all_iff ascii_units_def)

lemma alias_or_self_valid: "n \<in> set VALID_ACTION_NAMES \<Longrightarrow> alias_or_self n = ActionText n"
  by (simp add: alias_or_self_def valid_name_not_alias valid_name_not_inherited)

lemma pipe_notin_ascii_bytes:
  assumes "ascii_units n" "0x7C \<notin> set n"
  shows "pipe_byte \<notin> set (ascii_bytes n)"
proof
  assume "pipe_byte \<in> set (ascii_bytes n)"
  then have "unat pipe_byte \<in> set (map unat (ascii_bytes n))"
    by auto
  then show False
    using assms by (simp add: unat_ascii_bytes pipe_byte_def)
qed

text \<open>The result in terms of the name part and the rest of the payload.\<close>

lemma canonicalize_parts:
  defines "nm b \<equiv> lenient_decode (until_first pipe_byte b)"
  shows "rawActionName (canonicalizeActionPayload b) = nm b"
    "actionName (canonicalizeActionPayload b) = alias_or_self (nm b)"
    "isKnown (canonicalizeActionPayload b) = valid_action_value (alias_or_self (nm b))"
    "out_buffer (canonicalizeActionPayload b) =
       (case alias_or_self (nm b) of
          ActionText n \<Rightarrow>
            if n \<in> set VALID_ACTION_NAMES \<and> n \<noteq> nm b
            then ascii_bytes n @ from_first pipe_byte b else b
        | InheritedMember _ \<Rightarrow> b)"
  unfolding nm_def
  by (auto simp: canonicalizeActionPayload_def Let_def until_first_def from_first_def
      split: action_value.splits)

lemma canonicalize_known:
  assumes "isKnown (canonicalizeActionPayload b)"
  obtains n where "n \<in> set VALID_ACTION_NAMES"
    "actionName (canonicalizeActionPayload b) = ActionText n"
    "lenient_decode (until_first pipe_byte (out_buffer (canonicalizeActionPayload b))) = n"
    "from_first pipe_byte (out_buffer (canonicalizeActionPayload b)) = from_first pipe_byte b"
proof -
  let ?nm = "lenient_decode (until_first pipe_byte b)"
  obtain n where n: "alias_or_self ?nm = ActionText n" "n \<in> set VALID_ACTION_NAMES"
    using assms by (cases "alias_or_self ?nm") (auto simp: canonicalize_parts)
  have p: "pipe_byte \<notin> set (ascii_bytes n)"
    using n valid_names_ascii pipe_notin_ascii_bytes by blast
  show ?thesis
  proof (rule that [OF n(2)])
    show "actionName (canonicalizeActionPayload b) = ActionText n"
      using n by (simp add: canonicalize_parts)
    show "lenient_decode (until_first pipe_byte (out_buffer (canonicalizeActionPayload b))) = n"
      using n p valid_names_ascii by (simp add: canonicalize_parts until_first_append_notin)
    show "from_first pipe_byte (out_buffer (canonicalizeActionPayload b)) = from_first pipe_byte b"
      using n p by (simp add: canonicalize_parts from_first_append_notin)
  qed
qed

lemma canonicalize_unknown:
  "\<not> isKnown (canonicalizeActionPayload b) \<Longrightarrow> out_buffer (canonicalizeActionPayload b) = b"
  by (auto simp: canonicalize_parts split: action_value.splits)

end
