(* ===== verification/Activation.thy ===== *)
theory Activation
  imports Payload
begin

text \<open>
  Consensus flag-days.  Every behaviour change of the decoder is armed per network at a block time
  (\<open>src/src/protocol/constants/activation.js\<close> and its siblings); the predicates that read the tables
  live with the behaviours they gate, and all have the same shape, collected here.  The locale
  \<open>activation_gate\<close> is the contract the clients rely on: a gate fails closed on an unknown network
  and on an unusable time, and once open it stays open, so along a chain with non-decreasing
  protocol time the history splits into one prefix below the gate and one suffix above it.  Every
  gate of the code is an interpretation.
\<close>

section \<open>JavaScript numbers as block times\<close>

text \<open>
  The values a block time can be at a gate: a header stamp is an integer; \<open>undefined\<close>, \<open>null\<close>,
  booleans and non-finite numbers reach the gates from missing readings.
\<close>

datatype js_time = Undefined | Null | Bool bool | Num int | NonFinite

fun to_number :: "js_time \<Rightarrow> int option" where
  "to_number Undefined = None"
| "to_number Null = Some 0"
| "to_number (Bool b) = Some (if b then 1 else 0)"
| "to_number (Num n) = Some n"
| "to_number NonFinite = None"

section \<open>The activation tables\<close>

text \<open>A row of a table: \<^term>\<open>Some t\<close> is armed at \<open>t\<close>, \<^const>\<open>None\<close> is the \<open>null\<close> of a disarmed network.\<close>

type_synonym gate_table = "(string \<times> int option) list"

definition ORACLE_FEE_OUTPUT_ACTIVATION :: gate_table where
  "ORACLE_FEE_OUTPUT_ACTIVATION =
     [(''mainnet'', Some 1786060800), (''testnet'', Some 0), (''regtest'', Some 0)]"

definition ORACLE_FEE_SET_CAPTURE_ACTIVATION :: gate_table where
  "ORACLE_FEE_SET_CAPTURE_ACTIVATION =
     [(''mainnet'', Some 1786060800), (''testnet'', Some 0), (''regtest'', Some 0)]"

definition DISPENSER_EXPIRY_REALIGN_ACTIVATION :: gate_table where
  "DISPENSER_EXPIRY_REALIGN_ACTIVATION =
     [(''mainnet'', Some 0), (''testnet'', Some 0), (''regtest'', Some 0)]"

definition DISPENSER_CANCEL_GRACE_ACTIVATION :: gate_table where
  "DISPENSER_CANCEL_GRACE_ACTIVATION =
     [(''mainnet'', Some 0), (''testnet'', Some 0), (''regtest'', Some 0)]"

definition DISPENSER_PURGE_GRACE_ACTIVATION :: gate_table where
  "DISPENSER_PURGE_GRACE_ACTIVATION =
     [(''mainnet'', Some 9999999999), (''testnet'', Some 1792454400), (''regtest'', Some 0)]"

definition DISPENSER_CANCEL_GRACE_PARENT_FLOOR_ACTIVATION :: gate_table where
  "DISPENSER_CANCEL_GRACE_PARENT_FLOOR_ACTIVATION =
     [(''mainnet'', Some 9999999999), (''testnet'', Some 1792454400), (''regtest'', Some 0)]"

definition DISPENSER_ADDRESS_ID_COLLAPSE_ACTIVATION :: gate_table where
  "DISPENSER_ADDRESS_ID_COLLAPSE_ACTIVATION =
     [(''mainnet'', Some 9999999999), (''testnet'', Some 1792454400), (''regtest'', Some 0)]"

definition EXACT_INTEGER_EXPIRATION_ACTIVATION :: gate_table where
  "EXACT_INTEGER_EXPIRATION_ACTIVATION =
     [(''mainnet'', None), (''testnet'', Some 1792605600), (''regtest'', Some 0)]"

definition DISPENSER_WIDE_EXPIRATION_GATES :: gate_table where
  "DISPENSER_WIDE_EXPIRATION_GATES =
     [(''mainnet'', Some 9999999999), (''testnet'', Some 1792605600), (''regtest'', Some 0)]"

definition BATCH_SUBCOMMAND_OUTPUT_CAPTURE_ACTIVATION :: gate_table where
  "BATCH_SUBCOMMAND_OUTPUT_CAPTURE_ACTIVATION =
     [(''mainnet'', Some 1786838400), (''testnet'', Some 0), (''regtest'', Some 0)]"

text \<open>Height gates are keyed by coin and network.\<close>

type_synonym height_table = "(string \<times> gate_table) list"

definition ENVELOPE_RECOGNITION_ACTIVATION :: height_table where
  "ENVELOPE_RECOGNITION_ACTIVATION =
     [(''BTC'', [(''mainnet'', Some 960850), (''testnet'', Some 0), (''regtest'', Some 0)]),
      (''LTC'', [(''mainnet'', Some 3153500), (''testnet'', Some 0), (''regtest'', Some 0)]),
      (''DOGE'', [(''mainnet'', None), (''testnet'', None), (''regtest'', None)])]"

definition ENVELOPE_CARRIER_RECOGNITION_ACTIVATION :: height_table where
  "ENVELOPE_CARRIER_RECOGNITION_ACTIVATION =
     [(''BTC'', [(''mainnet'', None), (''testnet'', Some 0), (''regtest'', Some 0)]),
      (''LTC'', [(''mainnet'', None), (''testnet'', Some 0), (''regtest'', Some 0)]),
      (''DOGE'', [(''mainnet'', None), (''testnet'', None), (''regtest'', None)])]"

definition P2WSH_WALKBACK_SEGWIT_GATE_ACTIVATION :: height_table where
  "P2WSH_WALKBACK_SEGWIT_GATE_ACTIVATION =
     [(''BTC'', [(''mainnet'', Some 0), (''testnet'', Some 0), (''regtest'', Some 0)]),
      (''LTC'', [(''mainnet'', Some 0), (''testnet'', Some 0), (''regtest'', Some 0)]),
      (''DOGE'', [(''mainnet'', None), (''testnet'', None), (''regtest'', Some 0)])]"

section \<open>Gates\<close>

text \<open>\<open>typeof TABLE[network] === 'number'\<close>, with its value.\<close>

definition table_entry :: "gate_table \<Rightarrow> string \<Rightarrow> int option" where
  "table_entry T network = Option.bind (map_of T network) id"

definition height_entry :: "height_table \<Rightarrow> string \<Rightarrow> string \<Rightarrow> int option" where
  "height_entry T coin network = Option.bind (map_of T coin) (\<lambda>m. table_entry m network)"

text \<open>The body every block-time gate shares.\<close>

definition time_gate :: "gate_table \<Rightarrow> string \<Rightarrow> js_time \<Rightarrow> bool" where
  "time_gate T network blockTime =
     (case table_entry T network of None \<Rightarrow> False
      | Some activation \<Rightarrow>
          (case to_number blockTime of None \<Rightarrow> False | Some t \<Rightarrow> activation \<le> t))"

definition isOracleFeeCaptureActive :: "string \<Rightarrow> js_time \<Rightarrow> bool" where
  "isOracleFeeCaptureActive = time_gate ORACLE_FEE_OUTPUT_ACTIVATION"

definition isOracleFeeSetCaptureActive :: "string \<Rightarrow> js_time \<Rightarrow> bool" where
  "isOracleFeeSetCaptureActive = time_gate ORACLE_FEE_SET_CAPTURE_ACTIVATION"

definition isDispenserExpiryRealignActive :: "string \<Rightarrow> js_time \<Rightarrow> bool" where
  "isDispenserExpiryRealignActive = time_gate DISPENSER_EXPIRY_REALIGN_ACTIVATION"

definition isDispenserCancelGraceActive :: "string \<Rightarrow> js_time \<Rightarrow> bool" where
  "isDispenserCancelGraceActive = time_gate DISPENSER_CANCEL_GRACE_ACTIVATION"

definition isDispenserCancelGraceParentFloorActive :: "string \<Rightarrow> js_time \<Rightarrow> bool" where
  "isDispenserCancelGraceParentFloorActive =
     time_gate DISPENSER_CANCEL_GRACE_PARENT_FLOOR_ACTIVATION"

definition isDispenserPurgeGraceActive :: "string \<Rightarrow> js_time \<Rightarrow> bool" where
  "isDispenserPurgeGraceActive = time_gate DISPENSER_PURGE_GRACE_ACTIVATION"

definition isDispenserWideExpirationActive :: "string \<Rightarrow> js_time \<Rightarrow> bool" where
  "isDispenserWideExpirationActive = time_gate DISPENSER_WIDE_EXPIRATION_GATES"

definition isExactIntegerExpirationActive :: "string \<Rightarrow> js_time \<Rightarrow> bool" where
  "isExactIntegerExpirationActive = time_gate EXACT_INTEGER_EXPIRATION_ACTIVATION"

definition isBatchSubCommandCaptureActive :: "string \<Rightarrow> js_time \<Rightarrow> bool" where
  "isBatchSubCommandCaptureActive = time_gate BATCH_SUBCOMMAND_OUTPUT_CAPTURE_ACTIVATION"

section \<open>The contract of a gate\<close>

locale activation_gate =
  fixes active :: "string \<Rightarrow> js_time \<Rightarrow> bool"
    and known :: "string \<Rightarrow> bool"
  assumes fails_closed: "\<not> known net \<Longrightarrow> \<not> active net t"
    and fails_closed_time: "to_number t = None \<Longrightarrow> \<not> active net t"
    and stays_open: "active net t \<Longrightarrow> to_number t = Some a \<Longrightarrow> to_number u = Some b \<Longrightarrow> a \<le> b
      \<Longrightarrow> active net u"
begin

lemma open_is_finite: "active net t \<Longrightarrow> \<exists>a. to_number t = Some a"
  using fails_closed_time by (cases "to_number t") auto

lemma closed_before:
  "\<not> active net u \<Longrightarrow> to_number t = Some a \<Longrightarrow> to_number u = Some b \<Longrightarrow> a \<le> b \<Longrightarrow> \<not> active net t"
  using stays_open by blast

lemma all_open: "active net (Num t) \<Longrightarrow> \<forall>u \<in> set ts. t \<le> u \<Longrightarrow> \<forall>u \<in> set ts. active net (Num u)"
  using stays_open by force

lemma history_splits:
  "sorted ts \<Longrightarrow> \<exists>below above. ts = below @ above
     \<and> (\<forall>t \<in> set below. \<not> active net (Num t)) \<and> (\<forall>t \<in> set above. active net (Num t))"
proof (induction ts)
  case (Cons t ts)
  show ?case
  proof (cases "active net (Num t)")
    case True
    then have "\<forall>u \<in> set ts. active net (Num u)"
      using all_open [of net t ts] Cons.prems by auto
    with True show ?thesis
      by (intro exI [of _ "[]"] exI [of _ "t # ts"]) auto
  next
    case False
    obtain below above where "ts = below @ above"
      "\<forall>t \<in> set below. \<not> active net (Num t)" "\<forall>t \<in> set above. active net (Num t)"
      using Cons by auto
    with False show ?thesis
      by (intro exI [of _ "t # below"] exI [of _ above]) auto
  qed
qed simp

end

lemma activation_gate_time_gate: "activation_gate (time_gate T) (\<lambda>net. net \<in> set (map fst T))"
proof
  fix net t
  assume "net \<notin> set (map fst T)"
  then have "map_of T net = None"
    by (simp add: map_of_eq_None_iff)
  then show "\<not> time_gate T net t"
    by (simp add: time_gate_def table_entry_def)
qed (auto simp: time_gate_def split: option.splits)

interpretation oracle_fee: activation_gate isOracleFeeCaptureActive
    "\<lambda>net. net \<in> set (map fst ORACLE_FEE_OUTPUT_ACTIVATION)"
  unfolding isOracleFeeCaptureActive_def by (rule activation_gate_time_gate)

interpretation oracle_fee_set: activation_gate isOracleFeeSetCaptureActive
    "\<lambda>net. net \<in> set (map fst ORACLE_FEE_SET_CAPTURE_ACTIVATION)"
  unfolding isOracleFeeSetCaptureActive_def by (rule activation_gate_time_gate)

interpretation expiry_realign: activation_gate isDispenserExpiryRealignActive
    "\<lambda>net. net \<in> set (map fst DISPENSER_EXPIRY_REALIGN_ACTIVATION)"
  unfolding isDispenserExpiryRealignActive_def by (rule activation_gate_time_gate)

interpretation cancel_grace: activation_gate isDispenserCancelGraceActive
    "\<lambda>net. net \<in> set (map fst DISPENSER_CANCEL_GRACE_ACTIVATION)"
  unfolding isDispenserCancelGraceActive_def by (rule activation_gate_time_gate)

interpretation parent_floor: activation_gate isDispenserCancelGraceParentFloorActive
    "\<lambda>net. net \<in> set (map fst DISPENSER_CANCEL_GRACE_PARENT_FLOOR_ACTIVATION)"
  unfolding isDispenserCancelGraceParentFloorActive_def by (rule activation_gate_time_gate)

interpretation purge_grace: activation_gate isDispenserPurgeGraceActive
    "\<lambda>net. net \<in> set (map fst DISPENSER_PURGE_GRACE_ACTIVATION)"
  unfolding isDispenserPurgeGraceActive_def by (rule activation_gate_time_gate)

interpretation wide_expiration: activation_gate isDispenserWideExpirationActive
    "\<lambda>net. net \<in> set (map fst DISPENSER_WIDE_EXPIRATION_GATES)"
  unfolding isDispenserWideExpirationActive_def by (rule activation_gate_time_gate)

interpretation exact_expiration: activation_gate isExactIntegerExpirationActive
    "\<lambda>net. net \<in> set (map fst EXACT_INTEGER_EXPIRATION_ACTIVATION)"
  unfolding isExactIntegerExpirationActive_def by (rule activation_gate_time_gate)

interpretation batch_capture: activation_gate isBatchSubCommandCaptureActive
    "\<lambda>net. net \<in> set (map fst BATCH_SUBCOMMAND_OUTPUT_CAPTURE_ACTIVATION)"
  unfolding isBatchSubCommandCaptureActive_def by (rule activation_gate_time_gate)

text \<open>The ordering the constants promise: the set-capture gate never precedes its base gate.\<close>

lemma oracle_fee_set_after_base:
  "isOracleFeeSetCaptureActive net t \<Longrightarrow> isOracleFeeCaptureActive net t"
  by (simp add: isOracleFeeSetCaptureActive_def isOracleFeeCaptureActive_def
      ORACLE_FEE_SET_CAPTURE_ACTIVATION_def ORACLE_FEE_OUTPUT_ACTIVATION_def)

lemmas gate_defs = time_gate_def table_entry_def height_entry_def
  isOracleFeeCaptureActive_def ORACLE_FEE_OUTPUT_ACTIVATION_def
  isOracleFeeSetCaptureActive_def ORACLE_FEE_SET_CAPTURE_ACTIVATION_def
  isDispenserExpiryRealignActive_def DISPENSER_EXPIRY_REALIGN_ACTIVATION_def
  isDispenserCancelGraceActive_def DISPENSER_CANCEL_GRACE_ACTIVATION_def
  isDispenserCancelGraceParentFloorActive_def DISPENSER_CANCEL_GRACE_PARENT_FLOOR_ACTIVATION_def
  isDispenserPurgeGraceActive_def DISPENSER_PURGE_GRACE_ACTIVATION_def
  isDispenserWideExpirationActive_def DISPENSER_WIDE_EXPIRATION_GATES_def
  isExactIntegerExpirationActive_def EXACT_INTEGER_EXPIRATION_ACTIVATION_def
  isBatchSubCommandCaptureActive_def BATCH_SUBCOMMAND_OUTPUT_CAPTURE_ACTIVATION_def
  DISPENSER_ADDRESS_ID_COLLAPSE_ACTIVATION_def

end
