(* ===== verification/Decoder_Config.thy ===== *)
theory Decoder_Config
  imports Activation
begin

text \<open>
  The identity a decoder instance is constructed with (\<open>src/src/XChainDecoder.js\<close>,
  \<open>initializeDecoderIdentity\<close>) and the chain constants it derives from its coin and network.  The
  coin registry itself (\<open>src/src/coins\<close>) supplies the values as fields of the record.
\<close>

record decoder_config =
  coinTick :: string
  consensusNetwork :: string
  feeDestination :: "jsstr option"
  expirationFeeDefaultDays :: int
  supportsSegwit :: bool
  auxPow :: bool

text \<open>Counters the health surface reads.\<close>

record decoder_stats =
  parseErrors :: nat
  rpcErrors :: nat

definition FEE_DESTINATION_PLACEHOLDER :: jsstr where
  "FEE_DESTINATION_PLACEHOLDER = js ''XXXXXXXXXXXXXXXXXXXXXXXXXXXXXXXXXX''"

definition effective_fee_destination :: "jsstr option \<Rightarrow> jsstr option" where
  "effective_fee_destination configured =
     (case configured of None \<Rightarrow> None
      | Some d \<Rightarrow> if d = [] \<or> d = FEE_DESTINATION_PLACEHOLDER then None else Some d)"

text \<open>
  \<open>String(network).slice(lastIndexOf('-') + 1)\<close>: the network after the last hyphen of the key.
\<close>

definition network_suffix :: "string \<Rightarrow> string" where
  "network_suffix key = rev (takeWhile (\<lambda>c. c \<noteq> CHR ''-'') (rev key))"

definition DISPENSER_EXPIRE_SAFE_DEPTH :: nat where
  "DISPENSER_EXPIRE_SAFE_DEPTH = 126"

definition LTC_TESTNET_DISPENSER_EXPIRE_SAFE_DEPTH :: nat where
  "LTC_TESTNET_DISPENSER_EXPIRE_SAFE_DEPTH = 5006"

definition ascii_upper :: "string \<Rightarrow> string" where
  "ascii_upper s = map (\<lambda>c. if 97 \<le> (of_char c :: nat) \<and> (of_char c :: nat) \<le> 122
     then char_of ((of_char c :: nat) - 32) else c) s"

definition ascii_lower :: "string \<Rightarrow> string" where
  "ascii_lower s = map (\<lambda>c. if 65 \<le> (of_char c :: nat) \<and> (of_char c :: nat) \<le> 90
     then char_of ((of_char c :: nat) + 32) else c) s"

definition resolveDispenserExpireSafeDepth :: "string \<Rightarrow> string \<Rightarrow> nat" where
  "resolveDispenserExpireSafeDepth coin network =
     (if ascii_upper coin = ''LTC'' \<and> ascii_lower network = ''testnet''
      then LTC_TESTNET_DISPENSER_EXPIRE_SAFE_DEPTH
      else DISPENSER_EXPIRE_SAFE_DEPTH)"

lemma safe_depth_pos: "0 < resolveDispenserExpireSafeDepth coin network"
  by (simp add: resolveDispenserExpireSafeDepth_def DISPENSER_EXPIRE_SAFE_DEPTH_def
      LTC_TESTNET_DISPENSER_EXPIRE_SAFE_DEPTH_def)

lemma safe_depth_ge: "126 \<le> resolveDispenserExpireSafeDepth coin network"
  by (simp add: resolveDispenserExpireSafeDepth_def DISPENSER_EXPIRE_SAFE_DEPTH_def
      LTC_TESTNET_DISPENSER_EXPIRE_SAFE_DEPTH_def)

end
