(* ===== verification/Js_Number.thy ===== *)
theory Js_Number
  imports Js_Text
begin

text \<open>
  JavaScript's string-to-number conversions as far as the decoder uses them on wire text:
  \<open>String.prototype.trim\<close>, \<open>Number(s)\<close> with rounding to the nearest binary64 value (ties to even),
  \<open>Number.isSafeInteger\<close>, \<open>parseInt(s, 10)\<close> and the test whether \<open>parseFloat(s)\<close> is a number.  A
  finite value is a sign with a natural mantissa and a binary exponent; the sign of zero is kept
  and has no effect on any comparison.  The main lemmas: a literal whose exact value is an integer
  below \<open>2^53\<close> converts to itself, and one whose exact value is an integer of at least \<open>2^53\<close>
  never converts to a safe integer, so a safe result of an integer literal is its exact value.
\<close>

section \<open>Binary64 values\<close>

datatype js_number = NaN | Inf bool | Fin bool nat int

text \<open>\<^term>\<open>Fin neg m e\<close> is \<open>(-1)^neg * m * 2^e\<close>.\<close>

fun bitlen :: "nat \<Rightarrow> nat" where
  "bitlen n = (if n = 0 then 0 else Suc (bitlen (n div 2)))"

declare bitlen.simps [simp del]

definition round_half_even :: "nat \<Rightarrow> nat \<Rightarrow> nat" where
  "round_half_even num den =
     (let q = num div den; r = num mod den
      in if 2 * r < den \<or> (2 * r = den \<and> even q) then q else q + 1)"

text \<open>The ratio \<open>n / d\<close> in units of \<open>2^e\<close>, as a numerator and a denominator.\<close>

definition scaled_num :: "nat \<Rightarrow> int \<Rightarrow> nat" where
  "scaled_num n e = n * 2 ^ nat (- e)"

definition scaled_den :: "nat \<Rightarrow> int \<Rightarrow> nat" where
  "scaled_den d e = d * 2 ^ nat e"

text \<open>The exponent that leaves a 53-bit mantissa, not below the subnormal exponent.\<close>

definition binary64_exponent :: "nat \<Rightarrow> nat \<Rightarrow> int" where
  "binary64_exponent n d =
     (let e = int (bitlen n) - int (bitlen d) - 53;
          e' = (if 2 ^ 53 * scaled_den d e \<le> scaled_num n e then e + 1 else e)
      in max e' (- 1074))"

definition round_ratio :: "bool \<Rightarrow> nat \<Rightarrow> nat \<Rightarrow> js_number" where
  "round_ratio neg n d =
     (if n = 0 then Fin neg 0 0
      else (let e = binary64_exponent n d;
                m = round_half_even (scaled_num n e) (scaled_den d e)
            in if 971 < e \<or> (e = 971 \<and> 2 ^ 53 \<le> m) then Inf neg else Fin neg m e))"

text \<open>\<open>Number.isSafeInteger(x)\<close> with the integer.\<close>

fun safe_integer :: "js_number \<Rightarrow> int option" where
  "safe_integer (Fin neg m e) =
     (if 0 \<le> e then
        (let v = m * 2 ^ nat e
         in if v < 2 ^ 53 then Some (if neg then - int v else int v) else None)
      else if m mod 2 ^ nat (- e) = 0 then
        (let v = m div 2 ^ nat (- e)
         in if v < 2 ^ 53 then Some (if neg then - int v else int v) else None)
      else None)"
| "safe_integer _ = None"

fun is_finite :: "js_number \<Rightarrow> bool" where
  "is_finite (Fin _ _ _) = True"
| "is_finite _ = False"

section \<open>Literals\<close>

definition js_space :: "nat \<Rightarrow> bool" where
  "js_space u \<longleftrightarrow> u \<in> set [9, 10, 11, 12, 13, 32, 0xA0, 0x1680, 0x2028, 0x2029, 0x202F, 0x205F,
     0x3000, 0xFEFF] \<or> (0x2000 \<le> u \<and> u \<le> 0x200A)"

definition js_trim_start :: "jsstr \<Rightarrow> jsstr" where
  "js_trim_start s = dropWhile js_space s"

definition js_trim :: "jsstr \<Rightarrow> jsstr" where
  "js_trim s = rev (dropWhile js_space (rev (js_trim_start s)))"

definition is_digit :: "nat \<Rightarrow> bool" where
  "is_digit u \<longleftrightarrow> 48 \<le> u \<and> u \<le> 57"

definition digits_value :: "nat \<Rightarrow> jsstr \<Rightarrow> nat" where
  "digits_value base ds = foldl (\<lambda>v d. v * base + d) 0 ds"

definition decimal_value :: "jsstr \<Rightarrow> nat" where
  "decimal_value s = digits_value 10 (map (\<lambda>u. u - 48) s)"

definition span_digits :: "jsstr \<Rightarrow> jsstr \<times> jsstr" where
  "span_digits s = (takeWhile is_digit s, dropWhile is_digit s)"

definition take_sign :: "jsstr \<Rightarrow> jsstr \<times> jsstr" where
  "take_sign s = (case s of u # t \<Rightarrow> if u = 43 \<or> u = 45 then ([u], t) else ([], s) | [] \<Rightarrow> ([], []))"

text \<open>
  The match of \<open>/^([+-]?)(?:(\d+)(?:\.(\d*))?|\.(\d+))(?:[eE]([+-]?\d+))?$/\<close>, which is also
  the grammar of a signed decimal literal: sign, integer digits, fraction digits, exponent text.
\<close>

record decimal_match =
  dm_sign :: jsstr
  dm_int :: jsstr
  dm_frac :: jsstr
  dm_exp :: "jsstr option"

definition match_exponent :: "jsstr \<Rightarrow> jsstr option option" where
  "match_exponent s =
     (case s of
        [] \<Rightarrow> Some None
      | u # t \<Rightarrow>
          if u = 101 \<or> u = 69 then
            (let (_, ds) = take_sign t
             in if ds \<noteq> [] \<and> list_all is_digit ds then Some (Some t) else None)
          else None)"

definition match_decimal :: "jsstr \<Rightarrow> decimal_match option" where
  "match_decimal s =
     (let (sg, r) = take_sign s;
          (ip, r1) = span_digits r;
          (dot, fp, r2) =
            (case r1 of u # t \<Rightarrow> if u = 46 then (True, span_digits t) else (False, [], r1)
             | [] \<Rightarrow> (False, [], []))
      in if ip = [] \<and> (\<not> dot \<or> fp = []) then None
         else map_option (\<lambda>ex. \<lparr>dm_sign = sg, dm_int = ip, dm_frac = fp, dm_exp = ex\<rparr>)
                (match_exponent r2))"

definition signed_digits_value :: "jsstr \<Rightarrow> int" where
  "signed_digits_value s =
     (let (sg, ds) = take_sign s
      in if sg = [45] then - int (decimal_value ds) else int (decimal_value ds))"

definition dm_exponent :: "decimal_match \<Rightarrow> int" where
  "dm_exponent m = (case dm_exp m of None \<Rightarrow> 0 | Some t \<Rightarrow> signed_digits_value t)"

definition dm_negative :: "decimal_match \<Rightarrow> bool" where
  "dm_negative m \<longleftrightarrow> dm_sign m = [45]"

text \<open>The literal's exact magnitude is \<open>dm_digits * 10 ^ dm_scale\<close>.\<close>

definition dm_digits :: "decimal_match \<Rightarrow> nat" where
  "dm_digits m = decimal_value (dm_int m @ dm_frac m)"

definition dm_scale :: "decimal_match \<Rightarrow> int" where
  "dm_scale m = dm_exponent m - int (length (dm_frac m))"

definition decimal_number :: "decimal_match \<Rightarrow> js_number" where
  "decimal_number m =
     (if 0 \<le> dm_scale m
      then round_ratio (dm_negative m) (dm_digits m * 10 ^ nat (dm_scale m)) 1
      else round_ratio (dm_negative m) (dm_digits m) (10 ^ nat (- dm_scale m)))"

definition hex_digit :: "nat \<Rightarrow> nat option" where
  "hex_digit u = (if 48 \<le> u \<and> u \<le> 57 then Some (u - 48)
     else if 97 \<le> u \<and> u \<le> 102 then Some (u - 87)
     else if 65 \<le> u \<and> u \<le> 70 then Some (u - 55) else None)"

definition radix_number :: "nat \<Rightarrow> jsstr \<Rightarrow> js_number" where
  "radix_number base ds =
     (if ds \<noteq> [] \<and> list_all (\<lambda>u. case hex_digit u of None \<Rightarrow> False | Some d \<Rightarrow> d < base) ds
      then round_ratio False (digits_value base (map (the \<circ> hex_digit) ds)) 1 else NaN)"

text \<open>\<open>Number(s)\<close> of a string.\<close>

definition js_Number :: "jsstr \<Rightarrow> js_number" where
  "js_Number s =
     (let t = js_trim s; (sg, r) = take_sign t
      in if t = [] then Fin False 0 0
         else if starts_with (js ''0x'') t \<or> starts_with (js ''0X'') t then radix_number 16 (drop 2 t)
         else if starts_with (js ''0o'') t \<or> starts_with (js ''0O'') t then radix_number 8 (drop 2 t)
         else if starts_with (js ''0b'') t \<or> starts_with (js ''0B'') t then radix_number 2 (drop 2 t)
         else if r = js ''Infinity'' then Inf (sg = [45])
         else (case match_decimal t of None \<Rightarrow> NaN | Some m \<Rightarrow> decimal_number m))"

text \<open>\<open>parseInt(s, 10)\<close>: the exact integer of the leading digits, \<^const>\<open>None\<close> for \<open>NaN\<close>.\<close>

definition js_parseInt :: "jsstr \<Rightarrow> int option" where
  "js_parseInt s =
     (let (sg, r) = take_sign (js_trim_start s); ds = takeWhile is_digit r
      in if ds = [] then None
         else Some (if sg = [45] then - int (decimal_value ds) else int (decimal_value ds)))"

text \<open>\<open>!isNaN(parseFloat(s))\<close>: the trimmed text starts with a decimal literal.\<close>

definition parseFloat_is_number :: "jsstr \<Rightarrow> bool" where
  "parseFloat_is_number s =
     (let (sg, r) = take_sign (js_trim_start s)
      in starts_with (js ''Infinity'') r
         \<or> (case r of [] \<Rightarrow> False
            | u # t \<Rightarrow> is_digit u \<or> (u = 46 \<and> (case t of [] \<Rightarrow> False | v # _ \<Rightarrow> is_digit v))))"

section \<open>Rounding integers\<close>

lemma bitlen_bounds: "0 < n \<Longrightarrow> 2 ^ (bitlen n - 1) \<le> n \<and> n < 2 ^ bitlen n \<and> 0 < bitlen n"
proof (induction n rule: bitlen.induct)
  case (1 n)
  have step: "bitlen n = Suc (bitlen (n div 2))"
    using 1(2) by (subst bitlen.simps) simp
  show ?case
  proof (cases "n div 2 = 0")
    case True
    then have "n = 1" using 1(2) by linarith
    moreover have "bitlen (n div 2) = 0"
      using True by (subst bitlen.simps) simp
    ultimately show ?thesis
      using step by simp
  next
    case False
    then have IH: "2 ^ (bitlen (n div 2) - 1) \<le> n div 2" "n div 2 < 2 ^ bitlen (n div 2)"
        "0 < bitlen (n div 2)"
      using 1 by auto
    obtain k where k: "bitlen (n div 2) = Suc k"
      using IH(3) gr0_implies_Suc by blast
    have "2 ^ Suc k \<le> n" "n < 2 ^ Suc (Suc k)"
      using IH(1,2) k by auto
    then show ?thesis
      using step k by simp
  qed
qed

lemma round_half_even_exact [simp]: "0 < d \<Longrightarrow> round_half_even (k * d) d = k"
  by (simp add: round_half_even_def)

lemma round_half_even_ge: "0 < d \<Longrightarrow> k * d \<le> n \<Longrightarrow> k \<le> round_half_even n d"
proof -
  assume "0 < d" "k * d \<le> n"
  then have "k \<le> n div d"
    by (simp add: less_eq_div_iff_mult_less_eq)
  then show ?thesis
    by (simp add: round_half_even_def Let_def)
qed

text \<open>The scaled ratio in the reals, and the window the exponent puts it in.\<close>

lemma scaled_ratio:
  "0 < d \<Longrightarrow> real (scaled_num n e) / real (scaled_den d e) = (real n / real d) / 2 powi e"
  by (cases "0 \<le> e") (auto simp: scaled_num_def scaled_den_def power_int_def field_simps)

lemma scaled_den_pos [simp]: "0 < scaled_den d e \<longleftrightarrow> 0 < d"
  by (simp add: scaled_den_def)

lemma scaled_ge_iff:
  assumes "0 < d"
  shows "k * scaled_den d e \<le> scaled_num n e \<longleftrightarrow> real k \<le> (real n / real d) / 2 powi e"
proof -
  have "k * scaled_den d e \<le> scaled_num n e
      \<longleftrightarrow> real k * real (scaled_den d e) \<le> real (scaled_num n e)"
    by (simp only: of_nat_le_iff flip: of_nat_mult)
  also have "\<dots> \<longleftrightarrow> real k \<le> real (scaled_num n e) / real (scaled_den d e)"
    using assms by (simp add: pos_le_divide_eq)
  finally show ?thesis
    using scaled_ratio [OF assms] by simp
qed

definition raw_exponent :: "nat \<Rightarrow> nat \<Rightarrow> int" where
  "raw_exponent n d =
     (let e = int (bitlen n) - int (bitlen d) - 53
      in if 2 ^ 53 * scaled_den d e \<le> scaled_num n e then e + 1 else e)"

lemma binary64_exponent_raw: "binary64_exponent n d = max (raw_exponent n d) (- 1074)"
  by (simp add: binary64_exponent_def raw_exponent_def Let_def)

lemma ratio_bitlen:
  assumes "0 < n" "0 < d"
  defines "w \<equiv> int (bitlen n) - int (bitlen d)"
  shows "2 powi (w - 1) < real n / real d" "real n / real d < 2 powi (w + 1)"
proof -
  obtain a b where a: "bitlen n = Suc a" and b: "bitlen d = Suc b"
    using bitlen_bounds [OF assms(1)] bitlen_bounds [OF assms(2)] gr0_implies_Suc by metis
  have n: "2 ^ a \<le> n" "n < 2 ^ Suc a" and d: "2 ^ b \<le> d" "d < 2 ^ Suc b"
    using bitlen_bounds [OF assms(1)] bitlen_bounds [OF assms(2)] a b by auto
  have rn: "2 ^ a \<le> real n" "real n < 2 ^ Suc a" and rd: "2 ^ b \<le> real d" "real d < 2 ^ Suc b"
    using n d by (metis of_nat_le_iff of_nat_less_iff of_nat_power of_nat_numeral)+
  have w: "w = int a - int b"
    by (simp add: w_def a b)
  have "2 powi (w - 1) = 2 ^ a / (2 ^ Suc b :: real)"
    by (simp add: w power_int_diff power_int_add)
  also have "\<dots> < real n / real d"
    using rn rd by (intro frac_less2) (auto intro: less_le_trans [of 0 "2 ^ b"])
  finally show "2 powi (w - 1) < real n / real d" .
  have "real n / real d < 2 ^ Suc a / (2 ^ b :: real)"
    using rn rd by (intro frac_less) (auto intro: less_le_trans [of 0 "2 ^ a"])
  also have "\<dots> = 2 powi (w + 1)"
    by (simp add: w power_int_diff power_int_add)
  finally show "real n / real d < 2 powi (w + 1)" .
qed

lemma raw_exponent_window:
  assumes "0 < n" "0 < d"
  shows "2 ^ 52 \<le> (real n / real d) / 2 powi raw_exponent n d"
    and "(real n / real d) / 2 powi raw_exponent n d < 2 ^ 53"
proof -
  define e where "e = int (bitlen n) - int (bitlen d) - 53"
  let ?r = "real n / real d"
  have p: "0 < (2 powi e :: real)"
    by simp
  have "2 powi (52 + e) < ?r" "?r < 2 powi (54 + e)"
    using ratio_bitlen [OF assms] by (simp_all add: e_def algebra_simps)
  then have "2 ^ 52 * 2 powi e < ?r" "?r < 2 ^ 54 * 2 powi e"
    by (simp_all add: power_int_add)
  then have w: "2 ^ 52 < ?r / 2 powi e" "?r / 2 powi e < 2 ^ 54"
    using pos_less_divide_eq [OF p] pos_divide_less_eq [OF p] by blast+
  have test: "2 ^ 53 * scaled_den d e \<le> scaled_num n e \<longleftrightarrow> 2 ^ 53 \<le> ?r / 2 powi e"
    using scaled_ge_iff [OF assms(2), of "2 ^ 53" e n] by simp
  have up: "?r / 2 powi (e + 1) = (?r / 2 powi e) / 2"
    by (simp add: power_int_add)
  have raw: "raw_exponent n d = (if 2 ^ 53 * scaled_den d e \<le> scaled_num n e then e + 1 else e)"
    by (simp only: raw_exponent_def Let_def e_def)
  show "2 ^ 52 \<le> ?r / 2 powi raw_exponent n d" "?r / 2 powi raw_exponent n d < 2 ^ 53"
  proof -
    define q where "q = ?r / 2 powi e"
    have "?r / 2 powi raw_exponent n d = (if 2 ^ 53 \<le> q then q / 2 else q)"
      unfolding raw test q_def using up by (simp only: if_distrib [of "\<lambda>x. ?r / 2 powi x"])
    moreover have "2 ^ 52 < q" "q < 2 ^ 54"
      using w by (simp_all only: q_def)
    ultimately show "2 ^ 52 \<le> ?r / 2 powi raw_exponent n d" "?r / 2 powi raw_exponent n d < 2 ^ 53"
      by auto
  qed
qed

lemma powi_le_1: "e \<le> 0 \<Longrightarrow> (2 powi e :: real) \<le> 1"
  using power_int_increasing [of e 0 "2::real"] by simp

lemma powi_ge_2: "1 \<le> e \<Longrightarrow> 2 \<le> (2 powi e :: real)"
  using power_int_increasing [of 1 e "2::real"] by simp

lemma exponent_large:
  assumes "0 < d" "2 ^ 53 \<le> V"
  shows "1 \<le> raw_exponent (V * d) d"
proof (rule ccontr)
  assume "\<not> 1 \<le> raw_exponent (V * d) d"
  then have le: "2 powi raw_exponent (V * d) d \<le> (1::real)"
    by (intro powi_le_1) simp
  have "(2::real) ^ 53 \<le> real V"
    using assms(2) by (metis of_nat_le_iff of_nat_power of_nat_numeral)
  also have "real V \<le> real V / 2 powi raw_exponent (V * d) d"
    using le by (simp add: pos_le_divide_eq mult_left_le)
  also have "\<dots> < 2 ^ 53"
    using raw_exponent_window(2) [of "V * d" d] assms by simp
  finally show False by simp
qed

lemma exponent_small:
  assumes "0 < d" "0 < V" "V < 2 ^ 53"
  shows "raw_exponent (V * d) d \<le> 0" "- 53 < raw_exponent (V * d) d"
proof -
  let ?e = "raw_exponent (V * d) d"
  have V: "real V < 2 ^ 53" "1 \<le> real V"
    using assms(2,3) by (metis of_nat_less_iff of_nat_power of_nat_numeral) (use assms(2) in simp)
  have w: "2 ^ 52 \<le> real V / 2 powi ?e" "real V / 2 powi ?e < 2 ^ 53"
    using raw_exponent_window [of "V * d" d] assms by simp_all
  show "?e \<le> 0"
  proof (rule ccontr)
    assume "\<not> ?e \<le> 0"
    then have "2 \<le> (2 powi ?e :: real)"
      by (intro powi_ge_2) simp
    then have "real V / 2 powi ?e \<le> real V / 2"
      by (intro divide_left_mono) auto
    moreover have "real V / 2 < 2 ^ 53 / 2"
      using V(1) by (rule divide_strict_right_mono) simp
    ultimately have "real V / 2 powi ?e < 2 ^ 53 / 2"
      by (rule le_less_trans)
    then have "2 ^ 52 < (2 ^ 53 / 2 :: real)"
      using w(1) by (rule le_less_trans [rotated])
    then show False
      by simp
  qed
  show "- 53 < ?e"
  proof (rule ccontr)
    assume "\<not> - 53 < ?e"
    then have "(2 powi ?e :: real) \<le> 2 powi (- 53)"
      by (intro power_int_increasing) auto
    then have "real V / 2 powi (- 53) \<le> real V / 2 powi ?e"
      by (intro divide_left_mono) auto
    moreover have "real V / 2 powi (- 53) = real V * 2 ^ 53"
      by (simp add: power_int_minus)
    ultimately show False
      using w(2) V(2) by simp
  qed
qed

lemma round_ratio_exact:
  assumes "0 < d" "V < 2 ^ 53"
  shows "safe_integer (round_ratio neg (V * d) d) = Some (if neg then - int V else int V)"
proof (cases "V = 0")
  case False
  define e where "e = binary64_exponent (V * d) d"
  define k where "k = nat (- e)"
  have small: "raw_exponent (V * d) d \<le> 0" "- 53 < raw_exponent (V * d) d"
    using exponent_small assms False by auto
  have e: "e \<le> 0" "e = - int k"
    using small by (auto simp: e_def k_def binary64_exponent_raw)
  have "nat (- e) = k" "nat e = 0"
    using e(1) by (simp_all add: k_def)
  then have "scaled_num (V * d) e = (V * 2 ^ k) * d" "scaled_den d e = d"
    by (simp_all add: scaled_num_def scaled_den_def)
  then have m: "round_half_even (scaled_num (V * d) e) (scaled_den d e) = V * 2 ^ k"
    using assms(1) by simp
  have "round_ratio neg (V * d) d = Fin neg (V * 2 ^ k) e"
    using False assms(1) e(1) m unfolding round_ratio_def e_def [symmetric] by (simp add: Let_def)
  moreover have "safe_integer (Fin neg (V * 2 ^ k) e) = Some (if neg then - int V else int V)"
  proof (cases "k = 0")
    case True
    then show ?thesis
      using assms(2) e(2) by simp
  next
    case False
    then have "\<not> 0 \<le> e" "nat (- e) = k"
      using e by auto
    then show ?thesis
      using assms(2) by simp
  qed
  ultimately show ?thesis by simp
qed (simp add: round_ratio_def)

lemma round_ratio_unsafe:
  assumes "0 < d" "2 ^ 53 \<le> V"
  shows "safe_integer (round_ratio neg (V * d) d) = None"
proof -
  define e where "e = binary64_exponent (V * d) d"
  define m where "m = round_half_even (scaled_num (V * d) e) (scaled_den d e)"
  have V: "V \<noteq> 0"
    using assms(2) by auto
  have e: "1 \<le> e" "e = raw_exponent (V * d) d"
    using exponent_large [OF assms] by (auto simp: e_def binary64_exponent_raw)
  have "2 ^ 52 \<le> (real (V * d) / real d) / 2 powi e"
    using raw_exponent_window(1) [of "V * d" d] assms(1) V e(2) by simp
  then have "2 ^ 52 * scaled_den d e \<le> scaled_num (V * d) e"
    using scaled_ge_iff [OF assms(1), of "2 ^ 52" e "V * d"] by simp
  then have "2 ^ 52 \<le> m"
    unfolding m_def using assms(1) by (intro round_half_even_ge) auto
  moreover have "(2::nat) ^ 1 \<le> 2 ^ nat e"
    using e(1) by (intro power_increasing) auto
  ultimately have "2 ^ 52 * 2 ^ 1 \<le> m * 2 ^ nat e"
    by (intro mult_le_mono)
  then have "\<not> m * 2 ^ nat e < 2 ^ 53"
    by simp
  then have "safe_integer (Fin neg m e) = None"
    using e(1) by simp
  then show ?thesis
    using V assms(1) unfolding round_ratio_def e_def [symmetric] m_def [symmetric]
    by (simp add: Let_def m_def [symmetric])
qed

text \<open>
  A decimal literal that denotes an integer converts to that integer or to no safe integer.
\<close>

definition dm_integer :: "decimal_match \<Rightarrow> nat \<Rightarrow> bool" where
  "dm_integer m V \<longleftrightarrow>
     (if 0 \<le> dm_scale m then V = dm_digits m * 10 ^ nat (dm_scale m)
      else dm_digits m = V * 10 ^ nat (- dm_scale m))"

lemma decimal_number_integer:
  assumes "dm_integer m V"
  shows "safe_integer (decimal_number m) =
    (if V < 2 ^ 53 then Some (if dm_negative m then - int V else int V) else None)"
proof (cases "0 \<le> dm_scale m")
  case True
  then have "decimal_number m = round_ratio (dm_negative m) (V * 1) 1"
    using assms by (simp add: decimal_number_def dm_integer_def)
  then show ?thesis
    using round_ratio_exact [of 1 V] round_ratio_unsafe [of 1 V] by (simp del: mult_1_right)
next
  case False
  then have "decimal_number m
      = round_ratio (dm_negative m) (V * 10 ^ nat (- dm_scale m)) (10 ^ nat (- dm_scale m))"
    using assms by (simp add: decimal_number_def dm_integer_def)
  then show ?thesis
    using round_ratio_exact [of "10 ^ nat (- dm_scale m)" V]
      round_ratio_unsafe [of "10 ^ nat (- dm_scale m)" V] by simp
qed

text \<open>Digit strings.\<close>

lemma decimal_value_append: "decimal_value (a @ b) = decimal_value a * 10 ^ length b + decimal_value b"
proof -
  have "foldl (\<lambda>v d. v * base + d) x ds = x * base ^ length ds + foldl (\<lambda>v d. v * base + d) 0 ds"
    for base x :: nat and ds
  proof (induction ds arbitrary: x)
    case (Cons d ds)
    from Cons [of "x * base + d"] Cons [of d] show ?case
      by (simp add: algebra_simps)
  qed simp
  from this [of 10 "digits_value 10 (map (\<lambda>u. u - 48) a)"] show ?thesis
    by (simp add: decimal_value_def digits_value_def)
qed

lemma decimal_value_zeros: "list_all (\<lambda>u. u = 48) ds \<Longrightarrow> decimal_value ds = 0"
proof (induction ds rule: rev_induct)
  case (snoc u ds)
  then show ?case
    by (simp add: decimal_value_append) (simp add: decimal_value_def digits_value_def)
qed (simp add: decimal_value_def digits_value_def)

lemma decimal_value_replicate_zero:
  "decimal_value (ds @ replicate k 48) = decimal_value ds * 10 ^ k"
  by (simp add: decimal_value_append decimal_value_zeros list_all_iff)

end
