(* ===== verification/Expiration.thy ===== *)
theory Expiration
  imports Activation Js_Number
begin

text \<open>
  Dispenser expirations on the wire (\<open>src/src/XChainDecoder/dispenser_wide_expiration.js\<close>): which
  tokens are accepted and which number they register.  The lemmas tie the two regular-expression
  readers to the exact value of the literal, so that above the exact-integer gate an accepted token
  denotes an integer and the registered expiration is that integer, clamped to the largest safe
  integer and never rounded.
\<close>

section \<open>Definitions\<close>

definition MAX_SAFE_DISPENSER_EXPIRATION :: int where
  "MAX_SAFE_DISPENSER_EXPIRATION = 9007199254740991"

definition U64_MAX :: nat where
  "U64_MAX = 18446744073709551615"

definition all_zero :: "jsstr \<Rightarrow> bool" where
  "all_zero ds \<longleftrightarrow> list_all (\<lambda>u. u = 48) ds"

definition isExactIntegerToken :: "jsstr \<Rightarrow> bool" where
  "isExactIntegerToken value =
     (case match_decimal (js_trim value) of
        None \<Rightarrow> False
      | Some m \<Rightarrow>
          (let fraction = dm_frac m;
               digits = dm_int m @ fraction
           in case safe_integer (js_Number (case dm_exp m of None \<Rightarrow> js ''0'' | Some t \<Rightarrow> t)) of
                None \<Rightarrow> False
              | Some exponent \<Rightarrow>
                  (let fractionalDigits = int (length fraction) - exponent
                   in if fractionalDigits \<le> 0 then True
                      else if int (length digits) \<le> fractionalDigits then all_zero digits
                      else all_zero (drop (length digits - nat fractionalDigits) digits))))"

text \<open>\<open>expiration\<close> is \<^const>\<open>None\<close> for \<open>null\<close>; the token is \<^const>\<open>None\<close> for \<open>undefined\<close>.\<close>

definition hasValidExpirationToken :: "jsstr option \<Rightarrow> int option \<Rightarrow> string \<Rightarrow> js_time \<Rightarrow> bool" where
  "hasValidExpirationToken expirationToken expiration consensusNetwork blockTime =
     (case expiration of
        None \<Rightarrow> False
      | Some x \<Rightarrow>
          if \<not> (\<bar>x\<bar> \<le> MAX_SAFE_DISPENSER_EXPIRATION \<and> 0 \<le> x) then False
          else (case expirationToken of
                  None \<Rightarrow> True
                | Some token \<Rightarrow>
                    if token = [] then True
                    else \<not> isExactIntegerExpirationActive consensusNetwork blockTime
                         \<or> isExactIntegerToken token))"

definition exactUnsignedDecimal :: "jsstr \<Rightarrow> nat option" where
  "exactUnsignedDecimal raw =
     (case match_decimal (js_trim raw) of
        None \<Rightarrow> None
      | Some m \<Rightarrow>
          if dm_sign m = [45] \<or> dm_int m = [] then None
          else
            (let fraction = dm_frac m;
                 exponentToken = (case dm_exp m of None \<Rightarrow> js ''0'' | Some t \<Rightarrow> t)
             in if 6 < length (dropWhile (\<lambda>u. u = 48) (snd (take_sign exponentToken))) then None
                else (case safe_integer (js_Number exponentToken) of
                        None \<Rightarrow> None
                      | Some exponent \<Rightarrow>
                          (let digits = dm_int m @ fraction;
                               fractionalPlaces = int (length fraction) - exponent
                           in if 0 < fractionalPlaces then
                                (if int (length digits) \<le> fractionalPlaces
                                 then (if all_zero digits then Some 0 else None)
                                 else if \<not> all_zero (drop (length digits - nat fractionalPlaces) digits)
                                 then None
                                 else Some (decimal_value (take (length digits - nat fractionalPlaces) digits)))
                              else if fractionalPlaces < 0 then
                                (let zeroCount = nat (- fractionalPlaces)
                                 in if \<not> all_zero digits
                                       \<and> 20 < length (dropWhile (\<lambda>u. u = 48) digits) + zeroCount
                                    then None
                                    else Some (decimal_value (digits @ replicate zeroCount 48)))
                              else Some (decimal_value digits)))))"

definition normalizeDispenserExpiration ::
    "jsstr option \<Rightarrow> string \<Rightarrow> js_time \<Rightarrow> js_number \<Rightarrow> int option" where
  "normalizeDispenserExpiration raw consensusNetwork blockTime asNumber =
     (case raw of
        None \<Rightarrow> None
      | Some token \<Rightarrow>
          if js_trim token = [] then None
          else (case safe_integer asNumber of
                  Some x \<Rightarrow>
                    if 0 \<le> x then Some x
                    else if \<not> isDispenserWideExpirationActive consensusNetwork blockTime then None
                    else (case exactUnsignedDecimal token of
                            None \<Rightarrow> None
                          | Some exact \<Rightarrow>
                              if int exact \<le> MAX_SAFE_DISPENSER_EXPIRATION \<or> U64_MAX < exact then None
                              else Some MAX_SAFE_DISPENSER_EXPIRATION)
                | None \<Rightarrow>
                    if \<not> isDispenserWideExpirationActive consensusNetwork blockTime then None
                    else (case exactUnsignedDecimal token of
                            None \<Rightarrow> None
                          | Some exact \<Rightarrow>
                              if int exact \<le> MAX_SAFE_DISPENSER_EXPIRATION \<or> U64_MAX < exact then None
                              else Some MAX_SAFE_DISPENSER_EXPIRATION)))"

section \<open>The readers agree with the literal\<close>

lemma not_digit_exponent_mark [simp]: "\<not> is_digit 120" "\<not> is_digit 88" "\<not> is_digit 111"
  "\<not> is_digit 79" "\<not> is_digit 98" "\<not> is_digit 66" "\<not> is_digit 73" "is_digit 48"
  by (simp_all add: is_digit_def)

lemma match_decimal_radix: "u \<notin> {46, 101, 69} \<Longrightarrow> \<not> is_digit u \<Longrightarrow> match_decimal (48 # u # t) = None"
  by (simp add: match_decimal_def take_sign_def span_digits_def match_exponent_def)

lemma match_decimal_Infinity:
  "snd (take_sign t) = js ''Infinity'' \<Longrightarrow> match_decimal t = None"
  by (cases "take_sign t") (simp add: match_decimal_def span_digits_def js_def)

lemma starts_with_two: "starts_with [a, b] t \<longleftrightarrow> (\<exists>u. t = a # b # u)"
  by (auto simp: starts_with_append)

lemma js_Number_match:
  assumes m: "match_decimal (js_trim s) = Some m"
  shows "js_Number s = decimal_number m"
proof -
  let ?t = "js_trim s"
  have "?t \<noteq> []"
    using m by (auto simp: match_decimal_def take_sign_def span_digits_def)
  moreover have "\<not> starts_with [48, u] ?t" if "u \<notin> {46, 101, 69}" "\<not> is_digit u" for u
    using m match_decimal_radix [OF that] by (auto simp: starts_with_two)
  moreover have "snd (take_sign ?t) \<noteq> js ''Infinity''"
    using m match_decimal_Infinity by fastforce
  moreover have "js ''0x'' = [48, 120]" "js ''0X'' = [48, 88]" "js ''0o'' = [48, 111]"
      "js ''0O'' = [48, 79]" "js ''0b'' = [48, 98]" "js ''0B'' = [48, 66]"
    by (simp_all add: js_def)
  ultimately show ?thesis
    using m by (cases "take_sign ?t") (simp add: js_Number_def)
qed

text \<open>An exponent's text converts to the integer it spells.\<close>

lemma digit_not_space: "is_digit u \<Longrightarrow> \<not> js_space u"
  by (auto simp: is_digit_def js_space_def)

lemma dropWhile_no_space: "\<forall>u \<in> set xs. \<not> js_space u \<Longrightarrow> dropWhile js_space xs = xs"
  by (cases xs) auto

lemma js_trim_id: "\<forall>u \<in> set s. \<not> js_space u \<Longrightarrow> js_trim s = s"
  using dropWhile_no_space [of s] dropWhile_no_space [of "rev s"]
  by (simp add: js_trim_def js_trim_start_def)

lemma match_decimal_digits:
  assumes "take_sign t = (sg, ds)" "ds \<noteq> []" "list_all is_digit ds"
  shows "match_decimal t = Some \<lparr>dm_sign = sg, dm_int = ds, dm_frac = [], dm_exp = None\<rparr>"
proof -
  have tw: "takeWhile is_digit ds = ds" "dropWhile is_digit ds = []"
    using assms(3) by (simp_all add: list_all_iff)
  show ?thesis
    using assms(2) by (simp add: assms(1) tw match_decimal_def span_digits_def match_exponent_def)
qed

lemma take_sign_set: "take_sign t = (sg, ds) \<Longrightarrow> set t = set sg \<union> set ds \<and> set sg \<subseteq> {43, 45}"
  by (auto simp: take_sign_def split: list.splits if_splits)

lemma exponent_text_value:
  assumes "take_sign t = (sg, ds)" "ds \<noteq> []" "list_all is_digit ds"
    and safe: "safe_integer (js_Number t) = Some e"
  shows "e = signed_digits_value t"
proof -
  let ?m = "\<lparr>dm_sign = sg, dm_int = ds, dm_frac = [], dm_exp = None\<rparr>"
  have "\<not> js_space u" if "u \<in> set t" for u
  proof -
    have "u \<in> {43, 45} \<or> is_digit u"
      using take_sign_set [OF assms(1)] that assms(3) by (auto simp: list_all_iff)
    then show ?thesis
      using digit_not_space by (auto simp: js_space_def)
  qed
  then have "match_decimal (js_trim t) = Some ?m"
    using match_decimal_digits [OF assms(1-3)] by (simp add: js_trim_id)
  then have num: "js_Number t = decimal_number ?m"
    by (rule js_Number_match)
  have "dm_integer ?m (decimal_value ds)"
    by (simp add: dm_integer_def dm_scale_def dm_exponent_def dm_digits_def)
  from decimal_number_integer [OF this] safe show ?thesis
    by (auto simp: num signed_digits_value_def assms(1) dm_negative_def split: if_splits)
qed

lemma match_decimal_exp:
  assumes "match_decimal s = Some m" "dm_exp m = Some t"
  shows "\<exists>sg ds. take_sign t = (sg, ds) \<and> ds \<noteq> [] \<and> list_all is_digit ds"
proof -
  obtain r where "match_exponent r = Some (Some t)"
    using assms by (auto simp: match_decimal_def Let_def split: prod.splits list.splits if_splits)
  then show ?thesis
    by (auto simp: match_exponent_def split: list.splits if_splits prod.splits)
qed

lemma exponent_value:
  assumes "match_decimal s = Some m"
    and "safe_integer (js_Number (case dm_exp m of None \<Rightarrow> js ''0'' | Some t \<Rightarrow> t)) = Some e"
  shows "e = dm_exponent m"
proof (cases "dm_exp m")
  case None
  have "take_sign (js ''0'') = ([], [48])"
    by (simp add: js_def take_sign_def)
  then have "e = signed_digits_value (js ''0'')"
    using exponent_text_value [of "js ''0''" "[]" "[48]" e] assms(2) None by simp
  then show ?thesis
    using None by (simp add: dm_exponent_def signed_digits_value_def js_def take_sign_def
        decimal_value_def digits_value_def)
next
  case (Some t)
  then show ?thesis
    using exponent_text_value match_decimal_exp [OF assms(1) Some] assms(2)
    by (auto simp: dm_exponent_def)
qed

text \<open>Dropping zero digits behind the decimal point divides exactly.\<close>

lemma dm_integer_drop:
  assumes "0 < k" "dm_scale m = - int k" "k < length (dm_int m @ dm_frac m)"
    and "all_zero (drop (length (dm_int m @ dm_frac m) - k) (dm_int m @ dm_frac m))"
  shows "dm_integer m (decimal_value (take (length (dm_int m @ dm_frac m) - k) (dm_int m @ dm_frac m)))"
proof -
  let ?d = "dm_int m @ dm_frac m"
  have "decimal_value ?d = decimal_value (take (length ?d - k) ?d @ drop (length ?d - k) ?d)"
    by (simp only: append_take_drop_id)
  also have "\<dots> = decimal_value (take (length ?d - k) ?d) * 10 ^ k"
    using assms(3,4) decimal_value_zeros by (subst decimal_value_append) (auto simp: all_zero_def)
  finally show ?thesis
    using assms(1,2) by (simp add: dm_integer_def dm_digits_def)
qed

lemma dm_integer_zero:
  "all_zero (dm_int m @ dm_frac m) \<Longrightarrow> dm_integer m 0"
  using decimal_value_zeros [of "dm_int m @ dm_frac m"]
  by (simp add: dm_integer_def dm_digits_def all_zero_def)

lemma dm_integer_scale:
  "0 \<le> dm_scale m \<Longrightarrow> dm_integer m (decimal_value (dm_int m @ dm_frac m) * 10 ^ nat (dm_scale m))"
  by (simp add: dm_integer_def dm_digits_def)

lemma isExactIntegerToken_integer:
  assumes "isExactIntegerToken s"
  obtains m V where "match_decimal (js_trim s) = Some m" "dm_integer m V"
proof -
  obtain m where m: "match_decimal (js_trim s) = Some m"
    using assms by (auto simp: isExactIntegerToken_def split: option.splits)
  let ?d = "dm_int m @ dm_frac m"
  obtain e where e: "safe_integer (js_Number (case dm_exp m of None \<Rightarrow> js ''0'' | Some t \<Rightarrow> t)) = Some e"
    using assms m by (auto simp: isExactIntegerToken_def Let_def split: option.splits)
  let ?f = "int (length (dm_frac m)) - e"
  have ok: "?f \<le> 0 \<or> (0 < ?f \<and> int (length ?d) \<le> ?f \<and> all_zero ?d)
      \<or> (0 < ?f \<and> ?f < int (length ?d) \<and> all_zero (drop (length ?d - nat ?f) ?d))"
    using assms m e by (auto simp: isExactIntegerToken_def Let_def split: if_splits)
  have scale: "dm_scale m = - ?f"
    using exponent_value [OF m e] by (simp add: dm_scale_def)
  consider "0 \<le> dm_scale m" | "all_zero ?d"
    | "0 < nat ?f" "dm_scale m = - int (nat ?f)" "nat ?f < length ?d"
      "all_zero (drop (length ?d - nat ?f) ?d)"
    using ok scale by fastforce
  then have "\<exists>V. dm_integer m V"
    using dm_integer_scale dm_integer_zero dm_integer_drop by cases blast+
  then show ?thesis
    using that m by blast
qed

lemma exactUnsignedDecimal_value:
  assumes "exactUnsignedDecimal s = Some v"
  obtains m where "match_decimal (js_trim s) = Some m" "dm_integer m v" "\<not> dm_negative m"
proof -
  obtain m where m: "match_decimal (js_trim s) = Some m"
    using assms by (auto simp: exactUnsignedDecimal_def split: option.splits)
  let ?d = "dm_int m @ dm_frac m"
  obtain e where e: "safe_integer (js_Number (case dm_exp m of None \<Rightarrow> js ''0'' | Some t \<Rightarrow> t)) = Some e"
    using assms m by (auto simp: exactUnsignedDecimal_def Let_def split: option.splits if_splits)
  let ?f = "int (length (dm_frac m)) - e"
  have neg: "\<not> dm_negative m"
    using assms m by (auto simp: exactUnsignedDecimal_def dm_negative_def split: if_splits)
  have scale: "dm_scale m = - ?f"
    using exponent_value [OF m e] by (simp add: dm_scale_def)
  have ok: "(0 < ?f \<and> all_zero ?d \<and> v = 0)
      \<or> (0 < ?f \<and> ?f < int (length ?d) \<and> all_zero (drop (length ?d - nat ?f) ?d)
          \<and> v = decimal_value (take (length ?d - nat ?f) ?d))
      \<or> (?f \<le> 0 \<and> v = decimal_value ?d * 10 ^ nat (- ?f))"
    using assms m e
    by (auto simp: exactUnsignedDecimal_def Let_def decimal_value_replicate_zero
        simp flip: append_assoc split: if_splits)
  consider "all_zero ?d" "v = 0"
    | "0 < nat ?f" "dm_scale m = - int (nat ?f)" "nat ?f < length ?d"
      "all_zero (drop (length ?d - nat ?f) ?d)" "v = decimal_value (take (length ?d - nat ?f) ?d)"
    | "0 \<le> dm_scale m" "v = decimal_value ?d * 10 ^ nat (dm_scale m)"
    using ok scale by fastforce
  then have "dm_integer m v"
    using dm_integer_scale dm_integer_zero dm_integer_drop by cases blast+
  then show ?thesis
    using that m neg by blast
qed

text \<open>A literal denotes at most one integer.\<close>

lemma dm_integer_unique: "dm_integer m V \<Longrightarrow> dm_integer m W \<Longrightarrow> V = W"
  by (auto simp: dm_integer_def split: if_splits)

lemma normalize_cases:
  assumes "normalizeDispenserExpiration (Some s) net t (js_Number s) = Some x"
  shows "(safe_integer (js_Number s) = Some x \<and> 0 \<le> x)
    \<or> (isDispenserWideExpirationActive net t \<and> x = MAX_SAFE_DISPENSER_EXPIRATION
        \<and> (\<exists>v. exactUnsignedDecimal s = Some v \<and> MAX_SAFE_DISPENSER_EXPIRATION < int v \<and> v \<le> U64_MAX))"
  using assms unfolding normalizeDispenserExpiration_def
  by (auto split: if_splits option.splits)

lemma safe_integer_bound: "safe_integer x = Some v \<Longrightarrow> \<bar>v\<bar> < 2 ^ 53"
  by (cases x rule: safe_integer.cases) 
    (auto split: if_splits simp: Let_def simp del: of_nat_mult of_nat_power)

lemma normalize_range:
  "normalizeDispenserExpiration raw net t (js_Number (case raw of None \<Rightarrow> [] | Some s \<Rightarrow> s)) = Some x
    \<Longrightarrow> 0 \<le> x \<and> x \<le> MAX_SAFE_DISPENSER_EXPIRATION"
  using normalize_cases safe_integer_bound
  by (cases raw) (fastforce simp: normalizeDispenserExpiration_def MAX_SAFE_DISPENSER_EXPIRATION_def)+

end
