(* ===== verification/Batch_Capture.thy ===== *)
theory Batch_Capture
  imports Activation Js_Number
begin

text \<open>
  The command view of a transaction that output capture and dispenser registration run over
  (\<open>src/src/protocol/batch_sub_command_capture.js\<close> with its \<open>sub_commands.js\<close> and \<open>batch_cost.js\<close>,
  and the limit tables of \<open>indexer_batch_limits.js\<close>).  A BATCH is read as its sub-commands, unless
  the indexer provably rejects it as a whole.  The lemmas characterise that rejection by the
  commands' positions, counts and weights, relate the running tallies to counts, and show that no
  command handed on names BATCH again.
\<close>

section \<open>Limit tables\<close>

definition COMMAND_LIMIT :: nat where
  "COMMAND_LIMIT = 250"

definition ACTION_LIMITS :: "(jsstr \<times> nat) list" where
  "ACTION_LIMITS = [(js ''BATCH'', 0), (js ''ISSUE'', 1), (js ''MINT'', 1)]"

definition GATED_ACTION_LIMITS :: "(jsstr \<times> nat) list" where
  "GATED_ACTION_LIMITS = [(js ''DEPLOY'', 1)]"

definition CHILD_ISSUE_KEY :: jsstr where
  "CHILD_ISSUE_KEY = js ''ISSUE.CHILD''"

definition WEIGHT_BUDGET :: nat where
  "WEIGHT_BUDGET = 250"

definition COMMAND_WEIGHTS :: "(jsstr \<times> nat) list" where
  "COMMAND_WEIGHTS = [(js ''AIRDROP'', 25), (js ''DEPLOY'', 30), (js ''DIVIDEND'', 25),
     (js ''EXECUTE'', 30), (js ''XEXEC'', 30)]"

definition COST_WEIGHTING_ACTIVATION :: gate_table where
  "COST_WEIGHTING_ACTIVATION = [(''mainnet'', Some 0), (''testnet'', Some 0), (''regtest'', Some 0)]"

definition BATCH_SUB_COMMAND_FORMATS :: "jsstr list" where
  "BATCH_SUB_COMMAND_FORMATS = [js ''0'']"

definition pipe :: nat where
  "pipe = 124"

definition semicolon :: nat where
  "semicolon = 59"

section \<open>Sub-commands\<close>

text \<open>\<^const>\<open>None\<close> is the \<open>null\<close> of a string that is no BATCH.\<close>

fun batch_format_commands :: "jsstr list \<Rightarrow> jsstr \<Rightarrow> jsstr list" where
  "batch_format_commands [] decodedData = []"
| "batch_format_commands (f # fs) decodedData =
     (let prefix = js ''BATCH|'' @ f @ js ''|''
      in if starts_with prefix decodedData
         then split_on semicolon (drop (length prefix) decodedData)
         else batch_format_commands fs decodedData)"

definition batchSubCommands :: "jsstr \<Rightarrow> jsstr list option" where
  "batchSubCommands decodedData =
     (if \<not> starts_with (js ''BATCH|'') decodedData then None
      else Some (batch_format_commands BATCH_SUB_COMMAND_FORMATS decodedData))"

definition subCommandActionName :: "jsstr \<Rightarrow> jsstr" where
  "subCommandActionName command = until_first pipe command"

definition hasProvablyRejectedSubCommand :: "jsstr list \<Rightarrow> bool" where
  "hasProvablyRejectedSubCommand subCommands =
     list_ex (\<lambda>command. subCommandActionName command = []) subCommands"

type_synonym alias_table = "(jsstr \<times> jsstr) list"

definition expandAliasName :: "jsstr \<Rightarrow> alias_table \<Rightarrow> jsstr" where
  "expandAliasName name aliases =
     (if name = [] then name
      else (case map_of aliases name of
              None \<Rightarrow> name
            | Some canonical \<Rightarrow> if canonical = [] then name else canonical))"

definition expandSubCommandAlias :: "jsstr \<Rightarrow> alias_table \<Rightarrow> jsstr" where
  "expandSubCommandAlias command aliases =
     (let name = subCommandActionName command
      in if name = [] then command
         else (let canonical = expandAliasName name aliases
               in if canonical = name then command
                  else canonical @ drop (length name) command))"

definition isNumeric :: "jsstr \<Rightarrow> bool" where
  "isNumeric value \<longleftrightarrow> parseFloat_is_number value \<and> is_finite (js_Number value)"

text \<open>A missing \<open>params[0]\<close> reads as the nine characters of \<open>undefined\<close>.\<close>

definition isLegacyActionFormat :: "jsstr list \<Rightarrow> bool" where
  "isLegacyActionFormat params =
     (case field params 0 of
        None \<Rightarrow> True
      | Some version \<Rightarrow> if 2 < length version then True else \<not> isNumeric version)"

definition sub_command_params :: "jsstr \<Rightarrow> bool \<Rightarrow> jsstr list" where
  "sub_command_params command versioned =
     (let params = drop 1 (split_on pipe command)
      in if versioned \<and> isLegacyActionFormat params then js ''0'' # params else params)"

definition subCommandTick :: "jsstr \<Rightarrow> jsstr \<Rightarrow> jsstr" where
  "subCommandTick action command =
     (let params = sub_command_params command
            (action \<in> set [js ''ISSUE'', js ''MINT'', js ''SEND''])
      in case field params 1 of None \<Rightarrow> [] | Some tick \<Rightarrow> js_trim tick)"

definition subCommandLimitKey :: "jsstr \<Rightarrow> alias_table \<Rightarrow> jsstr" where
  "subCommandLimitKey command aliases =
     (let action = expandAliasName (subCommandActionName command) aliases
      in if action \<noteq> js ''ISSUE'' then action
         else (case field (sub_command_params command True) 1 of
                 None \<Rightarrow> action
               | Some tick \<Rightarrow>
                   if field tick 0 = Some 94 then action
                   else if 46 \<in> set tick then CHILD_ISSUE_KEY
                   else action))"

text \<open>The running counts, as the code's \<open>Map\<close> keeps them.\<close>

definition bump :: "('a \<Rightarrow> nat option) \<Rightarrow> 'a \<Rightarrow> ('a \<Rightarrow> nat option)" where
  "bump counts k = counts(k \<mapsto> (case counts k of None \<Rightarrow> 0 | Some n \<Rightarrow> n) + 1)"

fun max_ticks_from :: "(jsstr \<Rightarrow> nat option) \<Rightarrow> nat \<Rightarrow> jsstr list \<Rightarrow> nat" where
  "max_ticks_from counts mx [] = mx"
| "max_ticks_from counts mx (tick # ticks) =
     (let counts' = bump counts tick; count = the (counts' tick)
      in max_ticks_from counts' (if mx < count then count else mx) ticks)"

definition maxIdenticalMintTicks :: "jsstr list \<Rightarrow> nat" where
  "maxIdenticalMintTicks ticks = max_ticks_from (\<lambda>_. None) 0 ticks"

section \<open>Weights and rejection\<close>

definition isBatchCostWeightingActive :: "string \<Rightarrow> js_time \<Rightarrow> bool" where
  "isBatchCostWeightingActive = time_gate COST_WEIGHTING_ACTIVATION"

definition subCommandCostWeight :: "jsstr \<Rightarrow> alias_table \<Rightarrow> nat" where
  "subCommandCostWeight command aliases =
     (let action = expandAliasName (subCommandActionName command) aliases
      in if action = js ''DEPLOY'' then 1
         else (case map_of COMMAND_WEIGHTS action of
                 None \<Rightarrow> 1
               | Some weight \<Rightarrow> if 1 \<le> weight then weight else 1))"

definition batchCostWeight :: "jsstr list \<Rightarrow> alias_table \<Rightarrow> nat" where
  "batchCostWeight subCommands aliases =
     foldl (\<lambda>total command. total + subCommandCostWeight command aliases) 0 subCommands"

definition merge_limits :: "(jsstr \<times> nat) list \<Rightarrow> (jsstr \<times> nat) list \<Rightarrow> (jsstr \<times> nat) list" where
  "merge_limits base over =
     map (\<lambda>(k, v). (k, case map_of over k of None \<Rightarrow> v | Some w \<Rightarrow> w)) base
     @ filter (\<lambda>(k, _). k \<notin> set (map fst base)) over"

definition hasProvablyRejectedBatch ::
    "jsstr list \<Rightarrow> alias_table \<Rightarrow> string \<Rightarrow> js_time \<Rightarrow> bool" where
  "hasProvablyRejectedBatch subCommands aliases consensusNetwork blockTime =
     (let weightsActive = isBatchCostWeightingActive consensusNetwork blockTime
      in if (if weightsActive then WEIGHT_BUDGET else COMMAND_LIMIT) < length subCommands then True
         else if hasProvablyRejectedSubCommand subCommands then True
         else
           (let keys = map (\<lambda>command. subCommandLimitKey command aliases) subCommands;
                mintTicks = map (subCommandTick (js ''MINT''))
                  (filter (\<lambda>command. subCommandLimitKey command aliases = js ''MINT'') subCommands);
                tally = foldl bump (\<lambda>_. None) keys;
                caps = merge_limits ACTION_LIMITS GATED_ACTION_LIMITS
            in if list_ex (\<lambda>(action, cap).
                    cap < (if action = js ''MINT'' then maxIdenticalMintTicks mintTicks
                           else (case tally action of None \<Rightarrow> 0 | Some n \<Rightarrow> n))) caps
               then True
               else weightsActive \<and> WEIGHT_BUDGET < batchCostWeight subCommands aliases))"

definition captureCommands :: "jsstr \<Rightarrow> string \<Rightarrow> js_time \<Rightarrow> jsstr list" where
  "captureCommands decodedData consensusNetwork blockTime =
     (if \<not> isBatchSubCommandCaptureActive consensusNetwork blockTime then [decodedData]
      else (case batchSubCommands decodedData of
              None \<Rightarrow> [decodedData]
            | Some subCommands \<Rightarrow>
                if hasProvablyRejectedBatch subCommands ACTION_ALIASES consensusNetwork blockTime
                then []
                else map (\<lambda>command. expandSubCommandAlias command ACTION_ALIASES) subCommands))"

interpretation cost_weighting: activation_gate isBatchCostWeightingActive
    "\<lambda>net. net \<in> set (map fst COST_WEIGHTING_ACTIVATION)"
  unfolding isBatchCostWeightingActive_def by (rule activation_gate_time_gate)

section \<open>Tallies are counts\<close>

lemma bump_count: "(case bump counts k j of None \<Rightarrow> 0 | Some n \<Rightarrow> n)
    = (case counts j of None \<Rightarrow> 0 | Some n \<Rightarrow> n) + (if j = k then 1 else 0)"
  by (simp add: bump_def)

lemma tally_count:
  "(case foldl bump counts ks j of None \<Rightarrow> 0 | Some n \<Rightarrow> n)
     = (case counts j of None \<Rightarrow> 0 | Some n \<Rightarrow> n) + count_list ks j"
proof (induction ks arbitrary: counts)
  case (Cons k ks)
  show ?case
    unfolding foldl.simps Cons.IH bump_count by simp
qed simp

lemma max_ticks_from_less:
  "k < max_ticks_from counts mx ticks \<longleftrightarrow>
     k < mx \<or> (\<exists>t \<in> set ticks. k < (case counts t of None \<Rightarrow> 0 | Some n \<Rightarrow> n) + count_list ticks t)"
proof (induction ticks arbitrary: counts mx)
  case (Cons tick ticks)
  have top: "the (bump counts tick tick) = (case counts tick of None \<Rightarrow> 0 | Some n \<Rightarrow> n) + 1"
    by (simp add: bump_def)
  define v where "v = (\<lambda>t. case counts t of None \<Rightarrow> 0 | Some n \<Rightarrow> n)"
  have mx: "k < (if mx < v tick + 1 then v tick + 1 else mx) \<longleftrightarrow> k < mx \<or> k < v tick + 1"
    by auto
  have step: "k < max_ticks_from counts mx (tick # ticks) \<longleftrightarrow>
      (k < mx \<or> k < v tick + 1)
        \<or> (\<exists>t \<in> set ticks. k < v t + (if t = tick then 1 else 0) + count_list ticks t)"
    unfolding max_ticks_from.simps Let_def top Cons.IH bump_count mx [unfolded v_def] v_def ..
  have none: "count_list ticks tick = 0" if "tick \<notin> set ticks"
    using that by (simp add: count_list_0_iff)
  have "(k < v tick + 1) \<or> (\<exists>t \<in> set ticks. k < v t + (if t = tick then 1 else 0) + count_list ticks t)
      \<longleftrightarrow> (\<exists>t \<in> set (tick # ticks). k < v t + count_list (tick # ticks) t)" (is "?L \<longleftrightarrow> ?R")
  proof
    assume ?L
    then show ?R
    proof
      assume "k < v tick + 1"
      then show ?R
        by (intro bexI [of _ tick]) auto
    next
      assume "\<exists>t \<in> set ticks. k < v t + (if t = tick then 1 else 0) + count_list ticks t"
      then obtain t where "t \<in> set ticks" "k < v t + (if t = tick then 1 else 0) + count_list ticks t"
        by blast
      then show ?R
        by (intro bexI [of _ t]) (auto split: if_splits)
    qed
  next
    assume ?R
    then obtain t where "t \<in> set (tick # ticks)" "k < v t + count_list (tick # ticks) t"
      by blast
    then have t: "t = tick \<or> t \<in> set ticks" "k < v t + count_list (tick # ticks) t"
      by (simp_all only: set_simps insert_iff)
    show ?L
    proof (cases "t \<in> set ticks")
      case True
      then have "k < v t + (if t = tick then 1 else 0) + count_list ticks t"
        using t(2) by (auto split: if_splits)
      with True show ?L by blast
    next
      case False
      then show ?L using t none by auto
    qed
  qed
  then show ?case
    unfolding step v_def by blast
qed simp

lemma maxIdenticalMintTicks_less:
  "k < maxIdenticalMintTicks ticks \<longleftrightarrow> (\<exists>t. k < count_list ticks t)"
proof -
  have "k < count_list ticks t \<Longrightarrow> t \<in> set ticks" for t
    by (metis count_list_0_iff less_nat_zero_code)
  then show ?thesis
    unfolding maxIdenticalMintTicks_def max_ticks_from_less by auto
qed

text \<open>More than one occurrence, by position.\<close>

lemma count_list_two:
  "1 < count_list xs x \<longleftrightarrow> (\<exists>i j. i < j \<and> j < length xs \<and> xs ! i = x \<and> xs ! j = x)"
proof (induction xs)
  case (Cons a xs)
  have pos: "0 < count_list xs x \<longleftrightarrow> (\<exists>j < length xs. xs ! j = x)"
    by (metis count_list_0_iff gr_zeroI in_set_conv_nth less_numeral_extra(3))
  show ?case
  proof
    assume "1 < count_list (a # xs) x"
    then consider "a = x" "0 < count_list xs x" | "1 < count_list xs x"
      by (auto split: if_splits)
    then show "\<exists>i j. i < j \<and> j < length (a # xs) \<and> (a # xs) ! i = x \<and> (a # xs) ! j = x"
    proof cases
      case 1
      then obtain j where "j < length xs" "xs ! j = x"
        using pos by auto
      with 1 show ?thesis
        by (intro exI [of _ 0] exI [of _ "Suc j"]) simp
    next
      case 2
      then obtain i j where "i < j" "j < length xs" "xs ! i = x" "xs ! j = x"
        using Cons.IH by auto
      then show ?thesis
        by (intro exI [of _ "Suc i"] exI [of _ "Suc j"]) simp
    qed
  next
    assume "\<exists>i j. i < j \<and> j < length (a # xs) \<and> (a # xs) ! i = x \<and> (a # xs) ! j = x"
    then obtain i j where ij: "i < j" "j < Suc (length xs)" "(a # xs) ! i = x" "(a # xs) ! j = x"
      by auto
    then obtain j' where j': "j = Suc j'" "j' < length xs" "xs ! j' = x"
      by (cases j) auto
    show "1 < count_list (a # xs) x"
    proof (cases i)
      case 0
      then show ?thesis using ij j' pos by auto
    next
      case (Suc i')
      then have "1 < count_list xs x"
        using ij j' Cons.IH by auto
      then show ?thesis by simp
    qed
  qed
qed simp

lemma batchCostWeight_sum:
  "batchCostWeight cs aliases = sum_list (map (\<lambda>c. subCommandCostWeight c aliases) cs)"
proof -
  have "foldl (\<lambda>t c. t + f c) x cs = x + sum_list (map f cs)" for f and x :: nat
    by (induction cs arbitrary: x) (auto simp: add.assoc)
  then show ?thesis
    by (simp add: batchCostWeight_def)
qed

lemma subCommandCostWeight_pos: "1 \<le> subCommandCostWeight c aliases"
  by (simp add: subCommandCostWeight_def Let_def split: option.splits)

lemma batchCostWeight_ge_length: "length cs \<le> batchCostWeight cs aliases"
proof (induction cs)
  case (Cons c cs)
  then show ?case
    using subCommandCostWeight_pos [of c aliases] by (simp add: batchCostWeight_sum)
qed simp

lemma count_map_filter:
  "count_list (map f (filter P cs)) t = length (filter (\<lambda>c. P c \<and> f c = t) cs)"
  by (induction cs) auto

lemma caps_table:
  "merge_limits ACTION_LIMITS GATED_ACTION_LIMITS
     = [(js ''BATCH'', 0), (js ''ISSUE'', 1), (js ''MINT'', 1), (js ''DEPLOY'', 1)]"
  by (simp add: merge_limits_def ACTION_LIMITS_def GATED_ACTION_LIMITS_def)

text \<open>The rejection test without its control flow.\<close>

lemma rejected_unfold:
  "hasProvablyRejectedBatch cs aliases net t \<longleftrightarrow>
     250 < length cs
     \<or> (\<exists>c \<in> set cs. subCommandActionName c = [])
     \<or> js ''BATCH'' \<in> set (map (\<lambda>c. subCommandLimitKey c aliases) cs)
     \<or> (\<exists>a \<in> {js ''ISSUE'', js ''DEPLOY''}. 1 < count_list (map (\<lambda>c. subCommandLimitKey c aliases) cs) a)
     \<or> (\<exists>tick. 1 < count_list (map (subCommandTick (js ''MINT''))
            (filter (\<lambda>c. subCommandLimitKey c aliases = js ''MINT'') cs)) tick)
     \<or> (isBatchCostWeightingActive net t \<and> 250 < batchCostWeight cs aliases)"
proof -
  let ?keys = "map (\<lambda>c. subCommandLimitKey c aliases) cs"
  have tally: "(case foldl bump (\<lambda>_. None) ?keys a of None \<Rightarrow> 0 | Some n \<Rightarrow> n) = count_list ?keys a" for a
    using tally_count [of "\<lambda>_. None" ?keys a] by simp
  have "0 < count_list ?keys (js ''BATCH'') \<longleftrightarrow> js ''BATCH'' \<in> set ?keys"
    by (metis count_list_0_iff gr_zeroI less_numeral_extra(3))
  then show ?thesis
    unfolding hasProvablyRejectedBatch_def hasProvablyRejectedSubCommand_def caps_table Let_def
      WEIGHT_BUDGET_def COMMAND_LIMIT_def list_ex_iff tally maxIdenticalMintTicks_less
    by (simp add: maxIdenticalMintTicks_less cong: if_cong)
qed

section \<open>Captured sub-commands\<close>

lemma alias_targets:
  assumes "map_of ACTION_ALIASES n = Some c"
  shows "pipe \<notin> set c" "c \<noteq> []"
proof -
  have "list_all (\<lambda>(a, c). pipe \<notin> set c \<and> c \<noteq> []) ACTION_ALIASES"
    by (simp add: ACTION_ALIASES_def js_def pipe_def)
  with map_of_SomeD[OF assms] show "pipe \<notin> set c" "c \<noteq> []" by (auto simp: list_all_iff)
qed

lemma expandAliasName_cases:
  "expandAliasName n ACTION_ALIASES = n \<or> map_of ACTION_ALIASES n = Some (expandAliasName n ACTION_ALIASES)"
  by (auto simp: expandAliasName_def split: option.splits)

lemma sub_command_name_expanded:
  "subCommandActionName (expandSubCommandAlias c ACTION_ALIASES) = expandAliasName (subCommandActionName c) ACTION_ALIASES"
proof (cases "expandAliasName (subCommandActionName c) ACTION_ALIASES = subCommandActionName c")
  case True
  then show ?thesis by (simp add: expandSubCommandAlias_def Let_def)
next
  case False
  let ?n = "subCommandActionName c"
  have some: "map_of ACTION_ALIASES ?n = Some (expandAliasName ?n ACTION_ALIASES)"
    using False expandAliasName_cases[of ?n] by blast
  have "?n \<noteq> []" using False by (auto simp: expandAliasName_def)
  moreover have "drop (length ?n) c = from_first pipe c"
    using until_from_first[of pipe c] unfolding subCommandActionName_def by (metis append_eq_conv_conj)
  ultimately show ?thesis
    using False until_first_append_notin[OF alias_targets(1)[OF some], of c]
    by (simp add: expandSubCommandAlias_def Let_def) (simp add: subCommandActionName_def)
qed

lemma captured_sub_commands:
  assumes "isBatchSubCommandCaptureActive net t" "starts_with (js ''BATCH|'') d"
    and "c \<in> set (captureCommands d net t)"
  shows "subCommandActionName c \<noteq> [] \<and> subCommandActionName c \<noteq> js ''BATCH''
    \<and> length (captureCommands d net t) \<le> 250"
proof -
  obtain cs where cs: "batchSubCommands d = Some cs" using assms(2) by (simp add: batchSubCommands_def)
  with assms have ok: "\<not> hasProvablyRejectedBatch cs ACTION_ALIASES net t"
    and c: "c \<in> (\<lambda>c. expandSubCommandAlias c ACTION_ALIASES) ` set cs"
    and len: "length (captureCommands d net t) = length cs"
    by (auto simp: captureCommands_def split: if_splits)
  then obtain b where b: "b \<in> set cs" "c = expandSubCommandAlias b ACTION_ALIASES" by auto
  have name: "subCommandActionName c = expandAliasName (subCommandActionName b) ACTION_ALIASES"
    by (simp add: b sub_command_name_expanded)
  have ne: "subCommandActionName b \<noteq> []" and key: "js ''BATCH'' \<notin> set (map (\<lambda>c. subCommandLimitKey c ACTION_ALIASES) cs)"
    and small: "length cs \<le> 250"
    using ok b(1) unfolding rejected_unfold by (blast, blast, linarith)
  have "subCommandLimitKey b ACTION_ALIASES \<noteq> js ''BATCH''" using key b(1) by (metis image_eqI set_map)
  moreover have "js ''BATCH'' \<noteq> js ''ISSUE''" by (simp add: js_def)
  ultimately have "expandAliasName (subCommandActionName b) ACTION_ALIASES \<noteq> js ''BATCH''"
    by (auto simp: subCommandLimitKey_def Let_def)
  moreover have "expandAliasName (subCommandActionName b) ACTION_ALIASES \<noteq> []"
    using ne expandAliasName_cases[of "subCommandActionName b"] alias_targets(2) by metis
  ultimately show ?thesis using small len name by simp
qed

end
