(* ===== verification/Registration.thy ===== *)
theory Registration
  imports Decoder_Config Expiration Batch_Capture
begin

text \<open>
  Which dispensers a transaction registers or extends: the DISPENSER wire fields and oracle address
  (\<open>src/src/protocol/oracle_fee_output.js\<close>), the create and edit readers
  (\<open>src/src/XChainDecoder/dispenser_registration.js\<close>) and the collapse to one row per operating
  address (\<open>src/src/protocol/dispenser_registration_collapse.js\<close>, \<open>batch_sub_command_capture.js\<close>).
  The lemmas state what every registration satisfies, that an edit only ever moves an expiration
  into the future, and that the collapse is the group-by its comment describes: first address and
  source, latest expiration, first oracle named.
\<close>

section \<open>Wire fields\<close>

definition V0_GIVE_COIN_INDEX :: nat where "V0_GIVE_COIN_INDEX = 2"
definition V0_GET_COIN_INDEX :: nat where "V0_GET_COIN_INDEX = 7"
definition V0_GET_ADDRESS_INDEX :: nat where "V0_GET_ADDRESS_INDEX = 10"
definition ORACLE_ADDRESS_INDEX :: nat where "ORACLE_ADDRESS_INDEX = 13"
definition V0_EXPIRATION_INDEX :: nat where "V0_EXPIRATION_INDEX = 14"
definition V0_REQUIRED_FIELD_COUNT :: nat where "V0_REQUIRED_FIELD_COUNT = 10"
definition V2_EXPIRATION_INDEX :: nat where "V2_EXPIRATION_INDEX = 4"
definition INDEX_ADDRESS_MAX_CHARS :: nat where "INDEX_ADDRESS_MAX_CHARS = 120"
definition caret :: nat where "caret = 94"

definition oracleAddressFromCreate :: "jsstr list \<Rightarrow> jsstr option" where
  "oracleAddressFromCreate fs =
     (case field fs ORACLE_ADDRESS_INDEX of
        None \<Rightarrow> None
      | Some token \<Rightarrow>
          if token = [] then None
          else if field token 0 = Some caret then None
          else Some token)"

definition isCompactedOracleAddress :: "jsstr list \<Rightarrow> bool" where
  "isCompactedOracleAddress fs =
     (case field fs ORACLE_ADDRESS_INDEX of
        None \<Rightarrow> False
      | Some token \<Rightarrow> token \<noteq> [] \<and> field token 0 = Some caret)"

definition getDefaultExpiration :: "decoder_config \<Rightarrow> js_time \<Rightarrow> int option" where
  "getDefaultExpiration cfg blockTime =
     map_option (\<lambda>t. t + expirationFeeDefaultDays cfg * 86400) (to_number blockTime)"

definition dispenserOpensForThisChain :: "decoder_config \<Rightarrow> jsstr option \<Rightarrow> jsstr option \<Rightarrow> bool" where
  "dispenserOpensForThisChain cfg giveCoin getCoin \<longleftrightarrow>
     giveCoin = Some (js (coinTick cfg)) \<and> getCoin = Some (js (coinTick cfg))"

definition hasRequiredDispenserCreateFields :: "jsstr list \<Rightarrow> bool" where
  "hasRequiredDispenserCreateFields decodedDataSplit \<longleftrightarrow>
     V0_REQUIRED_FIELD_COUNT \<le> length decodedDataSplit"

definition fitsIndexAddressColumn :: "jsstr \<Rightarrow> bool" where
  "fitsIndexAddressColumn value \<longleftrightarrow>
     length value \<le> INDEX_ADDRESS_MAX_CHARS \<and> list_all (\<lambda>u. \<not> (0xD800 \<le> u \<and> u \<le> 0xDFFF)) value"

definition dispenserCommandPrefixFor :: "decoder_config \<Rightarrow> js_time \<Rightarrow> jsstr" where
  "dispenserCommandPrefixFor cfg timestamp =
     (if isBatchSubCommandCaptureActive (consensusNetwork cfg) timestamp
      then js ''DISPENSER|'' else js ''DISPENSER'')"

section \<open>Creates\<close>

text \<open>An address of \<^const>\<open>None\<close> is the \<open>null\<close> source of an unattributed transaction.\<close>

record candidate =
  cand_address :: "jsstr option"
  cand_sourceAddress :: "jsstr option"
  cand_oracleAddress :: "jsstr option"
  cand_expiration :: int

record create_state =
  cs_candidates :: "candidate list"
  cs_parseErrors :: nat

definition pushOperatingAddressCreate ::
    "jsstr option \<Rightarrow> jsstr list \<Rightarrow> int \<Rightarrow> jsstr option \<Rightarrow> create_state \<Rightarrow> create_state" where
  "pushOperatingAddressCreate getAddress decodedDataSplit expiration source st =
     (let given = (case getAddress of None \<Rightarrow> [] | Some a \<Rightarrow> a)
      in if given \<noteq> [] \<and> field given 0 = Some caret
         then st\<lparr>cs_parseErrors := cs_parseErrors st + 1\<rparr>
         else if given \<noteq> [] \<and> \<not> fitsIndexAddressColumn given
         then st\<lparr>cs_parseErrors := cs_parseErrors st + 1\<rparr>
         else st\<lparr>cs_candidates := cs_candidates st @
                [\<lparr>cand_address = (if given \<noteq> [] then Some given else source),
                  cand_sourceAddress = source,
                  cand_oracleAddress = oracleAddressFromCreate decodedDataSplit,
                  cand_expiration = expiration\<rparr>]\<rparr>)"

definition create_expiration :: "decoder_config \<Rightarrow> jsstr option \<Rightarrow> js_time \<Rightarrow> int option" where
  "create_expiration cfg expirationToken timestamp =
     (case expirationToken of
        None \<Rightarrow> getDefaultExpiration cfg timestamp
      | Some token \<Rightarrow>
          if token = [] then getDefaultExpiration cfg timestamp
          else normalizeDispenserExpiration (Some token) (consensusNetwork cfg) timestamp
                 (js_Number token))"

definition pushV0DispenserCreate ::
    "decoder_config \<Rightarrow> jsstr list \<Rightarrow> jsstr option \<Rightarrow> js_time \<Rightarrow> create_state \<Rightarrow> create_state" where
  "pushV0DispenserCreate cfg decodedDataSplit source timestamp st =
     (let giveCoin = field decodedDataSplit V0_GIVE_COIN_INDEX;
          getCoin = field decodedDataSplit V0_GET_COIN_INDEX;
          getAddress = field decodedDataSplit V0_GET_ADDRESS_INDEX;
          expirationToken = field decodedDataSplit V0_EXPIRATION_INDEX;
          expiration = create_expiration cfg expirationToken timestamp
      in if \<not> hasValidExpirationToken expirationToken expiration (consensusNetwork cfg) timestamp
         then st\<lparr>cs_parseErrors := cs_parseErrors st + 1\<rparr>
         else if dispenserOpensForThisChain cfg giveCoin getCoin
         then pushOperatingAddressCreate getAddress decodedDataSplit (the expiration) source st
         else st)"

definition dispenser_format :: "jsstr list \<Rightarrow> int option" where
  "dispenser_format fs = Option.bind (field fs 1) js_parseInt"

definition collect_step ::
    "decoder_config \<Rightarrow> jsstr \<Rightarrow> jsstr option \<Rightarrow> js_time \<Rightarrow> create_state \<Rightarrow> jsstr \<Rightarrow> create_state" where
  "collect_step cfg prefix source timestamp st command =
     (if \<not> starts_with prefix command then st
      else (let decodedDataSplit = split_on pipe command
            in if dispenser_format decodedDataSplit = Some 0
                  \<and> hasRequiredDispenserCreateFields decodedDataSplit
               then pushV0DispenserCreate cfg decodedDataSplit source timestamp st
               else st))"

definition collectDispenserCreates ::
    "decoder_config \<Rightarrow> jsstr list \<Rightarrow> jsstr \<Rightarrow> jsstr option \<Rightarrow> js_time \<Rightarrow> nat \<Rightarrow> create_state" where
  "collectDispenserCreates cfg commands prefix source timestamp errors =
     foldl (collect_step cfg prefix source timestamp)
       \<lparr>cs_candidates = [], cs_parseErrors = errors\<rparr> commands"

section \<open>Edits\<close>

definition exceeds_time :: "int \<Rightarrow> js_time \<Rightarrow> bool" where
  "exceeds_time x t = (case to_number t of None \<Rightarrow> False | Some n \<Rightarrow> n < x)"

definition dispenserEditExtension ::
    "decoder_config \<Rightarrow> jsstr \<Rightarrow> jsstr \<Rightarrow> jsstr option \<Rightarrow> js_time \<Rightarrow> (jsstr \<times> int) option" where
  "dispenserEditExtension cfg command prefix source timestamp =
     (if \<not> starts_with prefix command then None
      else
        (let decodedDataSplit = split_on pipe command
         in if dispenser_format decodedDataSplit = Some 2 then
              (case (source, field decodedDataSplit V2_EXPIRATION_INDEX) of
                 (Some editSource, Some token) \<Rightarrow>
                   if editSource \<noteq> [] \<and> token \<noteq> [] then
                     (let newExpiration = normalizeDispenserExpiration (Some token)
                            (consensusNetwork cfg) timestamp (js_Number token)
                      in if hasValidExpirationToken (Some token) newExpiration
                              (consensusNetwork cfg) timestamp
                            \<and> exceeds_time (the newExpiration) timestamp
                         then Some (editSource, the newExpiration) else None)
                   else None
               | _ \<Rightarrow> None)
            else None))"

section \<open>Collapse\<close>

record registration =
  reg_address :: jsstr
  reg_sourceAddress :: "jsstr option"
  reg_oracleAddress :: "jsstr option"
  reg_expiration :: int

definition merge_registration :: "registration \<Rightarrow> candidate \<Rightarrow> registration" where
  "merge_registration existing c =
     existing\<lparr>reg_expiration :=
                (if reg_expiration existing < cand_expiration c then cand_expiration c
                 else reg_expiration existing),
              reg_oracleAddress :=
                (case truthy_text (reg_oracleAddress existing) of
                   None \<Rightarrow> (case truthy_text (cand_oracleAddress c) of
                              None \<Rightarrow> reg_oracleAddress existing | Some a \<Rightarrow> Some a)
                 | Some _ \<Rightarrow> reg_oracleAddress existing)\<rparr>"

definition new_registration :: "jsstr \<Rightarrow> candidate \<Rightarrow> registration" where
  "new_registration address c =
     \<lparr>reg_address = address, reg_sourceAddress = cand_sourceAddress c,
      reg_oracleAddress = truthy_text (cand_oracleAddress c), reg_expiration = cand_expiration c\<rparr>"

text \<open>The \<open>Map\<close> of the loop, in insertion order.\<close>

fun collapse_into :: "jsstr \<Rightarrow> jsstr \<Rightarrow> candidate \<Rightarrow> (jsstr \<times> registration) list
    \<Rightarrow> (jsstr \<times> registration) list" where
  "collapse_into key address c [] = [(key, new_registration address c)]"
| "collapse_into key address c ((k, r) # rows) =
     (if k = key then (k, merge_registration r c) # rows
      else (k, r) # collapse_into key address c rows)"

definition collapse_key :: "(jsstr \<Rightarrow> jsstr option) option \<Rightarrow> jsstr \<Rightarrow> jsstr" where
  "collapse_key keyOf address =
     (case keyOf of None \<Rightarrow> address
      | Some f \<Rightarrow> (case truthy_text (f address) of None \<Rightarrow> address | Some k \<Rightarrow> k))"

definition collapse_candidate :: "(jsstr \<Rightarrow> jsstr option) option \<Rightarrow> (jsstr \<times> registration) list
    \<Rightarrow> candidate \<Rightarrow> (jsstr \<times> registration) list" where
  "collapse_candidate keyOf rows c =
     (case truthy_text (cand_address c) of None \<Rightarrow> rows
      | Some address \<Rightarrow> collapse_into (collapse_key keyOf address) address c rows)"

definition collapseRegistrationsByKey ::
    "candidate list \<Rightarrow> (jsstr \<Rightarrow> jsstr option) option \<Rightarrow> registration list" where
  "collapseRegistrationsByKey candidates keyOf =
     map snd (foldl (collapse_candidate keyOf) [] candidates)"

text \<open>\<open>String(n)\<close> of a natural number.\<close>

fun decimal_string :: "nat \<Rightarrow> jsstr" where
  "decimal_string n = (if n < 10 then [48 + n] else decimal_string (n div 10) @ [48 + n mod 10])"

declare decimal_string.simps [simp del]

definition dispenserAddressKey :: "jsstr \<Rightarrow> (jsstr \<Rightarrow> nat option) \<Rightarrow> jsstr" where
  "dispenserAddressKey address addressIdOf =
     (case addressIdOf address of
        None \<Rightarrow> js ''address:'' @ address
      | Some n \<Rightarrow> js ''address-id:'' @ decimal_string n)"

definition candidate_addresses :: "candidate list \<Rightarrow> jsstr list" where
  "candidate_addresses candidates = List.map_filter (\<lambda>c. truthy_text (cand_address c)) candidates"

definition collapseRegistrationsByAddressId ::
    "candidate list \<Rightarrow> (jsstr \<Rightarrow> nat option) \<Rightarrow> registration list" where
  "collapseRegistrationsByAddressId candidates addressIdOf =
     (if length (remdups (candidate_addresses candidates)) < 2
      then collapseRegistrationsByKey candidates None
      else
        (let keys = map_of (map (\<lambda>a. (a, dispenserAddressKey a addressIdOf))
                              (candidate_addresses candidates))
         in collapseRegistrationsByKey candidates (Some keys)))"

definition legacyDispenserAddressKey :: "jsstr \<Rightarrow> jsstr" where
  "legacyDispenserAddressKey address =
     (let lowered = map (\<lambda>u. if 65 \<le> u \<and> u \<le> 90 then u + 32 else u) address
      in rev (dropWhile (\<lambda>u. u = 32) (rev lowered)))"

definition isDispenserAddressIdCollapseActive :: "string \<Rightarrow> js_time \<Rightarrow> bool" where
  "isDispenserAddressIdCollapseActive = time_gate DISPENSER_ADDRESS_ID_COLLAPSE_ACTIVATION"

definition collapseDispenserRegistrations ::
    "candidate list \<Rightarrow> string \<Rightarrow> js_time \<Rightarrow> (jsstr \<Rightarrow> nat option) option \<Rightarrow> registration list" where
  "collapseDispenserRegistrations candidates network blockTime addressIdOf =
     (if isDispenserAddressIdCollapseActive network blockTime
      then (case addressIdOf of
              Some f \<Rightarrow> collapseRegistrationsByAddressId candidates f
            | None \<Rightarrow> collapseRegistrationsByKey candidates (Some (Some \<circ> legacyDispenserAddressKey)))
      else collapseRegistrationsByKey candidates None)"

interpretation address_id_collapse: activation_gate isDispenserAddressIdCollapseActive
    "\<lambda>net. net \<in> set (map fst DISPENSER_ADDRESS_ID_COLLAPSE_ACTIVATION)"
  unfolding isDispenserAddressIdCollapseActive_def by (rule activation_gate_time_gate)

section \<open>What a registration satisfies\<close>

definition wf_candidate :: "jsstr option \<Rightarrow> candidate \<Rightarrow> bool" where
  "wf_candidate source c \<longleftrightarrow>
     0 \<le> cand_expiration c \<and> cand_expiration c \<le> MAX_SAFE_DISPENSER_EXPIRATION
     \<and> cand_sourceAddress c = source
     \<and> (cand_address c = source
        \<or> (\<exists>a. cand_address c = Some a \<and> a \<noteq> [] \<and> fitsIndexAddressColumn a \<and> field a 0 \<noteq> Some caret))
     \<and> (\<forall>a. cand_oracleAddress c = Some a \<longrightarrow> a \<noteq> [] \<and> field a 0 \<noteq> Some caret)"

text \<open>A command a candidate can stem from.\<close>

definition creates_for :: "decoder_config \<Rightarrow> jsstr \<Rightarrow> jsstr \<Rightarrow> bool" where
  "creates_for cfg prefix command \<longleftrightarrow>
     starts_with prefix command \<and> dispenser_format (split_on pipe command) = Some 0
     \<and> 10 \<le> length (split_on pipe command)
     \<and> field (split_on pipe command) 2 = Some (js (coinTick cfg))
     \<and> field (split_on pipe command) 7 = Some (js (coinTick cfg))"

lemma hasValid_range:
  "hasValidExpirationToken tok x net t \<Longrightarrow>
     \<exists>v. x = Some v \<and> 0 \<le> v \<and> v \<le> MAX_SAFE_DISPENSER_EXPIRATION"
  by (auto simp: hasValidExpirationToken_def split: option.splits if_splits)

lemma oracleAddressFromCreate_Some:
  "oracleAddressFromCreate fs = Some a \<Longrightarrow> a \<noteq> [] \<and> field a 0 \<noteq> Some caret"
  by (auto simp: oracleAddressFromCreate_def split: option.splits if_splits)

lemma push_operating:
  assumes "0 \<le> x" "x \<le> MAX_SAFE_DISPENSER_EXPIRATION"
  shows "\<exists>new. cs_candidates (pushOperatingAddressCreate ga fs x source st) = cs_candidates st @ new
    \<and> (\<forall>c \<in> set new. wf_candidate source c)
    \<and> cs_parseErrors (pushOperatingAddressCreate ga fs x source st)
        = cs_parseErrors st + (if new = [] then 1 else 0) \<and> length new \<le> 1"
  using assms oracleAddressFromCreate_Some [of fs]
  by (auto simp: pushOperatingAddressCreate_def Let_def wf_candidate_def)

lemma collect_step_sound:
  "\<exists>new. cs_candidates (collect_step cfg prefix source t st command) = cs_candidates st @ new
    \<and> (\<forall>c \<in> set new. wf_candidate source c) \<and> (new \<noteq> [] \<longrightarrow> creates_for cfg prefix command)
    \<and> cs_parseErrors st \<le> cs_parseErrors (collect_step cfg prefix source t st command)"
proof -
  let ?fs = "split_on pipe command"
  let ?tok = "field ?fs V0_EXPIRATION_INDEX"
  let ?x = "create_expiration cfg ?tok t"
  show ?thesis
  proof (cases "starts_with prefix command \<and> dispenser_format ?fs = Some 0
      \<and> hasRequiredDispenserCreateFields ?fs
      \<and> hasValidExpirationToken ?tok ?x (consensusNetwork cfg) t
      \<and> dispenserOpensForThisChain cfg (field ?fs V0_GIVE_COIN_INDEX) (field ?fs V0_GET_COIN_INDEX)")
    case True
    then obtain v where v: "?x = Some v" "0 \<le> v" "v \<le> MAX_SAFE_DISPENSER_EXPIRATION"
      using hasValid_range by blast
    have "collect_step cfg prefix source t st command
        = pushOperatingAddressCreate (field ?fs V0_GET_ADDRESS_INDEX) ?fs v source st"
      using True v(1) by (simp add: collect_step_def pushV0DispenserCreate_def Let_def)
    moreover have "creates_for cfg prefix command"
      using True by (simp add: creates_for_def hasRequiredDispenserCreateFields_def
          V0_REQUIRED_FIELD_COUNT_def dispenserOpensForThisChain_def V0_GIVE_COIN_INDEX_def
          V0_GET_COIN_INDEX_def)
    ultimately show ?thesis
      using push_operating [OF v(2,3), of "field ?fs V0_GET_ADDRESS_INDEX" ?fs source st] by auto
  next
    case False
    then have "cs_candidates (collect_step cfg prefix source t st command) = cs_candidates st \<and>
        cs_parseErrors st \<le> cs_parseErrors (collect_step cfg prefix source t st command)"
      by (auto simp: collect_step_def pushV0DispenserCreate_def Let_def)
    then show ?thesis by auto
  qed
qed

lemma collect_sound:
  "(\<forall>c \<in> set (cs_candidates st). P c) \<Longrightarrow>
   (\<And>c. wf_candidate source c \<Longrightarrow> (\<exists>command \<in> set cs. creates_for cfg prefix command) \<Longrightarrow> P c) \<Longrightarrow>
   (\<forall>c \<in> set (cs_candidates (foldl (collect_step cfg prefix source t) st cs)). P c)
   \<and> cs_parseErrors st \<le> cs_parseErrors (foldl (collect_step cfg prefix source t) st cs)"
proof (induction cs arbitrary: st)
  case (Cons command cs)
  obtain new where new: "cs_candidates (collect_step cfg prefix source t st command) = cs_candidates st @ new"
    "\<forall>c \<in> set new. wf_candidate source c" "new \<noteq> [] \<longrightarrow> creates_for cfg prefix command"
    "cs_parseErrors st \<le> cs_parseErrors (collect_step cfg prefix source t st command)"
    using collect_step_sound by meson
  have "\<forall>c \<in> set (cs_candidates (collect_step cfg prefix source t st command)). P c"
    unfolding new(1) using Cons.prems new(2,3) by (cases "new = []") auto
  from Cons.IH [OF this] Cons.prems(2) new(4) show ?case
    by fastforce
qed simp

lemma edit_extension_sound:
  assumes "dispenserEditExtension cfg command prefix source t = Some (src, x)"
  shows "source = Some src" "src \<noteq> []" "0 \<le> x" "x \<le> MAX_SAFE_DISPENSER_EXPIRATION"
    "\<exists>now. to_number t = Some now \<and> now < x" "dispenser_format (split_on pipe command) = Some 2"
proof -
  let ?fs = "split_on pipe command"
  have f: "starts_with prefix command" "dispenser_format ?fs = Some 2"
    using assms unfolding dispenserEditExtension_def Let_def by (metis option.distinct(1))+
  obtain s token where st: "source = Some s" "field ?fs V2_EXPIRATION_INDEX = Some token"
    using assms f by (cases source; cases "field ?fs V2_EXPIRATION_INDEX")
      (simp_all add: dispenserEditExtension_def Let_def)
  define n where "n = normalizeDispenserExpiration (Some token) (consensusNetwork cfg) t (js_Number token)"
  have "(if s \<noteq> [] \<and> token \<noteq> []
      then if hasValidExpirationToken (Some token) n (consensusNetwork cfg) t \<and> exceeds_time (the n) t
        then Some (s, the n) else None else None) = Some (src, x)"
    using assms unfolding dispenserEditExtension_def Let_def n_def by (simp only: f st simp_thms if_True if_False prod.case option.case)
  then have tok: "source = Some src" "src \<noteq> []"
    and v: "hasValidExpirationToken (Some token) n (consensusNetwork cfg) t"
    and x: "exceeds_time x t" "x = the n"
    using st(1) by (auto split: if_splits)
  show "source = Some src" "src \<noteq> []" "dispenser_format (split_on pipe command) = Some 2"
    using tok f by auto
  show "0 \<le> x" "x \<le> MAX_SAFE_DISPENSER_EXPIRATION"
    using hasValid_range [OF v] x(2) by auto
  show "\<exists>now. to_number t = Some now \<and> now < x"
    using x(1) by (auto simp: exceeds_time_def split: option.splits)
qed

section \<open>The collapse is a group-by\<close>

text \<open>The key a candidate is collapsed under, when it has an address at all.\<close>

definition candidate_key :: "(jsstr \<Rightarrow> jsstr option) option \<Rightarrow> candidate \<Rightarrow> jsstr option" where
  "candidate_key keyOf c = map_option (collapse_key keyOf) (truthy_text (cand_address c))"

definition key_group :: "(jsstr \<Rightarrow> jsstr option) option \<Rightarrow> candidate list \<Rightarrow> jsstr \<Rightarrow> candidate list" where
  "key_group keyOf cs k = filter (\<lambda>c. candidate_key keyOf c = Some k) cs"

definition group_registration :: "candidate list \<Rightarrow> registration option" where
  "group_registration g =
     (case g of [] \<Rightarrow> None
      | c # cs \<Rightarrow> Some (foldl merge_registration (new_registration (the (truthy_text (cand_address c))) c) cs))"

lemma map_of_collapse_into:
  "map_of (collapse_into k a c rows) = (map_of rows)
     (k \<mapsto> (case map_of rows k of None \<Rightarrow> new_registration a c | Some r \<Rightarrow> merge_registration r c))"
  by (induction k a c rows rule: collapse_into.induct) (auto simp: fun_eq_iff)

lemma keys_collapse_into:
  "map fst (collapse_into k a c rows)
     = (if k \<in> set (map fst rows) then map fst rows else map fst rows @ [k])"
  by (induction k a c rows rule: collapse_into.induct) auto

lemma collapse_rows:
  fixes cs keyOf
  defines "rows \<equiv> foldl (collapse_candidate keyOf) [] cs"
  shows "map_of rows k = group_registration (key_group keyOf cs k)"
    and "map fst rows = rev (remdups (rev (List.map_filter (candidate_key keyOf) cs)))"
proof -
  have "map_of (foldl (collapse_candidate keyOf) [] cs) = (\<lambda>k. group_registration (key_group keyOf cs k))
    \<and> map fst (foldl (collapse_candidate keyOf) [] cs)
        = rev (remdups (rev (List.map_filter (candidate_key keyOf) cs)))"
  proof (induction cs rule: rev_induct)
    case (snoc c cs)
    let ?rows = "foldl (collapse_candidate keyOf) [] cs"
    show ?case
    proof (cases "truthy_text (cand_address c)")
      case None
      then have "candidate_key keyOf c = None"
        by (simp add: candidate_key_def)
      with None snoc show ?thesis
        by (simp add: collapse_candidate_def key_group_def List.map_filter_def)
    next
      case (Some a)
      let ?k = "collapse_key keyOf a"
      have ck: "candidate_key keyOf c = Some ?k"
        using Some by (simp add: candidate_key_def)
      have fold: "foldl (collapse_candidate keyOf) [] (cs @ [c]) = collapse_into ?k a c ?rows"
        using Some by (simp add: collapse_candidate_def)
      have "group_registration (key_group keyOf (cs @ [c]) ?k)
          = Some (case group_registration (key_group keyOf cs ?k) of
              None \<Rightarrow> new_registration a c | Some r \<Rightarrow> merge_registration r c)"
        using ck Some by (cases "key_group keyOf cs ?k")
          (simp_all add: key_group_def group_registration_def)
      moreover have "group_registration (key_group keyOf (cs @ [c]) k)
          = group_registration (key_group keyOf cs k)" if "k \<noteq> ?k" for k
        using ck that by (simp add: key_group_def)
      ultimately have "map_of (collapse_into ?k a c ?rows)
          = (\<lambda>k. group_registration (key_group keyOf (cs @ [c]) k))"
        using snoc by (auto simp: map_of_collapse_into fun_eq_iff)
      moreover have "map fst (collapse_into ?k a c ?rows)
          = rev (remdups (rev (List.map_filter (candidate_key keyOf) (cs @ [c]))))"
        using snoc ck by (simp add: keys_collapse_into List.map_filter_def)
      ultimately show ?thesis
        using fold by simp
    qed
  qed (simp add: key_group_def group_registration_def fun_eq_iff List.map_filter_def)
  then show "map_of rows k = group_registration (key_group keyOf cs k)"
    and "map fst rows = rev (remdups (rev (List.map_filter (candidate_key keyOf) cs)))"
    by (auto simp: rows_def fun_eq_iff)
qed

text \<open>What the fold over a group computes.\<close>

definition first_oracle :: "candidate list \<Rightarrow> jsstr option" where
  "first_oracle g = (case List.map_filter (truthy_text \<circ> cand_oracleAddress) g of [] \<Rightarrow> None | a # _ \<Rightarrow> Some a)"

lemma truthy_idem [simp]: "truthy_text (truthy_text x) = truthy_text x"
  by (cases x) auto

lemma merge_fields [simp]:
  "reg_address (merge_registration r c) = reg_address r"
  "reg_sourceAddress (merge_registration r c) = reg_sourceAddress r"
  "reg_expiration (merge_registration r c) = max (reg_expiration r) (cand_expiration c)"
  by (auto simp: merge_registration_def)

lemma foldl_merge:
  "reg_address (foldl merge_registration r cs) = reg_address r"
  "reg_sourceAddress (foldl merge_registration r cs) = reg_sourceAddress r"
  "reg_expiration (foldl merge_registration r cs) = fold max (map cand_expiration cs) (reg_expiration r)"
  by (induction cs arbitrary: r) (simp_all add: max.commute)

lemma foldl_merge_oracle:
  "truthy_text (reg_oracleAddress r) = reg_oracleAddress r \<Longrightarrow>
   reg_oracleAddress (foldl merge_registration r cs)
     = (case reg_oracleAddress r of None \<Rightarrow> first_oracle cs | Some a \<Rightarrow> Some a)"
proof (induction cs arbitrary: r)
  case Nil
  then show ?case
    by (simp add: first_oracle_def List.map_filter_def split: option.splits)
next
  case (Cons c cs)
  have m: "reg_oracleAddress (merge_registration r c)
      = (case reg_oracleAddress r of None \<Rightarrow> truthy_text (cand_oracleAddress c) | Some a \<Rightarrow> Some a)"
    using Cons.prems by (auto simp: merge_registration_def split: option.splits)
  have "truthy_text (reg_oracleAddress (merge_registration r c)) = reg_oracleAddress (merge_registration r c)"
    using Cons.prems m by (auto split: option.splits)
  from Cons.IH [OF this] m show ?case
    by (auto simp: first_oracle_def List.map_filter_def split: option.splits)
qed

lemma group_registration_fields:
  assumes "group_registration g = Some r"
  shows "g \<noteq> []" "Some (reg_address r) = truthy_text (cand_address (hd g)) \<or> truthy_text (cand_address (hd g)) = None"
    "reg_sourceAddress r = cand_sourceAddress (hd g)"
    "reg_expiration r = Max (set (map cand_expiration g))"
    "reg_oracleAddress r = first_oracle g"
proof -
  obtain c cs where g: "g = c # cs"
    and r: "r = foldl merge_registration (new_registration (the (truthy_text (cand_address c))) c) cs"
    using assms by (auto simp: group_registration_def split: list.splits)
  show "g \<noteq> []" using g by simp
  show "Some (reg_address r) = truthy_text (cand_address (hd g)) \<or> truthy_text (cand_address (hd g)) = None"
    unfolding r g by (cases "truthy_text (cand_address c)") (simp_all add: foldl_merge new_registration_def)
  show "reg_sourceAddress r = cand_sourceAddress (hd g)"
    unfolding r g by (simp add: foldl_merge new_registration_def)
  have "fold max (map cand_expiration cs) (cand_expiration c) = Max (set (cand_expiration c # map cand_expiration cs))"
    using Max.set_eq_fold [of "cand_expiration c" "map cand_expiration cs"] by simp
  then show "reg_expiration r = Max (set (map cand_expiration g))"
    unfolding r g by (simp add: foldl_merge new_registration_def)
  show "reg_oracleAddress r = first_oracle g"
    unfolding r g by (subst foldl_merge_oracle)
      (auto simp: new_registration_def first_oracle_def List.map_filter_def split: option.splits)
qed

end
