(* ===== verification/Db_Tables.thy ===== *)
theory Db_Tables
  imports Db_Connection Registration
begin

text \<open>
  The tables of the decoder (\<open>src/src/sql\<close>) and the operations on all but the dispenser table
  (\<open>src/src/db/addresses_and_events.js\<close>, \<open>transactions.js\<close>, \<open>blocks.js\<close>).  Strings are compared the
  way their columns collate them: \<open>collate\<close>, a parameter, maps a string to its collation key.  A new
  row of an index table takes the id above the highest one.  The ledger is the part of the tables
  that a reorg takes back; the index tables, the public keys and the events only grow.
\<close>

section \<open>Rows\<close>

record block_row =
  b_index :: nat
  b_hash :: "nat option"
  b_time :: "nat option"
  b_previous :: "nat option"

record tx_row =
  t_index :: nat
  t_hash :: "nat option"
  t_block :: nat
  t_source :: "nat option"
  t_destination :: "nat option"
  t_data :: jsstr
  t_raw :: "buffer option"

record output_row =
  o_tx :: nat
  o_vout :: nat
  o_destination :: "nat option"
  o_amount :: jsstr

record dispenser_row =
  d_tx :: nat
  d_addr :: nat
  d_expiration :: nat
  d_oracle :: "nat option"
  d_source :: "nat option"
  d_expired :: "nat option"

record undo_row =
  u_block :: nat
  u_tx :: nat
  u_addr :: nat
  u_expiration :: nat
  u_expired :: "nat option"

record event_row =
  ev_time :: "int option"
  ev_code :: jsstr
  ev_data :: jsstr

record ledger =
  l_blocks :: "block_row list"
  l_txs :: "tx_row list"
  l_outputs :: "output_row list"
  l_dispensers :: "dispenser_row list"
  l_undo :: "undo_row list"

type_synonym index_table = "(nat \<times> jsstr) list"

record tables =
  tb_ledger :: ledger
  tb_addresses :: index_table
  tb_hashes :: index_table
  tb_pubkeys :: "(nat \<times> jsstr) list"
  tb_events :: "event_row list"

definition empty_ledger :: ledger where
  "empty_ledger = \<lparr>l_blocks = [], l_txs = [], l_outputs = [], l_dispensers = [], l_undo = []\<rparr>"

text \<open>A fresh database: row 1 of both index tables is the reserved empty string.\<close>

definition fresh_tables :: tables where
  "fresh_tables = \<lparr>tb_ledger = empty_ledger, tb_addresses = [(1, [])], tb_hashes = [(1, [])],
     tb_pubkeys = [], tb_events = []\<rparr>"

definition DETERMINISTIC_WRITE_ERRNOS :: "errno list" where
  "DETERMINISTIC_WRITE_ERRNOS = [1366, 1406, 1264, 1265, 1292]"

text \<open>What the writing operations answer: \<open>true\<close>, \<open>DUPLICATED_TRANSACTION\<close>, \<open>POISON_ROW\<close>, \<open>false\<close>.\<close>

datatype db_answer = Stored | Duplicated | PoisonRow | Failed

type_synonym 'a table_op = "(tables, 'a) dbop"

section \<open>Index tables\<close>

definition lookup_id :: "(jsstr \<Rightarrow> jsstr) \<Rightarrow> index_table \<Rightarrow> jsstr \<Rightarrow> nat option" where
  "lookup_id collate rows x = map_option fst (find (\<lambda>r. collate (snd r) = collate x) rows)"

definition id_text :: "index_table \<Rightarrow> nat option \<Rightarrow> jsstr option" where
  "id_text rows i = (case i of None \<Rightarrow> None | Some n \<Rightarrow> map_option snd (find (\<lambda>r. fst r = n) rows))"

text \<open>\<open>INSERT IGNORE\<close>: a known value is skipped, a long one is cut to the column.\<close>

definition insert_ignore :: "(jsstr \<Rightarrow> jsstr) \<Rightarrow> nat \<Rightarrow> jsstr \<Rightarrow> index_table \<Rightarrow> index_table" where
  "insert_ignore collate width x rows =
     (let v = take width x
      in if lookup_id collate rows v \<noteq> None then rows
         else rows @ [(Suc (fold max (map fst rows) 0), v)])"

definition HASH_MAX_CHARS :: nat where
  "HASH_MAX_CHARS = 250"

definition getAddressId :: "(jsstr \<Rightarrow> jsstr) \<Rightarrow> jsstr \<Rightarrow> nat option table_op" where
  "getAddressId collate address =
     db_catch (sql_query (\<lambda>t. lookup_id collate (tb_addresses t) address)) (rethrow_or None)"

definition createAddress :: "(jsstr \<Rightarrow> jsstr) \<Rightarrow> jsstr option \<Rightarrow> nat option table_op" where
  "createAddress collate address =
     (case truthy_text address of
        None \<Rightarrow> db_return (Some 1)
      | Some a \<Rightarrow> db_bind (getAddressId collate a) (\<lambda>known.
          case known of
            Some n \<Rightarrow> db_return (Some n)
          | None \<Rightarrow>
              db_bind (db_catch (sql_write (\<lambda>t. Inr (t\<lparr>tb_addresses :=
                         insert_ignore collate INDEX_ADDRESS_MAX_CHARS a (tb_addresses t)\<rparr>)))
                       (rethrow_or ()))
                (\<lambda>_. getAddressId collate a)))"

definition getTransactionId :: "(jsstr \<Rightarrow> jsstr) \<Rightarrow> jsstr \<Rightarrow> nat option table_op" where
  "getTransactionId collate hash =
     db_catch (sql_query (\<lambda>t. lookup_id collate (tb_hashes t) hash)) (rethrow_or None)"

definition createTransaction :: "(jsstr \<Rightarrow> jsstr) \<Rightarrow> jsstr option \<Rightarrow> nat option table_op" where
  "createTransaction collate hash =
     (case truthy_text hash of
        None \<Rightarrow> db_return (Some 1)
      | Some a \<Rightarrow> db_bind (getTransactionId collate a) (\<lambda>known.
          case known of
            Some n \<Rightarrow> db_return (Some n)
          | None \<Rightarrow>
              db_bind (db_catch (sql_write (\<lambda>t. Inr (t\<lparr>tb_hashes :=
                         insert_ignore collate HASH_MAX_CHARS a (tb_hashes t)\<rparr>)))
                       (rethrow_or ()))
                (\<lambda>_. getTransactionId collate a)))"

section \<open>Public keys and events\<close>

definition hasPubkey :: "nat \<Rightarrow> bool table_op" where
  "hasPubkey addressId =
     db_catch (sql_query (\<lambda>t. addressId \<in> fst ` set (tb_pubkeys t))) (rethrow_or False)"

definition insertPubkey :: "nat \<Rightarrow> jsstr \<Rightarrow> bool table_op" where
  "insertPubkey addressId pubkey =
     db_catch
       (db_bind (sql_write (\<lambda>t. Inr (if addressId \<in> fst ` set (tb_pubkeys t) then t
                                  else t\<lparr>tb_pubkeys := tb_pubkeys t @ [(addressId, pubkey)]\<rparr>)))
         (\<lambda>_. db_return True))
       (\<lambda>e. if e \<in> set DETERMINISTIC_WRITE_ERRNOS then db_return False else rethrow_or False e)"

definition append_event :: "event_row \<Rightarrow> tables \<Rightarrow> tables" where
  "append_event ev t = t\<lparr>tb_events := tb_events t @ [ev]\<rparr>"

text \<open>The duplicate-key answer the insert operations share; any other failure ends the transaction.\<close>

definition duplicate_or_failed :: "errno \<Rightarrow> db_answer table_op" where
  "duplicate_or_failed e = (if e = 1062 then db_return Duplicated else fail_with Failed)"

text \<open>An event at a block time, or at the wall clock (\<^const>\<open>None\<close>); its data already serialised.\<close>

definition insertEvent :: "jsstr \<Rightarrow> jsstr \<Rightarrow> int option \<Rightarrow> db_answer table_op" where
  "insertEvent code json blockTime =
     db_catch
       (db_bind (sql_write (\<lambda>t. Inr (append_event
            \<lparr>ev_time = blockTime, ev_code = code, ev_data = json\<rparr> t)))
         (\<lambda>_. db_return Stored))
       duplicate_or_failed"

section \<open>Amounts\<close>

definition SATOSHIS_DECIMALS :: nat where
  "SATOSHIS_DECIMALS = 8"

definition bigIntSatoshiToDecimalsString :: "int \<Rightarrow> jsstr" where
  "bigIntSatoshiToDecimalsString v =
     (let digits = decimal_string (nat \<bar>v\<bar>);
          n = length digits;
          result =
            (if n \<le> SATOSHIS_DECIMALS
             then js ''0.'' @ replicate (SATOSHIS_DECIMALS - n) 48 @ digits
             else take (n - SATOSHIS_DECIMALS) digits @ js ''.'' @ drop (n - SATOSHIS_DECIMALS) digits)
      in if v < 0 then js ''-'' @ result else result)"

section \<open>Writing the ledger\<close>

definition map_ledger :: "(ledger \<Rightarrow> errno + ledger) \<Rightarrow> tables \<Rightarrow> errno + tables" where
  "map_ledger f t = (case f (tb_ledger t) of Inl e \<Rightarrow> Inl e | Inr l \<Rightarrow> Inr (t\<lparr>tb_ledger := l\<rparr>))"

text \<open>Single-row inserts, with the keys of their tables.\<close>

definition add_block :: "block_row \<Rightarrow> ledger \<Rightarrow> errno + ledger" where
  "add_block r l =
     (if b_index r \<in> b_index ` set (l_blocks l) then Inl 1062
      else Inr (l\<lparr>l_blocks := l_blocks l @ [r]\<rparr>))"

definition add_tx :: "tx_row \<Rightarrow> ledger \<Rightarrow> errno + ledger" where
  "add_tx r l =
     (if t_index r \<in> t_index ` set (l_txs l)
         \<or> (t_hash r \<noteq> None \<and> t_hash r \<in> t_hash ` set (l_txs l)) then Inl 1062
      else Inr (l\<lparr>l_txs := l_txs l @ [r]\<rparr>))"

definition add_output :: "output_row \<Rightarrow> ledger \<Rightarrow> errno + ledger" where
  "add_output r l =
     (if (o_tx r, o_vout r) \<in> (\<lambda>r. (o_tx r, o_vout r)) ` set (l_outputs l) then Inl 1062
      else Inr (l\<lparr>l_outputs := l_outputs l @ [r]\<rparr>))"

record block_insert =
  bi_index :: nat
  bi_hash :: "jsstr option"
  bi_time :: "nat option"
  bi_previous :: "jsstr option"

definition insertBlock :: "(jsstr \<Rightarrow> jsstr) \<Rightarrow> block_insert \<Rightarrow> db_answer table_op" where
  "insertBlock collate block =
     db_catch
       (db_bind (createTransaction collate (bi_hash block)) (\<lambda>blockHashId.
        db_bind (createTransaction collate (bi_previous block)) (\<lambda>previousBlockHashId.
        db_bind (sql_write (map_ledger (add_block
          \<lparr>b_index = bi_index block, b_hash = blockHashId, b_time = bi_time block,
            b_previous = previousBlockHashId\<rparr>))) (\<lambda>_. db_return Stored))))
       (\<lambda>_. fail_with Failed)"

record tx_insert =
  ti_index :: nat
  ti_hash :: "jsstr option"
  ti_block :: nat
  ti_source :: "jsstr option"
  ti_destination :: "jsstr option"
  ti_data :: jsstr
  ti_raw :: "buffer option"
  ti_pubkey :: "jsstr option"

definition insertTransactionRow :: "(jsstr \<Rightarrow> jsstr) \<Rightarrow> tx_insert \<Rightarrow> unit table_op" where
  "insertTransactionRow collate tx =
     db_bind (createTransaction collate (ti_hash tx)) (\<lambda>txHashId.
     db_bind (createAddress collate (ti_source tx)) (\<lambda>sourceId.
     db_bind (createAddress collate (ti_destination tx)) (\<lambda>destinationId.
     db_bind (case (truthy_text (ti_pubkey tx), sourceId) of
                (Some k, Some n) \<Rightarrow>
                  if n \<noteq> 1 then db_bind (insertPubkey n k) (\<lambda>_. db_return ()) else db_return ()
              | _ \<Rightarrow> db_return ()) (\<lambda>_.
     sql_write (map_ledger (add_tx
       \<lparr>t_index = ti_index tx, t_hash = txHashId, t_block = ti_block tx, t_source = sourceId,
         t_destination = destinationId, t_data = ti_data tx, t_raw = ti_raw tx\<rparr>))))))"

definition insertTransaction :: "(jsstr \<Rightarrow> jsstr) \<Rightarrow> tx_insert \<Rightarrow> db_answer table_op" where
  "insertTransaction collate tx =
     db_catch (db_bind (insertTransactionRow collate tx) (\<lambda>_. db_return Stored))
       (\<lambda>e. if e = 1062 then db_return Duplicated
            else fail_with (if e \<in> set DETERMINISTIC_WRITE_ERRNOS then PoisonRow else Failed))"

record output_insert =
  oi_tx :: nat
  oi_vout :: nat
  oi_destination :: "jsstr option"
  oi_amount :: int

definition insertTransactionOutput :: "(jsstr \<Rightarrow> jsstr) \<Rightarrow> output_insert \<Rightarrow> db_answer table_op" where
  "insertTransactionOutput collate out =
     db_catch
       (db_bind (createAddress collate (oi_destination out)) (\<lambda>destinationId.
        db_bind (sql_write (map_ledger (add_output
          \<lparr>o_tx = oi_tx out, o_vout = oi_vout out, o_destination = destinationId,
            o_amount = bigIntSatoshiToDecimalsString (oi_amount out)\<rparr>))) (\<lambda>_. db_return Stored)))
       duplicate_or_failed"

section \<open>Reading heights and blocks\<close>

definition MAX_ATTEMPTS :: nat where
  "MAX_ATTEMPTS = 5"

text \<open>A read tried up to \<open>n\<close> times, which then throws.\<close>

fun retry_read :: "nat \<Rightarrow> (tables \<Rightarrow> 'a) \<Rightarrow> 'a table_op" where
  "retry_read 0 q = db_throw 0"
| "retry_read (Suc n) q = db_catch (sql_query q) (\<lambda>_. retry_read n q)"

definition highest :: "nat list \<Rightarrow> int" where
  "highest ns = (if ns = [] then - 1 else int (fold max ns 0))"

definition getLastBlockIndex :: "int table_op" where
  "getLastBlockIndex = retry_read MAX_ATTEMPTS (\<lambda>t. highest (map b_index (l_blocks (tb_ledger t))))"

definition getLastTxIndex :: "int table_op" where
  "getLastTxIndex = retry_read MAX_ATTEMPTS (\<lambda>t. highest (map t_index (l_txs (tb_ledger t))))"

record block_view =
  bv_row :: block_row
  bv_hash :: "jsstr option"
  bv_previous :: "jsstr option"

definition getBlockByIndex :: "nat \<Rightarrow> block_view option table_op" where
  "getBlockByIndex blockIndex = retry_read MAX_ATTEMPTS (\<lambda>t.
     map_option (\<lambda>r. \<lparr>bv_row = r, bv_hash = id_text (tb_hashes t) (b_hash r),
                     bv_previous = id_text (tb_hashes t) (b_previous r)\<rparr>)
       (find (\<lambda>r. b_index r = blockIndex) (l_blocks (tb_ledger t))))"

section \<open>Decimal strings\<close>

lemma decimal_string_digits: "list_all is_digit (decimal_string n)" "decimal_string n \<noteq> []"
proof -
  show "list_all is_digit (decimal_string n)"
  proof (induction n rule: decimal_string.induct)
    case (1 n)
    have "is_digit (48 + k)" if "k < 10" for k using that by (simp add: is_digit_def)
    with 1 show ?case by (subst decimal_string.simps) simp
  qed
  show "decimal_string n \<noteq> []" by (subst decimal_string.simps) simp
qed

lemma decimal_value_string: "decimal_value (decimal_string n) = n"
proof (induction n rule: decimal_string.induct)
  case (1 n)
  have digit: "decimal_value [48 + k] = k" for k by (simp add: decimal_value_def digits_value_def)
  show ?case
    using 1 digit[of n] digit[of "n mod 10"]
    by (subst decimal_string.simps) (simp add: decimal_value_append)
qed

lemma decimal_value_leading_zeros: "decimal_value (replicate k 48 @ ds) = decimal_value ds"
  by (simp add: decimal_value_append decimal_value_zeros list_all_iff)

lemma split_decimals:
  assumes d: "list_all is_digit d" "d \<noteq> []"
  shows "\<exists>whole frac. (if length d \<le> 8 then js ''0.'' @ replicate (8 - length d) 48 @ d
        else take (length d - 8) d @ js ''.'' @ drop (length d - 8) d) = whole @ js ''.'' @ frac
     \<and> length frac = 8 \<and> whole \<noteq> [] \<and> list_all is_digit (whole @ frac)
     \<and> decimal_value (whole @ frac) = decimal_value d"
proof (cases "length d \<le> 8")
  case True
  have "decimal_value ([48] @ replicate (8 - length d) 48 @ d) = decimal_value d"
    using decimal_value_leading_zeros[of "Suc (8 - length d)" d] by simp
  moreover have "is_digit 48" by (simp add: is_digit_def)
  ultimately show ?thesis using True d
    by (rule_tac exI[of _ "[48]"], rule_tac exI[of _ "replicate (8 - length d) 48 @ d"])
      (auto simp: js_def list_all_iff)
next
  case False
  have "list_all is_digit (take (length d - 8) d @ drop (length d - 8) d)" using d by simp
  moreover have "take (length d - 8) d \<noteq> []" "length (drop (length d - 8) d) = 8" using False d by auto
  moreover have "decimal_value (take (length d - 8) d @ drop (length d - 8) d) = decimal_value d" by simp
  ultimately show ?thesis using False by (metis (no_types, lifting))
qed

section \<open>Retried reads\<close>

lemma retry_read_Inr: "retry_read n q s = (Inr x, d) \<Longrightarrow> x = q (db_tables s)"
proof (induction n arbitrary: s)
  case (Suc n)
  then consider "sql_query q s = (Inr x, d)" | e s1 where "sql_query q s = (Inl e, s1)" "retry_read n q s1 = (Inr x, d)"
    by (auto simp: db_catch_def split: prod.splits sum.splits)
  then show ?case
    by cases (metis sql_query_Inr, metis Suc.IH sql_query_keeps)
qed (simp add: db_throw_def)

end
