(* ===== verification/Dispenser_Table.thy ===== *)
theory Dispenser_Table
  imports Db_Tables "HOL-Library.List_Lexorder"
begin

text \<open>
  The dispenser table and its undo log (\<open>src/src/db/dispensers.js\<close>, \<open>dispenser_queries.js\<close>).  Each SQL
  statement is a function on the ledger; the operations run them in a session.  The decoder's view of
  open dispensers is advisory and may only err by staying open too long: the lemmas show that an
  extension never brings an expiration forward and that a purge never removes an address that the
  capture query still returns.
\<close>

section \<open>Statements\<close>

definition add_dispenser :: "dispenser_row \<Rightarrow> ledger \<Rightarrow> errno + ledger" where
  "add_dispenser r l =
     (if (d_tx r, d_addr r) \<in> (\<lambda>d. (d_tx d, d_addr d)) ` set (l_dispensers l) then Inl 1062
      else Inr (l\<lparr>l_dispensers := l_dispensers l @ [r]\<rparr>))"

text \<open>The two-key match of a source: operating address, or the stored creator.\<close>

definition source_match :: "nat option \<Rightarrow> dispenser_row \<Rightarrow> bool" where
  "source_match i d = (case i of None \<Rightarrow> False | Some n \<Rightarrow> d_addr d = n \<or> d_source d = Some n)"

definition extendable :: "nat option \<Rightarrow> nat \<Rightarrow> dispenser_row \<Rightarrow> bool" where
  "extendable i h d \<longleftrightarrow> source_match i d \<and> (d_expired d = None \<or> d_expired d = Some h)"

definition clear_mark :: "nat \<Rightarrow> dispenser_row \<Rightarrow> dispenser_row" where
  "clear_mark h d = (if d_expired d = Some h then d\<lparr>d_expired := None\<rparr> else d)"

definition extend_row :: "nat option \<Rightarrow> nat \<Rightarrow> nat \<Rightarrow> dispenser_row \<Rightarrow> dispenser_row" where
  "extend_row i e h d =
     (if extendable i h d then (clear_mark h d)\<lparr>d_expiration := max (d_expiration d) e\<rparr> else d)"

definition extend_rows :: "nat option \<Rightarrow> nat \<Rightarrow> nat \<Rightarrow> ledger \<Rightarrow> ledger" where
  "extend_rows i e h l = l\<lparr>l_dispensers := map (extend_row i e h) (l_dispensers l)\<rparr>"

definition add_undo :: "nat \<Rightarrow> dispenser_row \<Rightarrow> undo_row list \<Rightarrow> undo_row list" where
  "add_undo h d us =
     (if \<exists>u \<in> set us. u_block u = h \<and> u_tx u = d_tx d \<and> u_addr u = d_addr d then us
      else us @ [\<lparr>u_block = h, u_tx = d_tx d, u_addr = d_addr d,
                 u_expiration = d_expiration d, u_expired = d_expired d\<rparr>])"

definition record_undo :: "nat option \<Rightarrow> nat \<Rightarrow> ledger \<Rightarrow> ledger" where
  "record_undo i h l =
     l\<lparr>l_undo := fold (add_undo h) (filter (extendable i h) (l_dispensers l)) (l_undo l)\<rparr>"

definition undo_entry :: "nat \<Rightarrow> undo_row list \<Rightarrow> dispenser_row \<Rightarrow> undo_row option" where
  "undo_entry h us d =
     find (\<lambda>u. u_block u = h \<and> u_tx u = d_tx d \<and> u_addr u = d_addr d) us"

definition restore_row :: "nat \<Rightarrow> undo_row list \<Rightarrow> dispenser_row \<Rightarrow> dispenser_row" where
  "restore_row h us d =
     (case undo_entry h us d of
        None \<Rightarrow> d
      | Some u \<Rightarrow> d\<lparr>d_expiration := u_expiration u,
                    d_expired := (if u_expired u = Some h then None else u_expired u)\<rparr>)"

definition restore_rows :: "nat \<Rightarrow> ledger \<Rightarrow> ledger" where
  "restore_rows h l = l\<lparr>l_dispensers := map (restore_row h (l_undo l)) (l_dispensers l)\<rparr>"

definition drop_undo :: "nat \<Rightarrow> ledger \<Rightarrow> ledger" where
  "drop_undo h l = l\<lparr>l_undo := filter (\<lambda>u. u_block u \<noteq> h) (l_undo l)\<rparr>"

definition expire_row :: "nat \<Rightarrow> int \<Rightarrow> dispenser_row \<Rightarrow> dispenser_row" where
  "expire_row h minExpiration d =
     (if int (d_expiration d) < minExpiration \<and> d_expired d = None then d\<lparr>d_expired := Some h\<rparr> else d)"

definition soft_expire :: "nat \<Rightarrow> int \<Rightarrow> ledger \<Rightarrow> ledger" where
  "soft_expire h minExpiration l =
     l\<lparr>l_dispensers := map (expire_row h minExpiration) (l_dispensers l)\<rparr>"

text \<open>The header time of the block that marked a row, read through the blocks table.\<close>

definition mark_time :: "ledger \<Rightarrow> dispenser_row \<Rightarrow> nat option" where
  "mark_time l d =
     (case d_expired d of
        None \<Rightarrow> None
      | Some h \<Rightarrow> Option.bind (find (\<lambda>b. b_index b = h) (l_blocks l)) b_time)"

definition captures :: "ledger \<Rightarrow> int option \<Rightarrow> dispenser_row \<Rightarrow> bool" where
  "captures l graceFloor d =
     (case graceFloor of
        None \<Rightarrow> d_expired d = None
      | Some fl \<Rightarrow>
          d_expired d = None
          \<or> (case mark_time l d of None \<Rightarrow> False | Some t \<Rightarrow> fl \<le> int t)
          \<or> fl \<le> int (d_expiration d))"

definition purged :: "ledger \<Rightarrow> nat \<Rightarrow> int option \<Rightarrow> dispenser_row \<Rightarrow> bool" where
  "purged l safeHeight graceFloor d =
     (case d_expired d of
        None \<Rightarrow> False
      | Some h \<Rightarrow>
          h \<le> safeHeight
          \<and> (case graceFloor of
               None \<Rightarrow> True
             | Some fl \<Rightarrow>
                 int (d_expiration d) < fl
                 \<and> (case mark_time l d of None \<Rightarrow> True | Some t \<Rightarrow> int t < fl)))"

definition purge_dispensers :: "nat \<Rightarrow> int option \<Rightarrow> ledger \<Rightarrow> ledger" where
  "purge_dispensers safeHeight graceFloor l =
     l\<lparr>l_dispensers := filter (\<lambda>d. \<not> purged l safeHeight graceFloor d) (l_dispensers l)\<rparr>"

definition purge_undo :: "nat \<Rightarrow> ledger \<Rightarrow> ledger" where
  "purge_undo safeHeight l = l\<lparr>l_undo := filter (\<lambda>u. safeHeight < u_block u) (l_undo l)\<rparr>"

section \<open>Operations\<close>

text \<open>An update of the ledger that may read the address index.\<close>

definition ledger_update :: "(index_table \<Rightarrow> ledger \<Rightarrow> ledger) \<Rightarrow> unit table_op" where
  "ledger_update f = sql_write (\<lambda>t. Inr (t\<lparr>tb_ledger := f (tb_addresses t) (tb_ledger t)\<rparr>))"

record open_dispenser =
  od_tx :: nat
  od_address :: "jsstr option"
  od_expiration :: nat
  od_oracle :: "jsstr option"
  od_source :: "jsstr option"

text \<open>The insert itself: a \<open>NULL\<close> key column is error 1048, a value beyond 64 bits error 1264.\<close>

definition dispenser_insert :: "open_dispenser \<Rightarrow> nat option \<Rightarrow> nat option \<Rightarrow> nat option \<Rightarrow> ledger \<Rightarrow> errno + ledger" where
  "dispenser_insert od addressId oracleId sourceId l =
     (case addressId of
        None \<Rightarrow> Inl 1048
      | Some a \<Rightarrow>
          if 2 ^ 64 \<le> od_expiration od then Inl 1264
          else add_dispenser \<lparr>d_tx = od_tx od, d_addr = a, d_expiration = od_expiration od,
                 d_oracle = oracleId, d_source = sourceId, d_expired = None\<rparr> l)"

definition insertDispenserRow :: "(jsstr \<Rightarrow> jsstr) \<Rightarrow> open_dispenser \<Rightarrow> unit table_op" where
  "insertDispenserRow collate od =
     db_bind (createAddress collate (od_address od)) (\<lambda>addressId.
     db_bind (case truthy_text (od_oracle od) of
                None \<Rightarrow> db_return None | Some a \<Rightarrow> createAddress collate (Some a)) (\<lambda>oracleId.
     db_bind (if truthy_text (od_source od) \<noteq> None \<and> od_source od \<noteq> od_address od
              then createAddress collate (od_source od) else db_return None) (\<lambda>sourceId.
     sql_write (map_ledger (dispenser_insert od addressId oracleId sourceId)))))"

definition insertDispenser :: "(jsstr \<Rightarrow> jsstr) \<Rightarrow> open_dispenser \<Rightarrow> db_answer table_op" where
  "insertDispenser collate od =
     db_catch (db_bind (insertDispenserRow collate od) (\<lambda>_. db_return Stored)) duplicate_or_failed"

definition extendOpenDispenserExpirationBySource ::
    "(jsstr \<Rightarrow> jsstr) \<Rightarrow> jsstr \<Rightarrow> nat \<Rightarrow> nat \<Rightarrow> bool table_op" where
  "extendOpenDispenserExpirationBySource collate sourceAddress newExpiration blockIndex =
     db_catch
       (db_bind (ledger_update (\<lambda>ix. extend_rows (lookup_id collate ix sourceAddress) newExpiration blockIndex))
         (\<lambda>_. db_return True))
       (\<lambda>_. fail_with False)"

definition recordDispenserExtensionUndo :: "(jsstr \<Rightarrow> jsstr) \<Rightarrow> jsstr \<Rightarrow> nat \<Rightarrow> bool table_op" where
  "recordDispenserExtensionUndo collate sourceAddress blockIndex =
     db_catch
       (db_bind (ledger_update (\<lambda>ix. record_undo (lookup_id collate ix sourceAddress) blockIndex))
         (\<lambda>_. db_return True))
       (\<lambda>_. fail_with False)"

definition restoreDispenserExtensions :: "nat \<Rightarrow> unit table_op" where
  "restoreDispenserExtensions blockIndex =
     db_bind (ledger_update (\<lambda>_. restore_rows blockIndex)) (\<lambda>_.
     ledger_update (\<lambda>_. drop_undo blockIndex))"

definition deleteOpenDispensers :: "nat \<Rightarrow> int \<Rightarrow> db_answer table_op" where
  "deleteOpenDispensers blockIndex minExpiration =
     db_catch
       (db_bind (ledger_update (\<lambda>_. soft_expire blockIndex minExpiration)) (\<lambda>_. db_return Stored))
       duplicate_or_failed"

definition purgeExpiredDispensers :: "int \<Rightarrow> int option \<Rightarrow> bool table_op" where
  "purgeExpiredDispensers safeHeight graceFloor =
     (if safeHeight < 0 then db_return True
      else db_catch
        (db_bind (ledger_update (\<lambda>_. purge_dispensers (nat safeHeight) graceFloor)) (\<lambda>_.
         db_bind (ledger_update (\<lambda>_. purge_undo (nat safeHeight))) (\<lambda>_. db_return True)))
        (\<lambda>_. fail_with False))"

definition open_addresses :: "int option \<Rightarrow> tables \<Rightarrow> jsstr set" where
  "open_addresses graceFloor t =
     set (List.map_filter (\<lambda>d. id_text (tb_addresses t) (Some (d_addr d)))
       (filter (captures (tb_ledger t) graceFloor) (l_dispensers (tb_ledger t))))"

definition getAllOpenDispenserAddresses :: "int option \<Rightarrow> jsstr set option table_op" where
  "getAllOpenDispenserAddresses graceFloor =
     db_catch (db_bind (sql_query (open_addresses graceFloor)) (\<lambda>as. db_return (Some as)))
       (\<lambda>_. db_return None)"

definition isThereADispenserForAddress :: "(jsstr \<Rightarrow> jsstr) \<Rightarrow> jsstr \<Rightarrow> bool table_op" where
  "isThereADispenserForAddress collate address =
     db_catch (sql_query (\<lambda>t. \<exists>d \<in> set (l_dispensers (tb_ledger t)).
         d_expired d = None
         \<and> (case id_text (tb_addresses t) (Some (d_addr d)) of
              None \<Rightarrow> False | Some a \<Rightarrow> collate a = collate address)))
       (\<lambda>_. db_return False)"

definition countDispensers :: "nat table_op" where
  "countDispensers = sql_query (\<lambda>t. length (l_dispensers (tb_ledger t)))"

text \<open>The open rows of a source that name an oracle, with the oracle's address.\<close>

definition source_oracles :: "nat option \<Rightarrow> tables \<Rightarrow> (dispenser_row \<times> jsstr) list" where
  "source_oracles i t =
     List.map_filter (\<lambda>d. map_option (Pair d) (id_text (tb_addresses t) (d_oracle d)))
       (filter (\<lambda>d. source_match i d \<and> d_expired d = None) (l_dispensers (tb_ledger t)))"

text \<open>The legacy ranking: an operating-address match first, then the highest \<open>tx_index\<close>.\<close>

definition outranks :: "nat option \<Rightarrow> dispenser_row \<Rightarrow> dispenser_row \<Rightarrow> bool" where
  "outranks i d d' \<longleftrightarrow>
     (let own = Some (d_addr d) = i; own' = Some (d_addr d') = i
      in (own \<and> \<not> own') \<or> (own = own' \<and> d_tx d' < d_tx d))"

fun top_ranked :: "nat option \<Rightarrow> (dispenser_row \<times> jsstr) list \<Rightarrow> (dispenser_row \<times> jsstr) option" where
  "top_ranked i [] = None"
| "top_ranked i (x # xs) =
     (case top_ranked i xs of
        None \<Rightarrow> Some x
      | Some y \<Rightarrow> Some (if outranks i (fst y) (fst x) then y else x))"

definition getOpenDispenserOracleAddressBySource ::
    "(jsstr \<Rightarrow> jsstr) \<Rightarrow> jsstr \<Rightarrow> jsstr option option table_op" where
  "getOpenDispenserOracleAddressBySource collate sourceAddress =
     db_catch
       (db_bind (sql_query (\<lambda>t. let i = lookup_id collate (tb_addresses t) sourceAddress
                              in map_option snd (top_ranked i (source_oracles i t))))
         (\<lambda>a. db_return (Some (truthy_text a))))
       (\<lambda>_. fail_with None)"

definition getOpenDispenserOracleAddressesBySource ::
    "(jsstr \<Rightarrow> jsstr) \<Rightarrow> jsstr \<Rightarrow> jsstr list option table_op" where
  "getOpenDispenserOracleAddressesBySource collate sourceAddress =
     db_catch
       (db_bind (sql_query (\<lambda>t. sort_key collate (remdups (map snd
            (source_oracles (lookup_id collate (tb_addresses t) sourceAddress) t)))))
         (\<lambda>as. db_return (Some (filter (\<lambda>a. a \<noteq> []) as))))
       (\<lambda>_. fail_with None)"

section \<open>Row lemmas\<close>

lemma clear_mark_simps [simp]:
  "d_tx (clear_mark h d) = d_tx d" "d_addr (clear_mark h d) = d_addr d"
  "d_expiration (clear_mark h d) = d_expiration d" "d_oracle (clear_mark h d) = d_oracle d"
  "d_source (clear_mark h d) = d_source d"
  "d_expired (clear_mark h d) = (if d_expired d = Some h then None else d_expired d)"
  by (simp_all add: clear_mark_def)

lemma row_key [simp]:
  "d_tx (extend_row i e h d) = d_tx d" "d_addr (extend_row i e h d) = d_addr d"
  "d_tx (expire_row h m d) = d_tx d" "d_addr (expire_row h m d) = d_addr d"
  "d_tx (restore_row h us d) = d_tx d" "d_addr (restore_row h us d) = d_addr d"
  by (simp_all add: extend_row_def expire_row_def restore_row_def split: option.splits)

lemma extend_row_monotone:
  "d_expiration d \<le> d_expiration (extend_row i e h d)"
  "d_expired d = None \<Longrightarrow> d_expired (extend_row i e h d) = None"
  by (simp_all add: extend_row_def)

lemma extend_row_captures:
  "captures l fl d \<Longrightarrow> captures l fl (extend_row i e h d)"
  by (cases "d_expired d = Some h")
    (auto simp: captures_def extend_row_def extendable_def mark_time_def split: option.splits)

text \<open>What a purge removes was not captured, at its own fl or at any later one.\<close>

lemma purged_not_captured:
  assumes "purged l safeHeight (Some fl) d" "fl \<le> fl'"
  shows "\<not> captures l (Some fl') d"
  using assms by (auto simp: purged_def captures_def split: option.splits)

lemma purged_not_open: "purged l safeHeight fl d \<Longrightarrow> \<not> captures l None d"
  by (auto simp: purged_def captures_def split: option.splits)

lemma mark_time_purge [simp]:
  "mark_time (purge_dispensers s f l) d = mark_time l d" "mark_time (purge_undo s l) d = mark_time l d"
  by (simp_all add: mark_time_def purge_dispensers_def purge_undo_def cong: option.case_cong)

lemma captures_purge [simp]:
  "captures (purge_dispensers s f l) g d = captures l g d" "captures (purge_undo s l) g d = captures l g d"
  by (simp_all add: captures_def cong: option.case_cong)

lemma purge_keeps_captured:
  assumes "case g of None \<Rightarrow> True | Some fl' \<Rightarrow> \<exists>fl. f = Some fl \<and> fl \<le> fl'"
  shows "filter (captures l g) (l_dispensers (purge_undo s (purge_dispensers s f l)))
    = filter (captures l g) (l_dispensers l)"
  using assms
  by (auto simp: purge_undo_def purge_dispensers_def filter_filter conj_commute
      intro!: filter_cong dest: purged_not_captured purged_not_open split: option.splits)

section \<open>Operations that leave the ledger alone\<close>

definition keeps_ledger :: "'a table_op \<Rightarrow> bool" where
  "keeps_ledger m \<longleftrightarrow>
     (\<forall>s r s'. m s = (r, s') \<longrightarrow>
        tb_ledger (db_tables s') = tb_ledger (db_tables s) \<and> db_saved s' = db_saved s)"

named_theorems keeps_ledger_intros

lemma keeps_ledger_basic [keeps_ledger_intros]:
  "keeps_ledger (db_return x)" "keeps_ledger (db_throw e)" "keeps_ledger (sql_query q)"
  "keeps_ledger (rethrow_or y e)"
  by (auto simp: keeps_ledger_def db_return_def db_throw_def rethrow_or_def dest: sql_query_keeps
      split: if_splits)

lemma keeps_ledger_bind [keeps_ledger_intros]:
  assumes "keeps_ledger m" "\<And>x. keeps_ledger (f x)"
  shows "keeps_ledger (db_bind m f)"
  using assms unfolding keeps_ledger_def db_bind_def
  by (auto split: prod.splits sum.splits)

lemma keeps_ledger_catch [keeps_ledger_intros]:
  assumes "keeps_ledger m" "\<And>e. keeps_ledger (h e)"
  shows "keeps_ledger (db_catch m h)"
  using assms unfolding keeps_ledger_def db_catch_def
  by (auto split: prod.splits sum.splits)

lemma keeps_ledger_write [keeps_ledger_intros]:
  assumes "\<And>t t'. w t = Inr t' \<Longrightarrow> tb_ledger t' = tb_ledger t"
  shows "keeps_ledger (sql_write w)"
  using assms unfolding keeps_ledger_def
  by (auto simp: sql_write_def dest!: next_fate_keeps split: prod.splits option.splits sum.splits)

lemma keeps_ledger_index [keeps_ledger_intros]:
  "keeps_ledger (getAddressId collate a)" "keeps_ledger (getTransactionId collate a)"
  "keeps_ledger (createAddress collate x)" "keeps_ledger (createTransaction collate x)"
  "keeps_ledger (insertPubkey n k)"
proof -
  show a: "keeps_ledger (getAddressId collate a)" for a
    by (auto simp: getAddressId_def intro!: keeps_ledger_intros)
  show h: "keeps_ledger (getTransactionId collate a)" for a
    by (auto simp: getTransactionId_def intro!: keeps_ledger_intros)
  show "keeps_ledger (createAddress collate x)"
    by (auto simp: createAddress_def intro!: keeps_ledger_intros a split: option.splits)
  show "keeps_ledger (createTransaction collate x)"
    by (auto simp: createTransaction_def intro!: keeps_ledger_intros h split: option.splits)
  show "keeps_ledger (insertPubkey n k)"
    by (auto simp: insertPubkey_def intro!: keeps_ledger_intros)
qed

end
