(* ===== verification/Js_Json.thy ===== *)
theory Js_Json
  imports Js_Number
begin

text \<open>
  \<open>JSON.parse\<close> of event payloads and \<open>JSON.stringify\<close> of the strings in them.  The reader takes a
  count that bounds the nesting of its calls; every call reads at least one code unit, so the length
  of the text is always enough, which the last section proves.
\<close>

section \<open>Values\<close>

datatype json =
    JNull | JBool bool | JNum js_number | JStr jsstr | JArr "json list" | JObj "(jsstr \<times> json) list"

text \<open>A member of an object, the last of its name; anything else has none here.\<close>

fun json_member :: "jsstr \<Rightarrow> json \<Rightarrow> json option" where
  "json_member k (JObj ms) = map_of (rev ms) k"
| "json_member k _ = None"

text \<open>The value of a finite number.\<close>

fun js_value :: "js_number \<Rightarrow> rat" where
  "js_value (Fin neg m e) =
     (let v = (if 0 \<le> e then of_nat m * 2 ^ nat e else of_nat m / 2 ^ nat (- e)) in if neg then - v else v)"
| "js_value _ = 0"

definition js_zero :: "js_number \<Rightarrow> bool" where
  "js_zero x = (case x of Fin _ m _ \<Rightarrow> m = 0 | NaN \<Rightarrow> True | Inf _ \<Rightarrow> False)"

fun json_truthy :: "json \<Rightarrow> bool" where
  "json_truthy JNull = False"
| "json_truthy (JBool b) = b"
| "json_truthy (JNum x) = (\<not> js_zero x)"
| "json_truthy (JStr s) = (s \<noteq> [])"
| "json_truthy _ = True"

text \<open>\<open>Number(v)\<close>; a list is read through its joined text, which is no number beyond one element.\<close>

fun json_Number :: "json \<Rightarrow> js_number" where
  "json_Number JNull = Fin False 0 0"
| "json_Number (JBool b) = Fin False (if b then 1 else 0) 0"
| "json_Number (JNum x) = x"
| "json_Number (JStr s) = js_Number s"
| "json_Number (JArr []) = Fin False 0 0"
| "json_Number (JArr [JBool b]) = NaN"
| "json_Number (JArr [v]) = json_Number v"
| "json_Number (JArr (v # w # vs)) = NaN"
| "json_Number (JObj ms) = NaN"

section \<open>Writing strings\<close>

definition hex_char :: "nat \<Rightarrow> nat" where
  "hex_char d = (if d < 10 then 48 + d else 87 + d)"

definition json_escape :: "nat \<Rightarrow> jsstr" where
  "json_escape u = [92, 117, hex_char (u div 4096), hex_char (u div 256 mod 16), hex_char (u div 16 mod 16),
     hex_char (u mod 16)]"

text \<open>A code unit that is no surrogate.\<close>

definition json_unit :: "nat \<Rightarrow> jsstr" where
  "json_unit u =
     (if u = 34 then [92, 34] else if u = 92 then [92, 92] else if u = 8 then [92, 98]
      else if u = 9 then [92, 116] else if u = 10 then [92, 110] else if u = 12 then [92, 102]
      else if u = 13 then [92, 114] else if u < 32 then json_escape u else [u])"

text \<open>A surrogate pair stays as it is; a lone surrogate is escaped.\<close>

fun json_units :: "jsstr \<Rightarrow> jsstr" where
  "json_units [] = []"
| "json_units (u # us) =
     (if 0xD800 \<le> u \<and> u \<le> 0xDBFF then
        (case us of
           v # vs \<Rightarrow> if 0xDC00 \<le> v \<and> v \<le> 0xDFFF then u # v # json_units vs
                     else json_escape u @ json_units us
         | [] \<Rightarrow> json_escape u)
      else if 0xDC00 \<le> u \<and> u \<le> 0xDFFF then json_escape u @ json_units us
      else json_unit u @ json_units us)"

definition json_string :: "jsstr \<Rightarrow> jsstr" where
  "json_string s = [34] @ json_units s @ [34]"

section \<open>Reading\<close>

definition json_space :: "nat \<Rightarrow> bool" where
  "json_space u \<longleftrightarrow> u \<in> set [9, 10, 13, 32]"

definition skip_space :: "jsstr \<Rightarrow> jsstr" where
  "skip_space s = dropWhile json_space s"

text \<open>Four hexadecimal digits.\<close>

fun read_hex4 :: "jsstr \<Rightarrow> (nat \<times> jsstr) option" where
  "read_hex4 (a # b # c # d # r) =
     (case (hex_digit a, hex_digit b, hex_digit c, hex_digit d) of
        (Some w, Some x, Some y, Some z) \<Rightarrow> Some (((w * 16 + x) * 16 + y) * 16 + z, r)
      | _ \<Rightarrow> None)"
| "read_hex4 _ = None"

definition simple_escape :: "nat \<Rightarrow> nat option" where
  "simple_escape u = map_of [(34, 34), (92, 92), (47, 47), (98, 8), (102, 12), (110, 10), (114, 13), (116, 9)] u"

text \<open>The characters of a string, after its opening quote.\<close>

fun read_chars :: "jsstr \<Rightarrow> (jsstr \<times> jsstr) option" where
  "read_chars [] = None"
| "read_chars (u # us) =
     (if u = 34 then Some ([], us)
      else if u < 32 then None
      else if u = 92 then
        (case us of
           [] \<Rightarrow> None
         | v # vs \<Rightarrow>
             if v = 117 then
               (case vs of
                  a # b # c # d # r \<Rightarrow>
                    (case read_hex4 [a, b, c, d] of
                       None \<Rightarrow> None
                     | Some (x, _) \<Rightarrow> map_option (\<lambda>(t, r'). (x # t, r')) (read_chars r))
                | _ \<Rightarrow> None)
             else (case simple_escape v of
                     None \<Rightarrow> None
                   | Some x \<Rightarrow> map_option (\<lambda>(t, r'). (x # t, r')) (read_chars vs)))
      else map_option (\<lambda>(t, r'). (u # t, r')) (read_chars us))"

text \<open>A number: \<open>-?(0|[1-9][0-9]*)(\.[0-9]+)?([eE][+-]?[0-9]+)?\<close>.\<close>

definition number_unit :: "nat \<Rightarrow> bool" where
  "number_unit u \<longleftrightarrow> is_digit u \<or> u \<in> set [43, 45, 46, 69, 101]"

definition json_number_text :: "jsstr \<Rightarrow> bool" where
  "json_number_text s =
     (let r = (case s of u # t \<Rightarrow> if u = 45 then t else s | [] \<Rightarrow> s);
          (ip, r1) = span_digits r
      in (case ip of [] \<Rightarrow> False | d # ds \<Rightarrow> d \<noteq> 48 \<or> ds = [])
         \<and> (case r1 of
              [] \<Rightarrow> True
            | u # t \<Rightarrow>
                if u = 46 then (case span_digits t of (fp, r2) \<Rightarrow> fp \<noteq> [] \<and> match_exponent r2 \<noteq> None)
                else match_exponent r1 \<noteq> None))"

definition read_number :: "jsstr \<Rightarrow> (json \<times> jsstr) option" where
  "read_number s =
     (let t = takeWhile number_unit s
      in if json_number_text t then Some (JNum (js_Number t), drop (length t) s) else None)"

definition read_word :: "jsstr \<Rightarrow> json \<Rightarrow> jsstr \<Rightarrow> (json \<times> jsstr) option" where
  "read_word word v s = (if starts_with word s then Some (v, drop (length word) s) else None)"

fun read_value :: "nat \<Rightarrow> jsstr \<Rightarrow> (json \<times> jsstr) option"
  and read_elements :: "nat \<Rightarrow> jsstr \<Rightarrow> (json list \<times> jsstr) option"
  and read_members :: "nat \<Rightarrow> jsstr \<Rightarrow> ((jsstr \<times> json) list \<times> jsstr) option"
where
  "read_value 0 s = None"
| "read_value (Suc n) s =
     (case skip_space s of
        [] \<Rightarrow> None
      | u # us \<Rightarrow>
          if u = 34 then map_option (\<lambda>(t, r). (JStr t, r)) (read_chars us)
          else if u = 91 then
            (case skip_space us of
               [] \<Rightarrow> None
             | v # vs \<Rightarrow> if v = 93 then Some (JArr [], vs)
                         else map_option (\<lambda>(es, r). (JArr es, r)) (read_elements n us))
          else if u = 123 then
            (case skip_space us of
               [] \<Rightarrow> None
             | v # vs \<Rightarrow> if v = 125 then Some (JObj [], vs)
                         else map_option (\<lambda>(ms, r). (JObj ms, r)) (read_members n us))
          else if u = 110 then read_word (js ''null'') JNull (u # us)
          else if u = 116 then read_word (js ''true'') (JBool True) (u # us)
          else if u = 102 then read_word (js ''false'') (JBool False) (u # us)
          else read_number (u # us))"
| "read_elements 0 s = None"
| "read_elements (Suc n) s =
     (case read_value n s of
        None \<Rightarrow> None
      | Some (v, r) \<Rightarrow>
          (case skip_space r of
             [] \<Rightarrow> None
           | u # us \<Rightarrow> if u = 93 then Some ([v], us)
                       else if u = 44 then map_option (\<lambda>(es, r'). (v # es, r')) (read_elements n us)
                       else None))"
| "read_members 0 s = None"
| "read_members (Suc n) s =
     (case skip_space s of
        [] \<Rightarrow> None
      | q # qs \<Rightarrow>
          if q \<noteq> 34 then None
          else (case read_chars qs of
              None \<Rightarrow> None
            | Some (k, r) \<Rightarrow>
                (case skip_space r of
                   [] \<Rightarrow> None
                 | c # cs \<Rightarrow>
                     if c \<noteq> 58 then None
                     else (case read_value n cs of
                         None \<Rightarrow> None
                       | Some (v, r1) \<Rightarrow>
                           (case skip_space r1 of
                              [] \<Rightarrow> None
                            | u # us \<Rightarrow> if u = 125 then Some ([(k, v)], us)
                                else if u = 44 then map_option (\<lambda>(ms, r'). ((k, v) # ms, r')) (read_members n us)
                                else None)))))"

text \<open>The whole text; \<^const>\<open>None\<close> is a syntax error.\<close>

definition json_parse :: "jsstr \<Rightarrow> json option" where
  "json_parse s =
     (case read_value (2 * length s + 2) s of
        None \<Rightarrow> None
      | Some (v, r) \<Rightarrow> if skip_space r = [] then Some v else None)"

section \<open>Round trips\<close>

lemma hex_digit_char [simp]: "d < 16 \<Longrightarrow> hex_digit (hex_char d) = Some d"
  by (simp add: hex_digit_def hex_char_def)

lemma hex4_value:
  fixes u :: nat
  shows "((u div 4096 * 16 + u div 256 mod 16) * 16 + u div 16 mod 16) * 16 + u mod 16 = u"
proof -
  have "u div 4096 = u div 256 div 16" "u div 256 = u div 16 div 16"
    using div_mult2_eq[of u 256 16] div_mult2_eq[of u 16 16] by simp_all
  then have "u div 4096 * 16 + u div 256 mod 16 = u div 256" "u div 256 * 16 + u div 16 mod 16 = u div 16"
    by (simp_all only: div_mult_mod_eq)
  then show ?thesis by (simp only: div_mult_mod_eq)
qed

lemma read_hex4_chars:
  assumes "a < 16" "b < 16" "c < 16" "d < 16"
  shows "read_hex4 [hex_char a, hex_char b, hex_char c, hex_char d] = Some (((a * 16 + b) * 16 + c) * 16 + d, [])"
  using assms by simp

lemma read_chars_hex:
  assumes "read_hex4 [a, b, c, d] = Some (x, r0)"
  shows "read_chars (92 # 117 # a # b # c # d # r) = map_option (\<lambda>(t, r'). (x # t, r')) (read_chars r)"
  using assms by (simp del: read_hex4.simps)

lemma read_escape:
  assumes "u < 65536"
  shows "read_chars (json_escape u @ r) = map_option (\<lambda>(t, r'). (u # t, r')) (read_chars r)"
proof -
  have "read_hex4 [hex_char (u div 4096), hex_char (u div 256 mod 16), hex_char (u div 16 mod 16),
      hex_char (u mod 16)] = Some (u, [])"
  proof -
    have "u div 4096 < 16" "u div 256 mod 16 < 16" "u div 16 mod 16 < 16" "u mod 16 < 16"
      using assms by simp_all
    from read_hex4_chars[OF this] show ?thesis by (simp only: hex4_value)
  qed
  from read_chars_hex[OF this] show ?thesis by (simp only: json_escape_def append_Cons append_Nil)
qed

lemma read_chars_plain:
  assumes "32 \<le> u" "u \<noteq> 34" "u \<noteq> 92"
  shows "read_chars (u # r) = map_option (\<lambda>(t, r'). (u # t, r')) (read_chars r)"
  using assms by simp

lemma read_chars_simple:
  assumes "simple_escape v = Some x"
  shows "read_chars (92 # v # r) = map_option (\<lambda>(t, r'). (x # t, r')) (read_chars r)"
  using assms by (auto simp: simple_escape_def split: if_splits)

text \<open>What one code unit is written as reads back as that unit.\<close>

lemma read_json_unit:
  "u < 65536 \<Longrightarrow> read_chars (json_unit u @ r) = map_option (\<lambda>(t, r'). (u # t, r')) (read_chars r)"
proof -
  assume u: "u < 65536"
  have simple: "read_chars ([92, v] @ r) = map_option (\<lambda>(t, r'). (x # t, r')) (read_chars r)"
    if "simple_escape v = Some x" for v x
    using read_chars_simple[OF that] by (simp only: append_Cons append_Nil)
  show ?thesis
  proof (cases "u \<in> {34, 92, 8, 9, 10, 12, 13}")
    case True
    then obtain v where "json_unit u = [92, v]" "simple_escape v = Some u"
      by (auto simp: simple_escape_def json_unit_def)
    with simple show ?thesis by simp
  next
    case False
    then have "json_unit u = (if u < 32 then json_escape u else [u])" by (auto simp: json_unit_def)
    then show ?thesis
      using read_escape[OF u] read_chars_plain[of u r] False
      by (simp del: read_chars.simps)
  qed
qed

lemma read_json_units:
  "\<forall>u \<in> set s. u < 65536 \<Longrightarrow> read_chars (json_units s @ 34 # r) = Some (s, r)"
proof (induction s rule: json_units.induct)
  case 1
  show ?case by simp
next
  case (2 u us)
  have u: "u < 65536" and us: "\<forall>v \<in> set us. v < 65536" using "2.prems" by simp_all
  show ?case
  proof (cases "0xD800 \<le> u \<and> u \<le> 0xDBFF")
    case high: True
    show ?thesis
    proof (cases us)
      case Nil
      with high read_escape[OF u, of "34 # r"] show ?thesis by (simp del: read_chars.simps) simp
    next
      case (Cons v vs)
      show ?thesis
      proof (cases "0xDC00 \<le> v \<and> v \<le> 0xDFFF")
        case True
        have "read_chars (json_units vs @ 34 # r) = Some (vs, r)" using 2 high True Cons by simp
        with high True Cons show ?thesis by (simp del: read_chars.simps add: read_chars_plain)
      next
        case False
        have "read_chars (json_units us @ 34 # r) = Some (us, r)" using 2 high False Cons by auto
        with high False Cons read_escape[OF u] show ?thesis
          by (auto simp del: read_chars.simps json_units.simps(2) simp add: json_units.simps(2)[of u])
      qed
    qed
  next
    case False
    then have "read_chars (json_units us @ 34 # r) = Some (us, r)" using 2 us by auto
    then show ?thesis
      using False read_escape[OF u] read_json_unit[OF u] by (auto simp del: read_chars.simps)
  qed
qed

text \<open>The text of a natural number is its JSON number.\<close>

lemma digits_not_special:
  assumes "list_all is_digit ds" "u \<in> set ds"
  shows "\<not> js_space u" "u \<noteq> 43" "u \<noteq> 45" "number_unit u" "u \<le> 57"
  using assms by (auto simp: list_all_iff is_digit_def js_space_def number_unit_def)

lemma takeWhile_all: "list_all P xs \<Longrightarrow> takeWhile P xs = xs" "list_all P xs \<Longrightarrow> dropWhile P xs = []"
  by (induction xs) auto

lemma js_trim_digits: "list_all is_digit ds \<Longrightarrow> js_trim ds = ds"
proof -
  have id: "dropWhile js_space xs = xs" if "list_all is_digit xs" for xs
    using that digits_not_special(1)[of xs] by (cases xs) auto
  assume d: "list_all is_digit ds"
  then have "list_all is_digit (rev ds)" by simp
  with id[OF d] id[of "rev ds"] show ?thesis by (simp add: js_trim_def js_trim_start_def)
qed

lemma not_prefixed:
  assumes "list_all is_digit ds" "57 < u"
  shows "\<not> starts_with [v, u] ds"
  using assms by (auto simp: starts_with_append is_digit_def)

lemma match_decimal_text:
  assumes "list_all is_digit ds" "ds \<noteq> []"
  shows "match_decimal ds = Some \<lparr>dm_sign = [], dm_int = ds, dm_frac = [], dm_exp = None\<rparr>"
proof -
  obtain d t where ds: "ds = d # t" using assms(2) by (cases ds) auto
  have "take_sign ds = ([], ds)" using digits_not_special(2,3)[OF assms(1)] ds by (simp add: take_sign_def)
  then show ?thesis
    using assms by (simp add: match_decimal_def span_digits_def takeWhile_all match_exponent_def)
qed

lemma js_Number_digits:
  assumes "list_all is_digit ds" "ds \<noteq> []"
  shows "js_Number ds = round_ratio False (decimal_value ds) 1"
proof -
  obtain d t where ds: "ds = d # t" using assms(2) by (cases ds) auto
  have sign: "take_sign ds = ([], ds)" using digits_not_special(2,3)[OF assms(1)] ds by (simp add: take_sign_def)
  have inf: "ds \<noteq> js ''Infinity''" using assms(1) by (auto simp: js_def is_digit_def)
  have pre: "\<not> starts_with (js [c, e]) ds" if "57 < (of_char e :: nat)" for c e
    using not_prefixed[OF assms(1) that] by (simp add: js_def)
  show ?thesis
    using assms sign inf by (simp add: js_Number_def js_trim_digits Let_def pre match_decimal_text
        decimal_number_def dm_scale_def dm_exponent_def dm_digits_def dm_negative_def)
qed

lemma round_integer_value:
  assumes "n < 2 ^ 53"
  shows "is_finite (round_ratio False n 1)" "js_value (round_ratio False n 1) = of_nat n"
proof -
  have s: "safe_integer (round_ratio False n 1) = Some (int n)"
    using round_ratio_exact[of 1 n False] assms by simp
  show fin: "is_finite (round_ratio False n 1)" using s by (cases "round_ratio False n 1") auto
  have val: "js_value x = of_int v" if "safe_integer x = Some v" for x v
  proof (cases x)
    case (Fin neg m e)
    have "of_nat m / (2 :: rat) ^ k = of_nat (m div 2 ^ k)" if "m mod 2 ^ k = 0" for k
    proof -
      have "m = m div 2 ^ k * 2 ^ k" using that by (metis div_mult_mod_eq add_0_right)
      then have "(of_nat m :: rat) = of_nat (m div 2 ^ k) * 2 ^ k" by (metis of_nat_mult of_nat_numeral of_nat_power)
      then show ?thesis by (simp add: field_simps)
    qed
    with that Fin show ?thesis by (auto simp: Let_def split: if_splits)
  qed (use that in simp_all)
  from val[OF s] show "js_value (round_ratio False n 1) = of_nat n" by simp
qed

section \<open>The count is always enough\<close>

lemma skip_space_length: "length (skip_space s) \<le> length s"
  by (simp add: skip_space_def length_dropWhile_le)

lemma skip_space_Cons: "skip_space s = u # us \<Longrightarrow> length us < length s"
  using skip_space_length[of s] by simp

lemma read_chars_shorter: "read_chars s = Some (t, r) \<Longrightarrow> length r < length s"
proof (induction "length s" arbitrary: s t r rule: less_induct)
  case less
  have IH: "length r < length s" if "read_chars s' = Some (t', r)" "length s' < length s" for s' t'
    using less.hyps[OF that(2,1)] that(2) by simp
  from less.prems show ?case
    by (cases s) (auto split: if_splits list.splits option.splits dest!: IH simp del: read_hex4.simps)
qed

lemma read_number_shorter: "read_number s = Some (v, r) \<Longrightarrow> length r < length s"
  by (cases s) (auto simp: read_number_def Let_def json_number_text_def span_digits_def split: if_splits)

lemma read_word_shorter: "read_word w v s = Some (x, r) \<Longrightarrow> w \<noteq> [] \<Longrightarrow> s \<noteq> [] \<Longrightarrow> length r < length s"
  by (auto simp: read_word_def split: if_splits)

lemma read_shorter:
  "(read_value n s = Some (v, r) \<longrightarrow> length r < length s)
   \<and> (read_elements n s = Some (es, r) \<longrightarrow> length r < length s)
   \<and> (read_members n s = Some (ms, r) \<longrightarrow> length r < length s)"
proof (induction n arbitrary: s v r es ms)
  case (Suc n)
  have val: "length r < length s" if "read_value n s = Some (v, r)" for s v r using Suc that by blast
  have els: "length r < length s" if "read_elements n s = Some (es, r)" for s es r using Suc that by blast
  have mems: "length r < length s" if "read_members n s = Some (ms, r)" for s ms r using Suc that by blast
  note shorter = val els mems read_chars_shorter read_number_shorter skip_space_Cons
  have 1: "read_value (Suc n) s = Some (v, r) \<longrightarrow> length r < length s"
    by (auto split: if_splits list.splits option.splits
        dest!: shorter read_word_shorter simp del: read_chars.simps)
  have 2: "read_elements (Suc n) s = Some (es, r) \<longrightarrow> length r < length s"
    by (auto split: if_splits list.splits option.splits dest!: shorter)
  have 3: "read_members (Suc n) s = Some (ms, r) \<longrightarrow> length r < length s"
    by (auto split: if_splits list.splits option.splits dest!: shorter)
  from 1 2 3 show ?case by blast
qed simp

lemma read_lengths:
  "read_value n s = Some (v, r) \<Longrightarrow> length r < length s"
  "read_elements n s = Some (es, r) \<Longrightarrow> length r < length s"
  "read_members n s = Some (ms, r) \<Longrightarrow> length r < length s"
  using read_shorter by blast+

lemma read_settled:
  "(\<forall>n m. 2 * length s + 1 \<le> n \<longrightarrow> 2 * length s + 1 \<le> m \<longrightarrow> read_value n s = read_value m s)
   \<and> (\<forall>n m. 2 * length s + 2 \<le> n \<longrightarrow> 2 * length s + 2 \<le> m \<longrightarrow> read_elements n s = read_elements m s)
   \<and> (\<forall>n m. 2 * length s + 2 \<le> n \<longrightarrow> 2 * length s + 2 \<le> m \<longrightarrow> read_members n s = read_members m s)"
proof (induction "length s" arbitrary: s rule: less_induct)
  case less
  have below: "2 * length s' + 2 \<le> n" if "length s' < length s" "2 * length s \<le> n" for s' :: jsstr and n
    using that by simp
  have els: "read_elements n s' = read_elements m s'"
    if "length s' < length s" "2 * length s \<le> n" "2 * length s \<le> m" for s' n m
    using less[OF that(1)] below[OF that(1,2)] below[OF that(1,3)] by blast
  have mems: "read_members n s' = read_members m s'"
    if "length s' < length s" "2 * length s \<le> n" "2 * length s \<le> m" for s' n m
    using less[OF that(1)] below[OF that(1,2)] below[OF that(1,3)] by blast
  have val': "read_value n s' = read_value m s'"
    if "length s' < length s" "2 * length s \<le> n" "2 * length s \<le> m" for s' n m
  proof -
    have "2 * length s' + 1 \<le> n" "2 * length s' + 1 \<le> m" using that by simp_all
    with less[OF that(1)] show ?thesis by blast
  qed
  have val: "read_value n s = read_value m s" if nm: "2 * length s + 1 \<le> n" "2 * length s + 1 \<le> m" for n m
  proof -
    obtain a b where ab: "n = Suc a" "m = Suc b" "2 * length s \<le> a" "2 * length s \<le> b"
      using nm by (cases n; cases m) auto
    show ?thesis
    proof (cases "skip_space s")
      case (Cons u us)
      have "length us < length s" using skip_space_Cons[OF Cons] .
      with els[OF this ab(3,4)] mems[OF this ab(3,4)] show ?thesis
        unfolding ab by (auto simp: Cons split: list.split)
    qed (simp add: ab)
  qed
  have e: "read_elements n s = read_elements m s" if nm: "2 * length s + 2 \<le> n" "2 * length s + 2 \<le> m" for n m
  proof -
    obtain a b where ab: "n = Suc a" "m = Suc b" "2 * length s + 1 \<le> a" "2 * length s + 1 \<le> b"
      using nm by (cases n; cases m) auto
    have rest: "read_elements a us = read_elements b us" if "read_value a s = Some (v, r)" "skip_space r = u # us" for v r u us
      using read_lengths(1)[OF that(1)] skip_space_Cons[OF that(2)] ab by (intro els) simp_all
    show ?thesis
      unfolding ab read_elements.simps val[OF ab(4,3)]
      using rest by (auto split: option.splits list.splits)
  qed
  have m: "read_members n s = read_members m s" if nm: "2 * length s + 2 \<le> n" "2 * length s + 2 \<le> m" for n m
  proof -
    obtain a b where ab: "n = Suc a" "m = Suc b" "2 * length s + 1 \<le> a" "2 * length s + 1 \<le> b"
      using nm by (cases n; cases m) auto
    have v: "read_value a cs = read_value b cs"
      if "skip_space s = q # qs" "read_chars qs = Some (k, r)" "skip_space r = c # cs" for q qs k r c cs
      using skip_space_Cons[OF that(1)] read_chars_shorter[OF that(2)] skip_space_Cons[OF that(3)] ab
      by (intro val') simp_all
    have rest: "read_members a us = read_members b us"
      if "skip_space s = q # qs" "read_chars qs = Some (k, r)" "skip_space r = c # cs"
        "read_value b cs = Some (x, r1)" "skip_space r1 = u # us" for q qs k r c cs x r1 u us
      using skip_space_Cons[OF that(1)] read_chars_shorter[OF that(2)] skip_space_Cons[OF that(3)]
        read_lengths(1)[OF that(4)] skip_space_Cons[OF that(5)] ab
      by (intro mems) simp_all
    show ?thesis
      unfolding ab read_members.simps
      using v rest by (auto split: option.splits list.splits)
  qed
  from val e m show ?case by blast
qed

text \<open>So the answer of \<^const>\<open>json_parse\<close> does not depend on the count it starts with.\<close>

lemma json_parse_count:
  assumes "2 * length s + 2 \<le> n"
  shows "json_parse s = (case read_value n s of
      None \<Rightarrow> None | Some (v, r) \<Rightarrow> if skip_space r = [] then Some v else None)"
proof -
  have "read_value (2 * length s + 2) s = read_value n s"
  proof -
    have "2 * length s + 1 \<le> 2 * length s + 2" "2 * length s + 1 \<le> n" using assms by simp_all
    with read_settled[of s] show ?thesis by blast
  qed
  then show ?thesis by (simp only: json_parse_def)
qed

end
