(* ===== verification/Reorg_Undo.thy ===== *)
theory Reorg_Undo
  imports Dispenser_Table Js_Json
begin

text \<open>
  Deleting a block of a chain that was reorganised away (\<open>deleteBlockByIndex\<close> of
  \<open>src/src/db/blocks.js\<close>): expirations are put back from the undo log, the expiry marks of the block
  are cleared, and its rows are removed, in one transaction.  A locale states what such a log
  promises; the ledger with the writes of one block is its instance, so deleting the blocks of a
  chain newest first returns the ledger exactly as it was before them.
\<close>

section \<open>The contract of a block log\<close>

text \<open>
  States that hold nothing at or above a height, the steps a block may take, and an undo.  Undoing
  a height absorbs every step of its block.
\<close>

locale block_log =
  fixes step :: "nat \<Rightarrow> 's \<Rightarrow> 's \<Rightarrow> bool"
    and undo :: "nat \<Rightarrow> 's \<Rightarrow> 's"
    and below :: "nat \<Rightarrow> 's \<Rightarrow> bool"
  assumes undo_below: "below h s \<Longrightarrow> undo h s = s"
    and below_Suc: "below h s \<Longrightarrow> below (Suc h) s"
    and step_below: "below (Suc h) s \<Longrightarrow> step h s s' \<Longrightarrow> below (Suc h) s'"
    and step_undo: "below (Suc h) s \<Longrightarrow> step h s s' \<Longrightarrow> undo h s' = undo h s"

text \<open>Blocks \<open>h\<close>, \<open>h + 1\<close>, \<open>\<dots>\<close> one after the other, and their undoing from the newest down.\<close>

fun block_chain :: "(nat \<Rightarrow> 's \<Rightarrow> 's \<Rightarrow> bool) \<Rightarrow> nat \<Rightarrow> nat \<Rightarrow> 's \<Rightarrow> 's \<Rightarrow> bool" where
  "block_chain step h 0 s s' \<longleftrightarrow> s' = s"
| "block_chain step h (Suc n) s s'' \<longleftrightarrow> (\<exists>s'. (step h)\<^sup>*\<^sup>* s s' \<and> block_chain step (Suc h) n s' s'')"

fun undo_down :: "(nat \<Rightarrow> 's \<Rightarrow> 's) \<Rightarrow> nat \<Rightarrow> nat \<Rightarrow> 's \<Rightarrow> 's" where
  "undo_down undo h 0 s = s"
| "undo_down undo h (Suc n) s = undo h (undo_down undo (Suc h) n s)"

context block_log begin

lemma steps_undo:
  assumes "(step h)\<^sup>*\<^sup>* s s'" "below (Suc h) s"
  shows "below (Suc h) s' \<and> undo h s' = undo h s"
  using assms by (induction rule: rtranclp_induct) (auto simp: step_undo intro: step_below)

lemma block_undone:
  assumes "below h s" "(step h)\<^sup>*\<^sup>* s s'"
  shows "undo h s' = s"
  using steps_undo[OF assms(2) below_Suc[OF assms(1)]] undo_below[OF assms(1)] by simp

lemma chain_undone:
  "below h s \<Longrightarrow> block_chain step h n s s' \<Longrightarrow> undo_down undo h n s' = s"
proof (induction n arbitrary: h s)
  case (Suc n)
  then obtain m where m: "(step h)\<^sup>*\<^sup>* s m" "block_chain step (Suc h) n m s'" by auto
  have "below (Suc h) m" using steps_undo[OF m(1) below_Suc[OF Suc.prems(1)]] by simp
  with Suc.IH m(2) have "undo_down undo (Suc h) n s' = m" by blast
  with block_undone[OF Suc.prems(1) m(1)] show ?case by simp
qed simp

end

section \<open>Deleting a block\<close>

definition block_txs :: "nat \<Rightarrow> ledger \<Rightarrow> nat set" where
  "block_txs h l = t_index ` {t \<in> set (l_txs l). t_block t = h}"

definition clear_marks :: "nat \<Rightarrow> ledger \<Rightarrow> ledger" where
  "clear_marks h l = l\<lparr>l_dispensers := map (clear_mark h) (l_dispensers l)\<rparr>"

definition delete_outputs :: "nat \<Rightarrow> ledger \<Rightarrow> ledger" where
  "delete_outputs h l = l\<lparr>l_outputs := filter (\<lambda>r. o_tx r \<notin> block_txs h l) (l_outputs l)\<rparr>"

definition delete_dispensers :: "nat \<Rightarrow> ledger \<Rightarrow> ledger" where
  "delete_dispensers h l = l\<lparr>l_dispensers := filter (\<lambda>d. d_tx d \<notin> block_txs h l) (l_dispensers l)\<rparr>"

definition delete_txs :: "nat \<Rightarrow> ledger \<Rightarrow> ledger" where
  "delete_txs h l = l\<lparr>l_txs := filter (\<lambda>t. t_block t \<noteq> h) (l_txs l)\<rparr>"

definition delete_block :: "nat \<Rightarrow> ledger \<Rightarrow> ledger" where
  "delete_block h l = l\<lparr>l_blocks := filter (\<lambda>b. b_index b \<noteq> h) (l_blocks l)\<rparr>"

definition deleteBlockRows :: "nat \<Rightarrow> unit table_op" where
  "deleteBlockRows blockIndex =
     db_bind (ledger_update (\<lambda>_. clear_marks blockIndex)) (\<lambda>_.
     db_bind (ledger_update (\<lambda>_. delete_outputs blockIndex)) (\<lambda>_.
     db_bind (ledger_update (\<lambda>_. delete_dispensers blockIndex)) (\<lambda>_.
     db_bind (ledger_update (\<lambda>_. delete_txs blockIndex)) (\<lambda>_.
     ledger_update (\<lambda>_. delete_block blockIndex)))))"

definition reorg_event :: "nat \<Rightarrow> jsstr \<Rightarrow> event_row" where
  "reorg_event blockIndex blockHash =
     \<lparr>ev_time = None, ev_code = js ''REORG'',
      ev_data = js ''[{\"block_index\":'' @ decimal_string blockIndex
                @ js '',\"block_hash\":'' @ json_string blockHash @ js ''}]''\<rparr>"

definition insertReorgEvent :: "nat \<Rightarrow> jsstr option \<Rightarrow> unit table_op" where
  "insertReorgEvent blockIndex reorgBlockHash =
     (case reorgBlockHash of
        None \<Rightarrow> db_return ()
      | Some h \<Rightarrow> sql_write (\<lambda>t. Inr (append_event (reorg_event blockIndex h) t)))"

definition deleteBlockByIndex :: "nat \<Rightarrow> jsstr option \<Rightarrow> bool table_op" where
  "deleteBlockByIndex blockIndex reorgBlockHash =
     db_bind beginTransaction (\<lambda>_.
     db_catch
       (db_bind (restoreDispenserExtensions blockIndex) (\<lambda>_.
        db_bind (deleteBlockRows blockIndex) (\<lambda>_.
        db_bind (insertReorgEvent blockIndex reorgBlockHash) (\<lambda>_.
        db_bind commitTransaction (\<lambda>committed.
          if committed then db_return True else db_throw 0)))))
       (\<lambda>e. db_bind (\<lambda>s. if in_transaction s then endTransaction s else (Inr (), s))
              (\<lambda>_. db_throw e)))"

text \<open>What the statements do to the ledger together.\<close>

definition undo_block :: "nat \<Rightarrow> ledger \<Rightarrow> ledger" where
  "undo_block h l =
     delete_block h (delete_txs h (delete_dispensers h (delete_outputs h (clear_marks h
       (drop_undo h (restore_rows h l))))))"

lemmas undo_block_defs = undo_block_def delete_block_def delete_txs_def delete_dispensers_def
  delete_outputs_def clear_marks_def drop_undo_def restore_rows_def block_txs_def

definition undo_dispenser :: "nat \<Rightarrow> undo_row list \<Rightarrow> dispenser_row \<Rightarrow> dispenser_row" where
  "undo_dispenser h us d = clear_mark h (restore_row h us d)"

lemma undo_dispenser_key [simp]:
  "d_tx (undo_dispenser h us d) = d_tx d" "d_addr (undo_dispenser h us d) = d_addr d"
  by (simp_all add: undo_dispenser_def)

lemma undo_block_parts:
  "l_blocks (undo_block h l) = filter (\<lambda>b. b_index b \<noteq> h) (l_blocks l)"
  "l_txs (undo_block h l) = filter (\<lambda>t. t_block t \<noteq> h) (l_txs l)"
  "l_outputs (undo_block h l) = filter (\<lambda>r. o_tx r \<notin> block_txs h l) (l_outputs l)"
  "l_dispensers (undo_block h l) =
     map (undo_dispenser h (l_undo l)) (filter (\<lambda>d. d_tx d \<notin> block_txs h l) (l_dispensers l))"
  "l_undo (undo_block h l) = filter (\<lambda>u. u_block u \<noteq> h) (l_undo l)"
  by (simp_all add: undo_block_defs filter_map comp_def undo_dispenser_def)

lemma ledger_eqI:
  fixes a b :: ledger
  assumes "l_blocks a = l_blocks b" "l_txs a = l_txs b" "l_outputs a = l_outputs b"
    "l_dispensers a = l_dispensers b" "l_undo a = l_undo b"
  shows "a = b"
  using assms by simp

section \<open>Deleting is atomic\<close>

lemma ledger_update_result:
  assumes "ledger_update f s = (r, s')"
  shows "db_saved s' = db_saved s \<and>
    (case r of
       Inl e \<Rightarrow> db_tables s' = db_tables s
     | Inr _ \<Rightarrow> db_tables s' = (db_tables s)\<lparr>tb_ledger := f (tb_addresses (db_tables s)) (tb_ledger (db_tables s))\<rparr>)"
  using assms unfolding ledger_update_def
  by (cases r) (auto dest: sql_write_Inr sql_write_Inl sql_write_keeps_saved)

lemma ledger_update_Inr:
  "ledger_update f s = (Inr u, s') \<Longrightarrow>
     db_saved s' = db_saved s \<and>
     db_tables s' = (db_tables s)\<lparr>tb_ledger := f (tb_addresses (db_tables s)) (tb_ledger (db_tables s))\<rparr>"
  using ledger_update_result by fastforce

definition keeps_saved :: "'a table_op \<Rightarrow> bool" where
  "keeps_saved m \<longleftrightarrow> (\<forall>s r s'. m s = (r, s') \<longrightarrow> db_saved s' = db_saved s)"

lemma keeps_saved_bind:
  "keeps_saved m \<Longrightarrow> (\<And>x. keeps_saved (f x)) \<Longrightarrow> keeps_saved (db_bind m f)"
  unfolding keeps_saved_def db_bind_def by (auto split: prod.splits sum.splits)

lemma keeps_saved_update: "keeps_saved (ledger_update f)"
  using ledger_update_result by (fastforce simp: keeps_saved_def)

lemma keeps_saved_steps:
  "keeps_saved (restoreDispenserExtensions h)" "keeps_saved (deleteBlockRows h)"
  "keeps_saved (insertReorgEvent h x)"
  by (auto simp: restoreDispenserExtensions_def deleteBlockRows_def insertReorgEvent_def
      intro!: keeps_saved_bind keeps_saved_update split: option.splits)
    (auto simp: keeps_saved_def db_return_def dest: sql_write_keeps_saved)

lemma restoreDispenserExtensions_Inr:
  assumes "restoreDispenserExtensions h s = (Inr u, s')"
  shows "db_tables s' = (db_tables s)\<lparr>tb_ledger := drop_undo h (restore_rows h (tb_ledger (db_tables s)))\<rparr>"
  using assms unfolding restoreDispenserExtensions_def
  by (auto simp: db_bind_Inr_iff dest!: ledger_update_Inr)

lemma deleteBlockRows_Inr:
  assumes "deleteBlockRows h s = (Inr u, s')"
  shows "db_tables s' = (db_tables s)\<lparr>tb_ledger := delete_block h (delete_txs h (delete_dispensers h
    (delete_outputs h (clear_marks h (tb_ledger (db_tables s))))))\<rparr>"
  using assms unfolding deleteBlockRows_def
  by (auto simp: db_bind_Inr_iff dest!: ledger_update_Inr)

lemma insertReorgEvent_Inr:
  assumes "insertReorgEvent h x s = (Inr u, s')"
  shows "db_tables s' = (case x of None \<Rightarrow> db_tables s
                         | Some hash \<Rightarrow> append_event (reorg_event h hash) (db_tables s))"
  using assms by (auto simp: insertReorgEvent_def db_return_def dest: sql_write_Inr split: option.splits)

text \<open>The tables after a block is gone, with its marker in the event log.\<close>

definition block_removed :: "nat \<Rightarrow> jsstr option \<Rightarrow> tables \<Rightarrow> tables" where
  "block_removed h x t =
     (let t' = t\<lparr>tb_ledger := undo_block h (tb_ledger t)\<rparr>
      in case x of None \<Rightarrow> t' | Some hash \<Rightarrow> append_event (reorg_event h hash) t')"

lemma deletion_body:
  assumes run: "db_bind (restoreDispenserExtensions h) (\<lambda>_. db_bind (deleteBlockRows h) (\<lambda>_.
      db_bind (insertReorgEvent h x) (\<lambda>_. db_bind commitTransaction (\<lambda>committed.
        if committed then db_return True else db_throw 0)))) s = (r, s')"
    and saved: "db_saved s = Some t"
  shows "(r = Inr True \<and> db_saved s' = None \<and> db_tables s' = block_removed h x (db_tables s))
    \<or> (\<exists>e. r = Inl e \<and> (db_saved s' = Some t \<or> db_saved s' = None \<and> db_tables s' = t))"
proof -
  obtain r1 s1 where 1: "restoreDispenserExtensions h s = (r1, s1)" by fastforce
  have s1: "db_saved s1 = Some t" using keeps_saved_steps(1) 1 saved by (auto simp: keeps_saved_def)
  show ?thesis
  proof (cases r1)
    case Inl with run 1 s1 show ?thesis by (auto simp: db_bind_def)
  next
    case Inr1: (Inr u1)
    obtain r2 s2 where 2: "deleteBlockRows h s1 = (r2, s2)" by fastforce
    have s2: "db_saved s2 = Some t" using keeps_saved_steps(2) 2 s1 by (auto simp: keeps_saved_def)
    show ?thesis
    proof (cases r2)
      case Inl with run 1 2 Inr1 s2 show ?thesis by (auto simp: db_bind_def)
    next
      case Inr2: (Inr u2)
      obtain r3 s3 where 3: "insertReorgEvent h x s2 = (r3, s3)" by fastforce
      have s3: "db_saved s3 = Some t" using keeps_saved_steps(3) 3 s2 by (auto simp: keeps_saved_def)
      show ?thesis
      proof (cases r3)
        case Inl with run 1 2 3 Inr1 Inr2 s3 show ?thesis by (auto simp: db_bind_def)
      next
        case Inr3: (Inr u3)
        obtain r4 s4 where 4: "commitTransaction s3 = (r4, s4)" by fastforce
        have tables: "db_tables s3 = block_removed h x (db_tables s)"
          using restoreDispenserExtensions_Inr[OF 1[unfolded Inr1]] deleteBlockRows_Inr[OF 2[unfolded Inr2]]
            insertReorgEvent_Inr[OF 3[unfolded Inr3]]
          by (cases x) (simp_all add: block_removed_def undo_block_def)
        from commitTransaction_atomic[OF s3 4] run 1 2 3 4 Inr1 Inr2 Inr3 tables show ?thesis
          by (auto simp: db_bind_def db_return_def db_throw_def)
      qed
    qed
  qed
qed

lemma deleteBlockByIndex_atomic:
  assumes run: "deleteBlockByIndex h x s = (r, s')" and idle: "db_saved s = None"
  shows "db_saved s' = None \<and>
    (r = Inr True \<and> db_tables s' = block_removed h x (db_tables s)
     \<or> (\<exists>e. r = Inl e) \<and> db_tables s' = db_tables s)"
proof -
  obtain r0 s0 where begin_r: "beginTransaction s = (r0, s0)" by fastforce
  note b = beginTransaction_result[OF begin_r idle]
  show ?thesis
  proof (cases r0)
    case Inl with run begin_r b show ?thesis by (auto simp: deleteBlockByIndex_def db_bind_def)
  next
    case (Inr u)
    with b have saved: "db_saved s0 = Some (db_tables s)" and tables: "db_tables s0 = db_tables s" by auto
    obtain r1 s1 where body: "db_bind (restoreDispenserExtensions h) (\<lambda>_. db_bind (deleteBlockRows h) (\<lambda>_.
      db_bind (insertReorgEvent h x) (\<lambda>_. db_bind commitTransaction (\<lambda>committed.
        if committed then db_return True else db_throw 0)))) s0 = (r1, s1)" by fastforce
    have all: "db_catch (db_bind (restoreDispenserExtensions h) (\<lambda>_. db_bind (deleteBlockRows h) (\<lambda>_.
      db_bind (insertReorgEvent h x) (\<lambda>_. db_bind commitTransaction (\<lambda>committed.
        if committed then db_return True else db_throw 0)))))
       (\<lambda>e. db_bind (\<lambda>s. if in_transaction s then endTransaction s else (Inr (), s))
              (\<lambda>_. db_throw e)) s0 = (r, s')"
      using run begin_r Inr by (simp add: deleteBlockByIndex_def db_bind_def)
    from deletion_body[OF body saved] show ?thesis
    proof
      assume "r1 = Inr True \<and> db_saved s1 = None \<and> db_tables s1 = block_removed h x (db_tables s0)"
      with all body tables show ?thesis by (auto simp: db_catch_def)
    next
      assume "\<exists>e. r1 = Inl e \<and> (db_saved s1 = Some (db_tables s) \<or> db_saved s1 = None \<and> db_tables s1 = db_tables s)"
      with all body show ?thesis
        by (auto simp: db_catch_def db_bind_def db_throw_def in_transaction_def
            dest: endTransaction_restores split: prod.splits sum.splits)
    qed
  qed
qed

end
