(* ===== verification/Js_Date.thy ===== *)
theory Js_Date
  imports Registration
begin

text \<open>
  \<open>Date.prototype.toISOString\<close> of a time in milliseconds since 1970, as the language defines it: the
  proleptic Gregorian calendar, four-digit years up to 9999 and signed six-digit years beyond.
\<close>

text \<open>Year, month and day of a day number, counted in 400-year eras that begin on 1 March.\<close>

definition civil_of_day :: "int \<Rightarrow> int \<times> int \<times> int" where
  "civil_of_day n =
     (let z = n + 719468;
          era = z div 146097; doe = z mod 146097;
          yoe = (doe - doe div 1460 + doe div 36524 - doe div 146096) div 365;
          doy = doe - (365 * yoe + yoe div 4 - yoe div 100);
          mp = (5 * doy + 2) div 153;
          d = doy - (153 * mp + 2) div 5 + 1;
          m = (if mp < 10 then mp + 3 else mp - 9)
      in (yoe + era * 400 + (if m \<le> 2 then 1 else 0), m, d))"

definition padded :: "nat \<Rightarrow> nat \<Rightarrow> jsstr" where
  "padded width n = replicate (width - length (decimal_string n)) 48 @ decimal_string n"

definition iso_year :: "int \<Rightarrow> jsstr" where
  "iso_year y =
     (if 0 \<le> y \<and> y \<le> 9999 then padded 4 (nat y)
      else js (if y < 0 then ''-'' else ''+'') @ padded 6 (nat \<bar>y\<bar>))"

definition toISOString :: "int \<Rightarrow> jsstr" where
  "toISOString ms =
     (let (y, m, d) = civil_of_day (ms div 86400000); t = ms mod 86400000
      in iso_year y @ js ''-'' @ padded 2 (nat m) @ js ''-'' @ padded 2 (nat d) @ js ''T''
         @ padded 2 (nat (t div 3600000)) @ js '':'' @ padded 2 (nat (t div 60000 mod 60)) @ js '':''
         @ padded 2 (nat (t div 1000 mod 60)) @ js ''.'' @ padded 3 (nat (t mod 1000)) @ js ''Z'')"

lemma civil_of_day_examples:
  "civil_of_day 0 = (1970, 1, 1)" "civil_of_day 11016 = (2000, 2, 29)" "civil_of_day 20513 = (2026, 3, 1)"
  "civil_of_day (- 1) = (1969, 12, 31)"
  by code_simp+

text \<open>The text is ASCII.\<close>

lemma decimal_string_units: "u \<in> set (decimal_string n) \<Longrightarrow> u < 128"
proof (induction n rule: decimal_string.induct)
  case (1 n)
  then show ?case by (subst (asm) decimal_string.simps) (auto split: if_splits)
qed

lemma padded_units: "u \<in> set (padded w n) \<Longrightarrow> u < 128"
  by (auto simp: padded_def dest: decimal_string_units)

lemma toISOString_units: "u \<in> set (toISOString ms) \<Longrightarrow> u < 128"
  by (auto simp: toISOString_def iso_year_def js_def Let_def split: prod.splits if_splits dest: padded_units)

end
