(* ===== verification/Block_Log.thy ===== *)
theory Block_Log
  imports Reorg_Undo
begin

text \<open>
  The ledger as a block log: the writes of one block, the states that hold nothing at or above a
  height, and the proof that deleting the block absorbs each of its writes.  The second part runs the
  database operations themselves and the purge that follows a commit.
\<close>

section \<open>States below a height\<close>

definition below_height :: "nat \<Rightarrow> ledger \<Rightarrow> bool" where
  "below_height h l \<longleftrightarrow>
     (\<forall>b \<in> set (l_blocks l). b_index b < h)
     \<and> (\<forall>t \<in> set (l_txs l). t_block t < h)
     \<and> (\<forall>d \<in> set (l_dispensers l). \<forall>k. d_expired d = Some k \<longrightarrow> k < h)
     \<and> (\<forall>u \<in> set (l_undo l). u_block u < h)"

text \<open>Keys and references the tables keep at every moment.\<close>

definition ledger_wf :: "ledger \<Rightarrow> bool" where
  "ledger_wf l \<longleftrightarrow>
     distinct (map (\<lambda>d. (d_tx d, d_addr d)) (l_dispensers l))
     \<and> (\<forall>r \<in> set (l_outputs l). o_tx r \<in> t_index ` set (l_txs l))
     \<and> (\<forall>d \<in> set (l_dispensers l). d_tx d \<in> t_index ` set (l_txs l))
     \<and> (\<forall>d \<in> set (l_dispensers l). \<forall>u \<in> set (l_undo l).
          u_tx u = d_tx d \<and> u_addr u = d_addr d \<longrightarrow>
          (case d_expired d of None \<Rightarrow> True | Some k \<Rightarrow> u_block u \<le> k))
     \<and> (\<forall>u \<in> set (l_undo l). u_expired u = None \<or> u_expired u = Some (u_block u))"

definition sound_below :: "nat \<Rightarrow> ledger \<Rightarrow> bool" where
  "sound_below h l \<longleftrightarrow> below_height h l \<and> ledger_wf l"

text \<open>The writes of block \<open>h\<close>.\<close>

inductive ledger_step :: "nat \<Rightarrow> ledger \<Rightarrow> ledger \<Rightarrow> bool" for h :: nat where
  block: "add_block r l = Inr l' \<Longrightarrow> b_index r = h \<Longrightarrow> ledger_step h l l'"
| tx: "add_tx r l = Inr l' \<Longrightarrow> t_block r = h \<Longrightarrow> ledger_step h l l'"
| out: "add_output r l = Inr l' \<Longrightarrow> o_tx r \<in> block_txs h l \<Longrightarrow> ledger_step h l l'"
| dispenser: "add_dispenser d l = Inr l' \<Longrightarrow> d_tx d \<in> block_txs h l \<Longrightarrow> d_expired d = None
    \<Longrightarrow> ledger_step h l l'"
| expire: "ledger_step h l (soft_expire h m l)"
| edit: "ledger_step h l (extend_rows i e h (record_undo i h l))"

inductive_cases ledger_stepE: "ledger_step h l l'"

section \<open>The undo log\<close>

lemma undo_entry_keys:
  "d_tx d = d_tx d' \<Longrightarrow> d_addr d = d_addr d' \<Longrightarrow> undo_entry h us d = undo_entry h us d'"
  by (simp add: undo_entry_def)

lemma add_undo_filter [simp]: "filter (\<lambda>u. u_block u \<noteq> h) (add_undo h d us) = filter (\<lambda>u. u_block u \<noteq> h) us"
  by (simp add: add_undo_def)

lemma fold_undo_filter [simp]:
  "filter (\<lambda>u. u_block u \<noteq> h) (fold (add_undo h) ds us) = filter (\<lambda>u. u_block u \<noteq> h) us"
  by (induction ds arbitrary: us) auto

lemma find_append: "find P (xs @ ys) = (case find P xs of None \<Rightarrow> find P ys | Some x \<Rightarrow> Some x)"
  by (induction xs) auto

lemma undo_entry_add:
  "undo_entry h (add_undo h d' us) d =
     (case undo_entry h us d of
        Some u \<Rightarrow> Some u
      | None \<Rightarrow> if d_tx d' = d_tx d \<and> d_addr d' = d_addr d
                then Some \<lparr>u_block = h, u_tx = d_tx d', u_addr = d_addr d',
                           u_expiration = d_expiration d', u_expired = d_expired d'\<rparr>
                else None)"
proof (cases "\<exists>u \<in> set us. u_block u = h \<and> u_tx u = d_tx d' \<and> u_addr u = d_addr d'")
  case True
  then have "undo_entry h us d \<noteq> None" if "d_tx d' = d_tx d" "d_addr d' = d_addr d"
    using that by (auto simp: undo_entry_def find_None_iff)
  with True show ?thesis by (auto simp: add_undo_def split: option.splits)
next
  case False
  then have "add_undo h d' us = us @ [\<lparr>u_block = h, u_tx = d_tx d', u_addr = d_addr d',
      u_expiration = d_expiration d', u_expired = d_expired d'\<rparr>]"
    unfolding add_undo_def by (rule if_not_P)
  then show ?thesis by (auto simp: undo_entry_def find_append split: option.split)
qed

lemma undo_entry_fold_Some:
  "undo_entry h us d = Some u \<Longrightarrow> undo_entry h (fold (add_undo h) ds us) d = Some u"
  by (induction ds arbitrary: us) (auto simp: undo_entry_add)

lemma undo_entry_fold_other:
  assumes "\<forall>d' \<in> set ds. \<not> (d_tx d' = d_tx d \<and> d_addr d' = d_addr d)"
  shows "undo_entry h (fold (add_undo h) ds us) d = undo_entry h us d"
  using assms by (induction ds arbitrary: us) (auto simp: undo_entry_add split: option.splits)

lemma undo_entry_fold_own:
  assumes "undo_entry h us d = None" "d \<in> set ds"
    and "\<forall>d' \<in> set ds. d_tx d' = d_tx d \<and> d_addr d' = d_addr d \<longrightarrow> d' = d"
  shows "undo_entry h (fold (add_undo h) ds us) d =
    Some \<lparr>u_block = h, u_tx = d_tx d, u_addr = d_addr d,
          u_expiration = d_expiration d, u_expired = d_expired d\<rparr>"
  using assms
proof (induction ds arbitrary: us)
  case (Cons a ds)
  show ?case
  proof (cases "a = d")
    case True
    then have "undo_entry h (add_undo h a us) d = Some \<lparr>u_block = h, u_tx = d_tx d, u_addr = d_addr d,
          u_expiration = d_expiration d, u_expired = d_expired d\<rparr>"
      using Cons.prems(1) by (simp add: undo_entry_add)
    then show ?thesis by (simp add: undo_entry_fold_Some)
  next
    case False
    with Cons.prems have "undo_entry h (add_undo h a us) d = None"
      by (auto simp: undo_entry_add)
    with False Cons show ?thesis by auto
  qed
qed simp

lemma fold_undo_mem:
  "u \<in> set (fold (add_undo h) ds us) \<Longrightarrow>
     u \<in> set us \<or> (\<exists>d \<in> set ds. u = \<lparr>u_block = h, u_tx = d_tx d, u_addr = d_addr d,
                     u_expiration = d_expiration d, u_expired = d_expired d\<rparr>)"
  by (induction ds arbitrary: us) (fastforce simp: add_undo_def split: if_splits)+

text \<open>An edit is absorbed row by row: the first value the block saw is what comes back.\<close>

lemma undo_edit_row:
  assumes "d \<in> set ds" "distinct (map (\<lambda>d. (d_tx d, d_addr d)) ds)"
  shows "undo_dispenser h (fold (add_undo h) (filter (extendable i h) ds) us) (extend_row i e h d)
    = undo_dispenser h us d"
proof -
  let ?es = "filter (extendable i h) ds" and ?us' = "fold (add_undo h) (filter (extendable i h) ds) us"
  have key: "d' = d" if "d' \<in> set ds" "d_tx d' = d_tx d" "d_addr d' = d_addr d" for d'
    using assms that by (auto simp: distinct_map inj_on_def)
  have entry: "undo_entry h ?us' (extend_row i e h d) = undo_entry h ?us' d"
    by (rule undo_entry_keys) simp_all
  show ?thesis
  proof (cases "undo_entry h us d")
    case (Some u)
    then have "undo_entry h ?us' d = Some u" by (rule undo_entry_fold_Some)
    with Some entry show ?thesis
      by (simp add: undo_dispenser_def restore_row_def clear_mark_def extend_row_def)
  next
    case None
    show ?thesis
    proof (cases "extendable i h d")
      case True
      have "undo_entry h ?us' d = Some \<lparr>u_block = h, u_tx = d_tx d, u_addr = d_addr d,
          u_expiration = d_expiration d, u_expired = d_expired d\<rparr>"
        by (rule undo_entry_fold_own[OF None]) (use True assms(1) key in auto)
      with None True entry show ?thesis
        by (simp add: undo_dispenser_def restore_row_def clear_mark_def extend_row_def)
    next
      case False
      then have "undo_entry h ?us' d = None"
        using undo_entry_fold_other[of ?es d h us] None key by auto
      with None False entry show ?thesis
        by (simp add: undo_dispenser_def restore_row_def extend_row_def)
    qed
  qed
qed

lemma undo_expire_row: "undo_dispenser h us (expire_row h m d) = undo_dispenser h us d"
proof -
  have "undo_entry h us (expire_row h m d) = undo_entry h us d"
    by (rule undo_entry_keys) simp_all
  then show ?thesis
    by (auto simp: undo_dispenser_def restore_row_def clear_mark_def expire_row_def split: option.splits)
qed

lemma expired_expire_row:
  "d_expired (expire_row h m d) =
     (if int (d_expiration d) < m \<and> d_expired d = None then Some h else d_expired d)"
  by (simp add: expire_row_def)

section \<open>The laws\<close>

lemma block_txs_cong: "l_txs l = l_txs l' \<Longrightarrow> block_txs h l = block_txs h l'"
  by (simp add: block_txs_def)

lemma undo_block_below:
  assumes "sound_below h l"
  shows "undo_block h l = l"
proof (rule ledger_eqI)
  from assms have none: "block_txs h l = {}" and marks: "\<And>d. d \<in> set (l_dispensers l) \<Longrightarrow> d_expired d \<noteq> Some h"
    and undo: "\<And>u. u \<in> set (l_undo l) \<Longrightarrow> u_block u \<noteq> h"
    by (fastforce simp: sound_below_def below_height_def block_txs_def)+
  have "undo_entry h (l_undo l) d = None" for d
    using undo by (auto simp: undo_entry_def find_None_iff)
  then show "l_dispensers (undo_block h l) = l_dispensers l"
    using none marks by (auto simp: undo_block_parts undo_dispenser_def restore_row_def clear_mark_def
        intro!: map_idI)
qed (use assms in \<open>auto simp: undo_block_parts sound_below_def below_height_def block_txs_def
      intro!: filter_True\<close>)

lemma sound_below_Suc: "sound_below h l \<Longrightarrow> sound_below (Suc h) l"
  by (auto simp: sound_below_def below_height_def less_Suc_eq)

lemma add_txE:
  assumes "add_tx r l = Inr l'"
  obtains "l' = l\<lparr>l_txs := l_txs l @ [r]\<rparr>" "t_index r \<notin> t_index ` set (l_txs l)"
  using assms by (auto simp: add_tx_def split: if_splits)

lemma ledger_step_wf:
  assumes "ledger_step h l l'" "sound_below (Suc h) l"
  shows "ledger_wf l'"
  using assms(1)
proof cases
  case (edit i e)
  have wf: "ledger_wf l" and low: "\<And>d k. d \<in> set (l_dispensers l) \<Longrightarrow> d_expired d = Some k \<Longrightarrow> k \<le> h"
    using assms(2) by (auto simp: sound_below_def below_height_def less_Suc_eq_le)
  have marks: "case d_expired (extend_row i e h d) of None \<Rightarrow> True | Some k \<Rightarrow> u_block u \<le> k"
    if d: "d \<in> set (l_dispensers l)" and u: "u \<in> set (l_undo (record_undo i h l))"
      and key: "u_tx u = d_tx d" "u_addr u = d_addr d" for d u
  proof -
    from u consider "u \<in> set (l_undo l)"
      | d' where "d' \<in> set (l_dispensers l)" "extendable i h d'" "u_tx u = d_tx d'" "u_addr u = d_addr d'"
      using fold_undo_mem[of u h "filter (extendable i h) (l_dispensers l)" "l_undo l"]
      by (auto simp: record_undo_def)
    then show ?thesis
    proof cases
      case 1
      with wf d key have "case d_expired d of None \<Rightarrow> True | Some k \<Rightarrow> u_block u \<le> k"
        by (auto simp: ledger_wf_def)
      then show ?thesis by (auto simp: extend_row_def split: option.splits)
    next
      case 2
      with wf d key have "d' = d"
        by (auto simp: ledger_wf_def distinct_map inj_on_def)
      with 2 show ?thesis by (auto simp: extend_row_def extendable_def split: option.splits)
    qed
  qed
  have "u_expired u = None \<or> u_expired u = Some (u_block u)" if "u \<in> set (l_undo (record_undo i h l))" for u
    using that wf fold_undo_mem[of u h "filter (extendable i h) (l_dispensers l)" "l_undo l"]
    by (auto simp: record_undo_def ledger_wf_def extendable_def)
  with wf edit marks show ?thesis
    by (auto simp: ledger_wf_def extend_rows_def record_undo_def comp_def)
next
  case (dispenser d)
  with dispenser assms(2) show ?thesis
    by (auto simp: ledger_wf_def sound_below_def add_dispenser_def block_txs_def split: if_splits)
next
  case (expire m)
  with assms(2) show ?thesis
    by (auto simp: ledger_wf_def sound_below_def below_height_def soft_expire_def comp_def expired_expire_row
        less_Suc_eq_le split: option.splits)
qed (use assms(2) in \<open>auto simp: ledger_wf_def sound_below_def add_block_def add_output_def block_txs_def
      add_tx_def split: if_splits\<close>)

lemma ledger_step_below:
  assumes "sound_below (Suc h) l" "ledger_step h l l'"
  shows "sound_below (Suc h) l'"
proof -
  have "below_height (Suc h) l'"
    using assms(2)
  proof cases
    case (edit i e)
    with assms(1) show ?thesis
      by (auto simp: sound_below_def below_height_def extend_rows_def record_undo_def extend_row_def
          dest: fold_undo_mem split: if_splits)
  qed (use assms(1) in \<open>auto simp: sound_below_def below_height_def add_block_def add_tx_def add_output_def
      add_dispenser_def soft_expire_def expire_row_def split: if_splits\<close>)
  with assms ledger_step_wf show ?thesis by (auto simp: sound_below_def)
qed

lemma ledger_step_undo:
  assumes sound: "sound_below (Suc h) l" and "ledger_step h l l'"
  shows "undo_block h l' = undo_block h l"
  using assms(2)
proof cases
  case (tx r)
  obtain l': "l' = l\<lparr>l_txs := l_txs l @ [r]\<rparr>" and fresh: "t_index r \<notin> t_index ` set (l_txs l)"
    using tx(1) by (rule add_txE)
  have ids: "block_txs h l' = insert (t_index r) (block_txs h l)"
    using tx l' by (auto simp: block_txs_def)
  have refs: "\<forall>x \<in> set (l_outputs l). o_tx x \<in> t_index ` set (l_txs l)"
    "\<forall>x \<in> set (l_dispensers l). d_tx x \<in> t_index ` set (l_txs l)"
    using sound by (simp_all add: sound_below_def ledger_wf_def)
  have out: "\<And>x. x \<in> set (l_outputs l) \<Longrightarrow> o_tx x \<noteq> t_index r"
    and dis: "\<And>x. x \<in> set (l_dispensers l) \<Longrightarrow> d_tx x \<noteq> t_index r"
    using refs fresh by metis+
  have "filter (\<lambda>d. d_tx d \<noteq> t_index r \<and> d_tx d \<notin> block_txs h l) (l_dispensers l)
      = filter (\<lambda>d. d_tx d \<notin> block_txs h l) (l_dispensers l)"
    "filter (\<lambda>x. o_tx x \<noteq> t_index r \<and> o_tx x \<notin> block_txs h l) (l_outputs l)
      = filter (\<lambda>x. o_tx x \<notin> block_txs h l) (l_outputs l)"
    using out dis by (auto intro!: filter_cong)
  with l' ids tx(2) show ?thesis
    by (intro ledger_eqI) (simp_all add: undo_block_parts)
next
  case (edit i e)
  let ?l1 = "record_undo i h l"
  have dist: "distinct (map (\<lambda>d. (d_tx d, d_addr d)) (l_dispensers l))"
    using sound by (simp add: sound_below_def ledger_wf_def)
  have ids: "block_txs h l' = block_txs h l"
    using edit by (simp add: block_txs_def extend_rows_def record_undo_def)
  show ?thesis
  proof (rule ledger_eqI)
    show "l_dispensers (undo_block h l') = l_dispensers (undo_block h l)"
      unfolding undo_block_parts ids
      using edit undo_edit_row[OF _ dist]
      by (auto simp: extend_rows_def record_undo_def filter_map comp_def)
  qed (use edit ids in \<open>simp_all add: undo_block_parts extend_rows_def record_undo_def\<close>)
next
  case (expire m)
  have ids: "block_txs h l' = block_txs h l"
    using expire by (simp add: block_txs_def soft_expire_def)
  show ?thesis
    by (rule ledger_eqI)
      (use expire ids in \<open>simp_all add: undo_block_parts soft_expire_def filter_map comp_def undo_expire_row\<close>)
next
  case (block r)
  then show ?thesis
    by (intro ledger_eqI) (auto simp: undo_block_parts add_block_def block_txs_def split: if_splits)
next
  case (out r)
  then show ?thesis
    by (intro ledger_eqI) (auto simp: undo_block_parts add_output_def block_txs_def split: if_splits)
next
  case (dispenser d)
  then show ?thesis
    by (intro ledger_eqI) (auto simp: undo_block_parts add_dispenser_def block_txs_def split: if_splits)
qed

interpretation ledger_log: block_log ledger_step undo_block sound_below
  by unfold_locales (auto intro: undo_block_below sound_below_Suc ledger_step_below ledger_step_undo)

section \<open>The operations of a block\<close>

text \<open>
  The writes a block loop performs, each with the database operation that performs it.  An edit
  records the values it is about to overwrite before it extends.
\<close>

datatype block_op =
    WriteBlock block_insert
  | WriteTx tx_insert
  | WriteOutput output_insert
  | WriteDispenser open_dispenser
  | ExpireDispensers int
  | EditDispensers jsstr nat

definition extendEditedDispenser :: "(jsstr \<Rightarrow> jsstr) \<Rightarrow> nat \<Rightarrow> jsstr \<Rightarrow> nat \<Rightarrow> db_answer table_op" where
  "extendEditedDispenser collate h source expiration =
     db_bind (recordDispenserExtensionUndo collate source h) (\<lambda>recorded.
       if \<not> recorded then db_return Failed
       else db_bind (extendOpenDispenserExpirationBySource collate source expiration h) (\<lambda>extended.
         db_return (if extended then Stored else Failed)))"

fun run_block_op :: "(jsstr \<Rightarrow> jsstr) \<Rightarrow> nat \<Rightarrow> block_op \<Rightarrow> db_answer table_op" where
  "run_block_op collate h (WriteBlock b) = insertBlock collate b"
| "run_block_op collate h (WriteTx t) = insertTransaction collate t"
| "run_block_op collate h (WriteOutput out) = insertTransactionOutput collate out"
| "run_block_op collate h (WriteDispenser od) = insertDispenser collate od"
| "run_block_op collate h (ExpireDispensers m) = deleteOpenDispensers h m"
| "run_block_op collate h (EditDispensers source e) = extendEditedDispenser collate h source e"

text \<open>An operation belongs to block \<open>h\<close> by its height or by a transaction of that block.\<close>

fun op_of_block :: "nat \<Rightarrow> ledger \<Rightarrow> block_op \<Rightarrow> bool" where
  "op_of_block h l (WriteBlock b) \<longleftrightarrow> bi_index b = h"
| "op_of_block h l (WriteTx t) \<longleftrightarrow> ti_block t = h"
| "op_of_block h l (WriteOutput out) \<longleftrightarrow> oi_tx out \<in> block_txs h l"
| "op_of_block h l (WriteDispenser od) \<longleftrightarrow> od_tx od \<in> block_txs h l"
| "op_of_block h l (ExpireDispensers m) \<longleftrightarrow> True"
| "op_of_block h l (EditDispensers source e) \<longleftrightarrow> True"

abbreviation session_ledger :: "tables session \<Rightarrow> ledger" where
  "session_ledger s \<equiv> tb_ledger (db_tables s)"

inductive block_run :: "(jsstr \<Rightarrow> jsstr) \<Rightarrow> nat \<Rightarrow> tables session \<Rightarrow> tables session \<Rightarrow> bool"
  for collate :: "jsstr \<Rightarrow> jsstr" and h :: nat where
  refl: "block_run collate h s s"
| step: "block_run collate h s s' \<Longrightarrow> op_of_block h (session_ledger s') opn \<Longrightarrow>
    run_block_op collate h opn s' = (Inr a, s'') \<Longrightarrow> a = Stored \<or> a = Duplicated \<Longrightarrow>
    block_run collate h s s''"

text \<open>What an operation does to the ledger when it returns, and that it leaves it alone when it throws.\<close>

definition writes :: "'a table_op \<Rightarrow> (ledger \<Rightarrow> ledger \<Rightarrow> bool) \<Rightarrow> bool" where
  "writes m F \<longleftrightarrow>
     (\<forall>s r s'. m s = (r, s') \<longrightarrow>
        (case r of Inl _ \<Rightarrow> session_ledger s' = session_ledger s
                 | Inr _ \<Rightarrow> F (session_ledger s) (session_ledger s')))"

lemma writes_bind:
  assumes "keeps_ledger m" "\<And>x. writes (f x) F"
  shows "writes (db_bind m f) F"
  unfolding writes_def
proof (intro allI impI)
  fix s r s' assume run: "db_bind m f s = (r, s')"
  obtain a t where m: "m s = (a, t)" by fastforce
  with assms(1) have t: "session_ledger t = session_ledger s" by (auto simp: keeps_ledger_def)
  show "case r of Inl _ \<Rightarrow> session_ledger s' = session_ledger s
      | Inr _ \<Rightarrow> F (session_ledger s) (session_ledger s')"
  proof (cases a)
    case Inl with run m t show ?thesis by (auto simp: db_bind_def)
  next
    case (Inr x)
    with run m have "f x t = (r, s')" by (simp add: db_bind_def)
    with assms(2)[of x] t show ?thesis unfolding writes_def by metis
  qed
qed

lemma writes_return: "writes m F \<Longrightarrow> writes (db_bind m (\<lambda>_. db_return y)) F"
  unfolding writes_def db_bind_def db_return_def by (fastforce split: prod.splits sum.splits)

lemma writes_write:
  assumes "\<And>l l'. f l = Inr l' \<Longrightarrow> F l l'"
  shows "writes (sql_write (map_ledger f)) F"
  unfolding writes_def
proof (intro allI impI)
  fix s r s' assume run: "sql_write (map_ledger f) s = (r, s')"
  show "case r of Inl _ \<Rightarrow> session_ledger s' = session_ledger s
      | Inr _ \<Rightarrow> F (session_ledger s) (session_ledger s')"
  proof (cases r)
    case Inl with run show ?thesis by (auto dest: sql_write_Inl)
  next
    case (Inr u)
    with run have "map_ledger f (db_tables s) = Inr (db_tables s')" by (auto dest: sql_write_Inr)
    then obtain l' where l': "f (session_ledger s) = Inr l'" "(db_tables s)\<lparr>tb_ledger := l'\<rparr> = db_tables s'"
      by (auto simp: map_ledger_def split: sum.splits)
    from l'(2) have "session_ledger s' = l'" by (drule_tac f = tb_ledger in arg_cong) simp
    with Inr assms[OF l'(1)] show ?thesis by simp
  qed
qed

lemma fail_with_answer: "fail_with x s = (Inr a, s') \<Longrightarrow> a = x"
  by (auto simp: fail_with_def db_bind_def db_return_def split: prod.splits sum.splits if_splits)

text \<open>The shape of every insert: a write, and a handler that answers a duplicate or a failure.\<close>

lemma insert_answer:
  assumes w: "writes m F"
    and run: "db_catch (db_bind m (\<lambda>_. db_return Stored)) handler s = (Inr a, s')"
    and handler: "\<And>e t t' a. handler e t = (Inr a, t') \<Longrightarrow> a = Duplicated \<and> t' = t \<or> a = Failed \<or> a = PoisonRow"
    and a: "a = Stored \<or> a = Duplicated"
  shows "F (session_ledger s) (session_ledger s') \<or> session_ledger s' = session_ledger s"
proof -
  obtain r t where m: "db_bind m (\<lambda>_. db_return Stored) s = (r, t)" by fastforce
  show ?thesis
  proof (cases r)
    case (Inl e)
    with m writes_return[OF w, of Stored] have "session_ledger t = session_ledger s"
      by (fastforce simp: writes_def)
    moreover from run m Inl have "handler e t = (Inr a, s')" by (simp add: db_catch_def)
    then have "s' = t" using handler a by blast
    ultimately show ?thesis by simp
  next
    case (Inr b)
    with run m have "s' = t" by (simp add: db_catch_def)
    with m Inr writes_return[OF w, of Stored] show ?thesis by (fastforce simp: writes_def)
  qed
qed

lemma duplicate_handler:
  "duplicate_or_failed e t = (Inr a, t') \<Longrightarrow> a = Duplicated \<and> t' = t \<or> a = Failed \<or> a = PoisonRow"
  by (auto simp: duplicate_or_failed_def db_return_def dest: fail_with_answer split: if_splits)

lemma insertTransactionRow_writes:
  "writes (insertTransactionRow collate tx)
     (\<lambda>l l'. \<exists>r. t_index r = ti_index tx \<and> t_block r = ti_block tx \<and> add_tx r l = Inr l')"
  unfolding insertTransactionRow_def
  by (intro writes_bind keeps_ledger_intros writes_write)
    (auto intro!: keeps_ledger_intros exI split: prod.splits option.splits)

lemma insertDispenserRow_writes:
  "writes (insertDispenserRow collate od)
     (\<lambda>l l'. \<exists>d. d_tx d = od_tx od \<and> d_expired d = None \<and> add_dispenser d l = Inr l')"
  unfolding insertDispenserRow_def
  by (intro writes_bind keeps_ledger_intros writes_write)
    (auto simp: dispenser_insert_def intro!: keeps_ledger_intros exI split: option.splits if_splits)

lemma insertBlock_step:
  assumes "insertBlock collate b s = (Inr a, s')" "a = Stored \<or> a = Duplicated"
  shows "(\<exists>r. b_index r = bi_index b \<and> add_block r (session_ledger s) = Inr (session_ledger s'))
    \<or> session_ledger s' = session_ledger s"
proof -
  have w: "writes (db_bind (createTransaction collate (bi_hash b)) (\<lambda>blockHashId.
        db_bind (createTransaction collate (bi_previous b)) (\<lambda>previousBlockHashId.
        sql_write (map_ledger (add_block
          \<lparr>b_index = bi_index b, b_hash = blockHashId, b_time = bi_time b,
            b_previous = previousBlockHashId\<rparr>)))))
      (\<lambda>l l'. \<exists>r. b_index r = bi_index b \<and> add_block r l = Inr l')"
    by (intro writes_bind keeps_ledger_intros writes_write) (auto intro!: exI)
  show ?thesis
    by (rule insert_answer[OF w]) (use assms in \<open>auto simp: insertBlock_def db_bind_assoc dest: fail_with_answer\<close>)
qed

lemma insertTransactionOutput_step:
  assumes "insertTransactionOutput collate out s = (Inr a, s')" "a = Stored \<or> a = Duplicated"
  shows "(\<exists>r. o_tx r = oi_tx out \<and> add_output r (session_ledger s) = Inr (session_ledger s'))
    \<or> session_ledger s' = session_ledger s"
proof -
  have w: "writes (db_bind (createAddress collate (oi_destination out)) (\<lambda>destinationId.
        sql_write (map_ledger (add_output
          \<lparr>o_tx = oi_tx out, o_vout = oi_vout out, o_destination = destinationId,
            o_amount = bigIntSatoshiToDecimalsString (oi_amount out)\<rparr>))))
      (\<lambda>l l'. \<exists>r. o_tx r = oi_tx out \<and> add_output r l = Inr l')"
    by (intro writes_bind keeps_ledger_intros writes_write) (auto intro!: exI)
  show ?thesis
    by (rule insert_answer[OF w])
      (use assms in \<open>auto simp: insertTransactionOutput_def db_bind_assoc dest: duplicate_handler\<close>)
qed

lemma insertTransaction_step:
  assumes "insertTransaction collate tx s = (Inr a, s')" "a = Stored \<or> a = Duplicated"
  shows "(\<exists>r. t_index r = ti_index tx \<and> t_block r = ti_block tx
      \<and> add_tx r (session_ledger s) = Inr (session_ledger s'))
    \<or> session_ledger s' = session_ledger s"
  by (rule insert_answer[OF insertTransactionRow_writes])
    (use assms in \<open>auto simp: insertTransaction_def db_return_def dest: fail_with_answer split: if_splits\<close>)

lemma insertDispenser_step:
  assumes "insertDispenser collate od s = (Inr a, s')" "a = Stored \<or> a = Duplicated"
  shows "(\<exists>d. d_tx d = od_tx od \<and> d_expired d = None
      \<and> add_dispenser d (session_ledger s) = Inr (session_ledger s'))
    \<or> session_ledger s' = session_ledger s"
  by (rule insert_answer[OF insertDispenserRow_writes])
    (use assms in \<open>auto simp: insertDispenser_def dest: duplicate_handler\<close>)

lemma ledger_update_writes:
  "writes (ledger_update f) (\<lambda>l l'. \<exists>ix. l' = f ix l)"
  unfolding writes_def using ledger_update_result by (fastforce split: sum.splits)

lemma deleteOpenDispensers_step:
  assumes "deleteOpenDispensers h m s = (Inr a, s')" "a = Stored \<or> a = Duplicated"
  shows "session_ledger s' = soft_expire h m (session_ledger s) \<or> session_ledger s' = session_ledger s"
  using insert_answer[OF ledger_update_writes, of "\<lambda>_. soft_expire h m" duplicate_or_failed s a s']
    assms by (auto simp: deleteOpenDispensers_def dest: duplicate_handler)

lemma true_answer:
  assumes "db_catch (db_bind (ledger_update f) (\<lambda>_. db_return True)) (\<lambda>_. fail_with False) s = (Inr True, s')"
  shows "db_tables s' = (db_tables s)\<lparr>tb_ledger := f (tb_addresses (db_tables s)) (session_ledger s)\<rparr>"
  using assms
  by (auto simp: db_catch_def db_bind_def db_return_def dest!: ledger_update_Inr dest: fail_with_answer
      split: prod.splits sum.splits)

lemma extendEditedDispenser_step:
  assumes "extendEditedDispenser collate h source e s = (Inr a, s')" "a = Stored \<or> a = Duplicated"
  shows "\<exists>i. db_tables s' = (db_tables s)\<lparr>tb_ledger := extend_rows i e h (record_undo i h (session_ledger s))\<rparr>"
proof -
  from assms obtain t where
    1: "recordDispenserExtensionUndo collate source h s = (Inr True, t)" and
    2: "extendOpenDispenserExpirationBySource collate source e h t = (Inr True, s')"
    by (auto simp: extendEditedDispenser_def db_bind_Inr_iff db_return_def split: if_splits)
  note t = true_answer[OF 1[unfolded recordDispenserExtensionUndo_def]]
  note s' = true_answer[OF 2[unfolded extendOpenDispenserExpirationBySource_def]]
  show ?thesis using t s' by auto
qed

lemma run_block_op_step:
  assumes "run_block_op collate h opn s = (Inr a, s')" "a = Stored \<or> a = Duplicated"
    and "op_of_block h (session_ledger s) opn"
  shows "(ledger_step h)\<^sup>*\<^sup>* (session_ledger s) (session_ledger s')"
proof -
  have "ledger_step h (session_ledger s) (session_ledger s') \<or> session_ledger s' = session_ledger s"
  proof (cases opn)
    case (WriteBlock b) then show ?thesis
      using insertBlock_step[of collate b s a s'] assms by (auto intro: ledger_step.block)
  next
    case (WriteTx b) then show ?thesis
      using insertTransaction_step[of collate b s a s'] assms by (auto intro: ledger_step.tx)
  next
    case (WriteOutput b) then show ?thesis
      using insertTransactionOutput_step[of collate b s a s'] assms by (auto intro: ledger_step.out)
  next
    case (WriteDispenser b) then show ?thesis
      using insertDispenser_step[of collate b s a s'] assms by (auto intro: ledger_step.dispenser)
  next
    case (ExpireDispensers m) then show ?thesis
      using deleteOpenDispensers_step[of h m s a s'] assms by (auto intro: ledger_step.expire)
  next
    case (EditDispensers src e) then show ?thesis
      using extendEditedDispenser_step[of collate h src e s a s'] assms by (auto intro: ledger_step.edit)
  qed
  then show ?thesis by auto
qed

lemma block_run_steps:
  "block_run collate h s s' \<Longrightarrow> (ledger_step h)\<^sup>*\<^sup>* (session_ledger s) (session_ledger s')"
  by (induction rule: block_run.induct) (auto dest: run_block_op_step)

lemma block_run_undone:
  assumes "sound_below h (session_ledger s)" "block_run collate h s s'"
  shows "undo_block h (session_ledger s') = session_ledger s"
  using ledger_log.block_undone[OF assms(1) block_run_steps[OF assms(2)]] .

section \<open>Purging commutes with undoing\<close>

lemma find_block_other:
  "k \<noteq> h \<Longrightarrow> find (\<lambda>b. b_index b = k) (filter (\<lambda>b. b_index b \<noteq> h) bs) = find (\<lambda>b. b_index b = k) bs"
  by (induction bs) auto

lemma purge_ledger_parts [simp]:
  "l_blocks (purge_undo k (purge_dispensers k f l)) = l_blocks l"
  "l_txs (purge_undo k (purge_dispensers k f l)) = l_txs l"
  "l_outputs (purge_undo k (purge_dispensers k f l)) = l_outputs l"
  "l_dispensers (purge_undo k (purge_dispensers k f l)) = filter (\<lambda>d. \<not> purged l k f d) (l_dispensers l)"
  "l_undo (purge_undo k (purge_dispensers k f l)) = filter (\<lambda>u. k < u_block u) (l_undo l)"
  by (simp_all add: purge_undo_def purge_dispensers_def)

lemma undo_entry_purge:
  "k < h \<Longrightarrow> undo_entry h (filter (\<lambda>u. k < u_block u) us) d = undo_entry h us d"
  unfolding undo_entry_def by (induction us) auto

lemma undo_dispenser_purge:
  "k < h \<Longrightarrow> undo_dispenser h (filter (\<lambda>u. k < u_block u) us) d = undo_dispenser h us d"
  by (simp add: undo_dispenser_def restore_row_def undo_entry_purge cong: option.case_cong)

text \<open>A row of which block \<open>h\<close> overwrote something is open, or was marked no earlier than \<open>h\<close>.\<close>

lemma purged_undo_dispenser:
  assumes wf: "ledger_wf l" and k: "k < h" and d: "d \<in> set (l_dispensers l)"
  shows "purged (undo_block h l) k f (undo_dispenser h (l_undo l) d) = purged l k f d"
proof -
  have time: "mark_time (undo_block h l) x = mark_time l x" if "d_expired x = Some m" "m \<le> k" for x m
    using that k by (simp add: mark_time_def undo_block_parts find_block_other)
  show ?thesis
  proof (cases "undo_entry h (l_undo l) d")
    case None
    then show ?thesis using k time[of d]
      by (auto simp: undo_dispenser_def restore_row_def clear_mark_def purged_def split: option.splits)
  next
    case (Some u)
    then have u: "u \<in> set (l_undo l)" "u_block u = h" "u_tx u = d_tx d" "u_addr u = d_addr d"
      by (auto simp: undo_entry_def find_Some_iff)
    with wf d have "case d_expired d of None \<Rightarrow> True | Some m \<Rightarrow> h \<le> m"
      by (auto simp: ledger_wf_def)
    with k have "\<not> purged l k f d" by (auto simp: purged_def split: option.splits)
    moreover from wf u k have "\<not> purged (undo_block h l) k f (undo_dispenser h (l_undo l) d)"
      using Some by (auto simp: undo_dispenser_def restore_row_def clear_mark_def purged_def ledger_wf_def
          split: option.splits)
    ultimately show ?thesis by simp
  qed
qed

text \<open>The purge after block \<open>h\<close> was committed, undone with it, is the purge alone.\<close>

lemma undo_purge_commute:
  assumes "ledger_wf l" "k < h"
  shows "undo_block h (purge_undo k (purge_dispensers k f l)) = purge_undo k (purge_dispensers k f (undo_block h l))"
proof (rule ledger_eqI)
  let ?p = "purge_undo k (purge_dispensers k f l)"
  have ids: "block_txs h ?p = block_txs h l" by (simp add: block_txs_def)
  have "filter (\<lambda>d. \<not> purged (undo_block h l) k f (undo_dispenser h (l_undo l) d))
          (filter (\<lambda>d. d_tx d \<notin> block_txs h l) (l_dispensers l))
      = filter (\<lambda>d. \<not> purged l k f d) (filter (\<lambda>d. d_tx d \<notin> block_txs h l) (l_dispensers l))"
    by (rule filter_cong) (use purged_undo_dispenser[OF assms] in auto)
  then show "l_dispensers (undo_block h ?p) = l_dispensers (purge_undo k (purge_dispensers k f (undo_block h l)))"
    unfolding purge_ledger_parts undo_block_parts ids
    by (simp add: filter_map comp_def undo_dispenser_purge[OF assms(2)] conj_commute)
  show "l_undo (undo_block h ?p) = l_undo (purge_undo k (purge_dispensers k f (undo_block h l)))"
    unfolding purge_ledger_parts undo_block_parts by (simp add: conj_commute)
  show "l_outputs (undo_block h ?p) = l_outputs (purge_undo k (purge_dispensers k f (undo_block h l)))"
    unfolding purge_ledger_parts undo_block_parts ids ..
qed (simp_all add: undo_block_parts)

section \<open>Purging and capturing\<close>

lemma purge_result:
  assumes "purgeExpiredDispensers safeHeight f s = (r, s')" "db_saved s = None"
  shows "tb_addresses (db_tables s') = tb_addresses (db_tables s) \<and>
     (session_ledger s' = session_ledger s
      \<or> session_ledger s' = purge_dispensers (nat safeHeight) f (session_ledger s)
      \<or> session_ledger s' = purge_undo (nat safeHeight) (purge_dispensers (nat safeHeight) f (session_ledger s)))"
  using assms
  by (auto simp: purgeExpiredDispensers_def db_return_def db_catch_def db_bind_def fail_with_def
      in_transaction_def dest!: ledger_update_result split: if_splits prod.splits sum.splits)

lemma captures_blocks: "l_blocks l = l_blocks l' \<Longrightarrow> captures l = captures l'"
  by (simp add: captures_def mark_time_def fun_eq_iff cong: option.case_cong)

lemma purge_open_addresses:
  assumes "purgeExpiredDispensers safeHeight f s = (r, s')" "db_saved s = None"
    and "case g of None \<Rightarrow> True | Some fl' \<Rightarrow> \<exists>fl. f = Some fl \<and> fl \<le> fl'"
  shows "open_addresses g (db_tables s') = open_addresses g (db_tables s)"
proof -
  let ?l = "session_ledger s" and ?l' = "session_ledger s'"
  note p = purge_result[OF assms(1,2)]
  have "l_blocks ?l' = l_blocks ?l"
    using p by (auto simp: purge_undo_def purge_dispensers_def)
  then have same: "captures ?l' g = captures ?l g" by (metis captures_blocks)
  have "l_dispensers ?l' = l_dispensers ?l
      \<or> l_dispensers ?l' = filter (\<lambda>d. \<not> purged ?l (nat safeHeight) f d) (l_dispensers ?l)"
    using p by (auto simp: purge_undo_def purge_dispensers_def)
  then have "filter (captures ?l g) (l_dispensers ?l') = filter (captures ?l g) (l_dispensers ?l)"
    using purge_keeps_captured[OF assms(3), where s = "nat safeHeight" and l = ?l]
    unfolding purge_ledger_parts by auto
  with same p show ?thesis by (simp add: open_addresses_def)
qed

lemma source_oracles_mem:
  "top_ranked i xs = Some x \<Longrightarrow> x \<in> set xs"
  by (induction xs arbitrary: x) (auto split: option.splits if_splits)

lemma open_addresses_edit:
  assumes "extendEditedDispenser collate h source e s = (Inr Stored, s')"
  shows "open_addresses g (db_tables s) \<subseteq> open_addresses g (db_tables s')"
proof -
  obtain i where t: "db_tables s' = (db_tables s)\<lparr>tb_ledger := extend_rows i e h (record_undo i h (session_ledger s))\<rparr>"
    using extendEditedDispenser_step[OF assms] by auto
  let ?l = "session_ledger s" and ?l' = "session_ledger s'"
  have "l_blocks ?l' = l_blocks ?l" by (simp add: t extend_rows_def record_undo_def)
  then have "captures ?l' g = captures ?l g" by (metis captures_blocks)
  then have "captures ?l' g (extend_row i e h d)" if "captures ?l g d" for d
    using that by (simp add: extend_row_captures)
  then show ?thesis
    by (fastforce simp: open_addresses_def t extend_rows_def record_undo_def in_set_map_filter)
qed

text \<open>A row the block has just expired stays captured while the block's own time is within the grace floor.\<close>

lemma deleteOpenDispensers_Stored:
  assumes "deleteOpenDispensers h m s = (Inr Stored, s')"
  shows "db_tables s' = (db_tables s)\<lparr>tb_ledger := soft_expire h m (session_ledger s)\<rparr>"
  using assms
  by (auto simp: deleteOpenDispensers_def db_catch_def db_bind_def db_return_def
      dest!: ledger_update_Inr dest: duplicate_handler split: prod.splits sum.splits)

lemma captures_expire_row:
  assumes "find (\<lambda>b. b_index b = h) (l_blocks l) = Some b" "b_time b = Some t" "fl \<le> int t"
  shows "captures l (Some fl) (expire_row h m d) = captures l (Some fl) d"
  using assms by (auto simp: captures_def expire_row_def mark_time_def split: option.splits)

lemma open_addresses_expire:
  assumes "deleteOpenDispensers h m s = (Inr Stored, s')"
    and "find (\<lambda>b. b_index b = h) (l_blocks (session_ledger s)) = Some b" "b_time b = Some t" "fl \<le> int t"
  shows "open_addresses (Some fl) (db_tables s') = open_addresses (Some fl) (db_tables s)"
proof -
  let ?l = "session_ledger s" and ?l' = "session_ledger s'"
  note t = deleteOpenDispensers_Stored[OF assms(1)]
  have "l_blocks ?l' = l_blocks ?l" by (simp add: t soft_expire_def)
  then have same: "captures ?l' (Some fl) = captures ?l (Some fl)" by (metis captures_blocks)
  have "captures ?l' (Some fl) (expire_row h m d) = captures ?l (Some fl) d" for d
    unfolding same by (rule captures_expire_row[OF assms(2-4)])
  then show ?thesis
    by (auto simp: open_addresses_def t soft_expire_def in_set_map_filter)
qed

lemma oracle_pick_in_set:
  assumes "getOpenDispenserOracleAddressBySource collate src s = (Inr (Some (Some a)), s1)"
    and "getOpenDispenserOracleAddressesBySource collate src u = (Inr (Some as), u1)"
    and "db_tables u = db_tables s"
  shows "a \<in> set as"
proof -
  let ?i = "lookup_id collate (tb_addresses (db_tables s)) src"
  from assms(1) have "truthy_text (map_option snd (top_ranked ?i (source_oracles ?i (db_tables s)))) = Some a"
    by (auto simp: getOpenDispenserOracleAddressBySource_def db_catch_def db_bind_def db_return_def Let_def
        dest: sql_query_Inr fail_with_answer split: prod.splits sum.splits)
  then have a: "a \<noteq> []" "a \<in> snd ` set (source_oracles ?i (db_tables s))"
    by (force simp: truthy_text_Some dest: source_oracles_mem)+
  from assms(2) have "as = filter (\<lambda>a. a \<noteq> []) (sort_key collate (remdups (map snd (source_oracles ?i (db_tables s)))))"
    by (auto simp: getOpenDispenserOracleAddressesBySource_def db_catch_def db_bind_def db_return_def assms(3)
        dest: sql_query_Inr fail_with_answer split: prod.splits sum.splits)
  with a show ?thesis by simp
qed

end
