(* ===== verification/Op_Logic.thy ===== *)
theory Op_Logic
  imports Block_Log
begin

text \<open>
  Hoare triples for database operations, over any state.  A triple names what holds before, what
  holds of the answer and the state after a return, and what holds after a throw.  The second part
  states the contract of the writing operations: inside a transaction they either leave it open, or
  answer with their failure (or throw) after ending it.
\<close>

section \<open>Triples\<close>

definition triple :: "('s \<Rightarrow> bool) \<Rightarrow> ('e, 's, 'a) exop \<Rightarrow> ('a \<Rightarrow> 's \<Rightarrow> bool) \<Rightarrow> ('s \<Rightarrow> bool) \<Rightarrow> bool" where
  "triple P m Q E \<longleftrightarrow>
     (\<forall>s r s'. P s \<longrightarrow> m s = (r, s') \<longrightarrow> (case r of Inl _ \<Rightarrow> E s' | Inr x \<Rightarrow> Q x s'))"

lemma tripleI:
  assumes "\<And>s x s'. P s \<Longrightarrow> m s = (Inr x, s') \<Longrightarrow> Q x s'" "\<And>s e s'. P s \<Longrightarrow> m s = (Inl e, s') \<Longrightarrow> E s'"
  shows "triple P m Q E"
  using assms by (auto simp: triple_def split: sum.splits)

lemma triple_Inr: "triple P m Q E \<Longrightarrow> P s \<Longrightarrow> m s = (Inr x, s') \<Longrightarrow> Q x s'"
  unfolding triple_def by fastforce

lemma triple_Inl: "triple P m Q E \<Longrightarrow> P s \<Longrightarrow> m s = (Inl e, s') \<Longrightarrow> E s'"
  unfolding triple_def by fastforce

lemma triple_weaken:
  assumes "triple P' m Q' E'" "\<And>s. P s \<Longrightarrow> P' s" "\<And>x s. Q' x s \<Longrightarrow> Q x s" "\<And>s. E' s \<Longrightarrow> E s"
  shows "triple P m Q E"
  by (rule tripleI) (use assms triple_Inr[OF assms(1)] triple_Inl[OF assms(1)] in blast)+

lemma triple_return: "(\<And>s. P s \<Longrightarrow> Q x s) \<Longrightarrow> triple P (db_return x) Q E"
  by (auto simp: triple_def db_return_def)

lemma triple_throw: "(\<And>s. P s \<Longrightarrow> E s) \<Longrightarrow> triple P (db_throw e) Q E"
  by (auto simp: triple_def db_throw_def)

lemma triple_bind:
  assumes "triple P m R E" "\<And>x. triple (R x) (f x) Q E"
  shows "triple P (db_bind m f) Q E"
  using assms unfolding triple_def db_bind_def
  by (fastforce split: prod.splits sum.splits)

lemma triple_catch:
  assumes "triple P m Q E'" "\<And>e. triple E' (h e) Q E"
  shows "triple P (db_catch m h) Q E"
  using assms unfolding triple_def db_catch_def
  by (fastforce split: prod.splits sum.splits)

lemma triple_if:
  "(b \<Longrightarrow> triple P m Q E) \<Longrightarrow> (\<not> b \<Longrightarrow> triple P m' Q E) \<Longrightarrow> triple P (if b then m else m') Q E"
  by simp

lemma triple_conj:
  assumes "triple P m Q E" "triple P' m Q' E'"
  shows "triple (\<lambda>s. P s \<and> P' s) m (\<lambda>x s. Q x s \<and> Q' x s) (\<lambda>s. E s \<and> E' s)"
  using assms unfolding triple_def by (fastforce split: sum.splits)

lemma triple_pre: "(c \<Longrightarrow> triple P m Q E) \<Longrightarrow> triple (\<lambda>s. P s \<and> c) m Q E"
  unfolding triple_def by blast

lemma triple_false: "triple (\<lambda>_. False) m Q E"
  by (simp add: triple_def)

section \<open>Open and ended transactions\<close>

definition opened :: "'t \<Rightarrow> 't session \<Rightarrow> bool" where
  "opened T s \<longleftrightarrow> db_saved s = Some T"

definition ended :: "'t \<Rightarrow> 't session \<Rightarrow> bool" where
  "ended T s \<longleftrightarrow> db_saved s = None \<and> db_tables s = T"

text \<open>The failure answers \<open>R\<close> of an operation are given only after its transaction was undone.\<close>

definition guards :: "('a \<Rightarrow> bool) \<Rightarrow> ('t, 'a) dbop \<Rightarrow> bool" where
  "guards R m \<longleftrightarrow>
     (\<forall>T. triple (opened T) m (\<lambda>a s. if R a then ended T s else opened T s) (ended T))"

lemma triple_end: "triple (opened T) endTransaction (\<lambda>_. ended T) (ended T)"
  by (auto simp: triple_def opened_def ended_def dest: endTransaction_restores split: sum.splits)

lemma triple_end_again: "triple (ended T) endTransaction (\<lambda>_. ended T) (ended T)"
  by (auto simp: triple_def ended_def endTransaction_def split: sum.splits)

lemma triple_commit:
  "triple (\<lambda>s. opened T s \<and> db_tables s = U) commitTransaction
     (\<lambda>c s. if c then ended U s else ended T s) (\<lambda>_. False)"
  by (auto simp: triple_def opened_def ended_def dest: commitTransaction_atomic split: sum.splits)

lemma triple_begin:
  "triple (ended T) beginTransaction (\<lambda>_ s. opened T s \<and> db_tables s = T) (ended T)"
  by (auto simp: triple_def opened_def ended_def dest: beginTransaction_result split: sum.splits)

definition never_throws :: "('s, 'a) op \<Rightarrow> bool" where
  "never_throws m \<longleftrightarrow> (\<forall>s e s'. m s \<noteq> (Inl e, s'))"

definition answers :: "('a \<Rightarrow> bool) \<Rightarrow> ('s, 'a) op \<Rightarrow> bool" where
  "answers Q m \<longleftrightarrow> (\<forall>s x s'. m s = (Inr x, s') \<longrightarrow> Q x)"

lemma answers_bind: "(\<And>x. answers Q (f x)) \<Longrightarrow> answers Q (db_bind m f)"
  unfolding answers_def db_bind_Inr_iff by blast

lemma answers_return: "Q x \<Longrightarrow> answers Q (db_return x)"
  by (simp add: answers_def db_return_def)

lemma keeps_saved_ledger: "keeps_ledger m \<Longrightarrow> keeps_saved m"
  by (auto simp: keeps_ledger_def keeps_saved_def)

lemma keeps_saved_write: "keeps_saved (sql_write w)"
  by (auto simp: keeps_saved_def dest: sql_write_keeps_saved)

lemma keeps_saved_return: "keeps_saved (db_return x)"
  by (simp add: keeps_saved_def db_return_def)

lemma triple_keeps_saved:
  "keeps_saved m \<Longrightarrow> triple (opened T) m (\<lambda>_. opened T) (opened T)"
  unfolding keeps_saved_def triple_def opened_def by (fastforce split: sum.splits)

lemma guards_catch:
  assumes m: "keeps_saved m" "answers (\<lambda>x. \<not> R x) m" and h: "\<And>e. guards R (h e)"
  shows "guards R (db_catch m h)"
  unfolding guards_def
proof (intro allI triple_catch)
  fix T
  show "triple (opened T) m (\<lambda>a s. if R a then ended T s else opened T s) (opened T)"
    using m unfolding triple_def keeps_saved_def answers_def opened_def
    by (fastforce split: sum.splits)
  show "triple (opened T) (h e) (\<lambda>a s. if R a then ended T s else opened T s) (ended T)" for e
    using h by (simp add: guards_def)
qed

lemma guards_return: "\<not> R x \<Longrightarrow> guards R (db_return x)"
  by (simp add: guards_def triple_return)

lemma guards_fail_with: "R x \<Longrightarrow> guards R (fail_with x)"
  unfolding guards_def fail_with_def
  by (intro allI triple_bind[where R = "\<lambda>_. ended _"])
    (auto simp: triple_def opened_def ended_def in_transaction_def db_return_def
      dest: endTransaction_restores split: sum.splits)

lemma guards_duplicate: "R Failed \<Longrightarrow> \<not> R Duplicated \<Longrightarrow> guards R (duplicate_or_failed e)"
  by (simp add: duplicate_or_failed_def guards_return guards_fail_with)

lemmas guards_shape = guards_catch keeps_saved_bind keeps_saved_write keeps_saved_return keeps_saved_update
  answers_bind answers_return guards_duplicate guards_fail_with guards_return
  keeps_ledger_index[THEN keeps_saved_ledger]

lemma keeps_saved_transaction_row: "keeps_saved (insertTransactionRow collate tx)"
  unfolding insertTransactionRow_def
  by (auto intro!: guards_shape split: prod.splits option.splits)

lemma keeps_saved_dispenser_row: "keeps_saved (insertDispenserRow collate od)"
  unfolding insertDispenserRow_def
  by (auto intro!: guards_shape split: prod.splits option.splits)

text \<open>Every writing operation of a block keeps the contract.\<close>

lemma guards_operations:
  "guards (\<lambda>a. a = Failed) (insertEvent code json time)"
  "guards (\<lambda>a. a = Failed) (insertBlock collate b)"
  "guards (\<lambda>a. a = Failed \<or> a = PoisonRow) (insertTransaction collate tx)"
  "guards (\<lambda>a. a = Failed) (insertTransactionOutput collate out)"
  "guards (\<lambda>a. a = Failed) (insertDispenser collate od)"
  "guards (\<lambda>a. a = Failed) (deleteOpenDispensers h m)"
  "guards Not (recordDispenserExtensionUndo collate src h)"
  "guards Not (extendOpenDispenserExpirationBySource collate src e h)"
  unfolding insertEvent_def insertBlock_def insertTransaction_def insertTransactionOutput_def
    insertDispenser_def deleteOpenDispensers_def recordDispenserExtensionUndo_def
    extendOpenDispenserExpirationBySource_def
  by (auto intro!: guards_shape keeps_saved_transaction_row keeps_saved_dispenser_row)

lemma guardsD: "guards R m \<Longrightarrow> triple (opened T) m (\<lambda>a s. if R a then ended T s else opened T s) (ended T)"
  by (simp add: guards_def)

lemma guards_edit: "guards (\<lambda>a. a = Failed) (extendEditedDispenser collate h src e)"
  unfolding guards_def
proof
  fix T :: tables
  have answer: "triple (\<lambda>s. if Not x then ended T s else opened T s) (db_return (if x then Stored else Failed))
      (\<lambda>a s. if a = Failed then ended T s else opened T s) (ended T)" for x
    by (auto intro: triple_return)
  have "triple (\<lambda>s. if Not x then ended T s else opened T s)
      (if \<not> x then db_return Failed
       else db_bind (extendOpenDispenserExpirationBySource collate src e h)
              (\<lambda>y. db_return (if y then Stored else Failed)))
      (\<lambda>a s. if a = Failed then ended T s else opened T s) (ended T)" for x
    using triple_bind[OF guardsD[OF guards_operations(8)] answer] by (auto intro: triple_return)
  then show "triple (opened T) (extendEditedDispenser collate h src e)
      (\<lambda>a s. if a = Failed then ended T s else opened T s) (ended T)"
    unfolding extendEditedDispenser_def by (rule triple_bind[OF guardsD[OF guards_operations(7)]])
qed

end
