(* ===== verification/Reorg_Halt.thy ===== *)
theory Reorg_Halt
  imports Reorg_Undo Js_Date Op_Logic
begin

text \<open>
  The durable halt of the reorg walk (\<open>src/src/db/reorg_halt.js\<close>): the newest \<open>REORG_HALT\<close> or
  \<open>REORG_HALT_CLEARED\<close> event decides whether the database is halted, and the \<open>REORG\<close> events above the
  stored tip count the blocks that were rolled back and not parsed again.  An event's id is its
  position in the table, which grows with the \<open>AUTO_INCREMENT\<close> id.
\<close>

section \<open>Reading the marker\<close>

text \<open>Where the time of a halt comes from: its payload, the method a string or an array inherits under
  that name, or the row.\<close>

datatype halt_time = PayloadAt json | MethodAt | RowAt "int option"

record halt_state =
  hs_halted :: bool
  hs_id :: "nat option"
  hs_at :: "halt_time option"
  hs_reason :: "json option"
  hs_cleared_at :: "halt_time option"
  hs_cleared_reason :: "json option"
  hs_unaudited_clear :: bool

definition UNAUDITED_CLEAR_REASON :: json where
  "UNAUDITED_CLEAR_REASON =
     JStr (js ''unreadable or unaudited REORG_HALT_CLEARED row, treated as a live halt'')"

definition isAuditedClear :: "json option \<Rightarrow> bool" where
  "isAuditedClear payload =
     (case payload of
        Some (JObj ms) \<Rightarrow>
          (case json_member (js ''reason'') (JObj ms) of
             Some (JStr r) \<Rightarrow> 8 \<le> length (js_trim r)
           | _ \<Rightarrow> False)
      | _ \<Rightarrow> False)"

text \<open>\<open>payload && payload.k ? payload.k : null\<close>, for a name no value inherits.\<close>

definition truthy_member :: "jsstr \<Rightarrow> json option \<Rightarrow> json option" where
  "truthy_member k payload =
     (case payload of
        None \<Rightarrow> None
      | Some p \<Rightarrow> (case json_member k p of Some v \<Rightarrow> if json_truthy v then Some v else None | None \<Rightarrow> None))"

definition inherits_at :: "json option \<Rightarrow> bool" where
  "inherits_at payload = (case payload of Some (JStr s) \<Rightarrow> s \<noteq> [] | Some (JArr _) \<Rightarrow> True | _ \<Rightarrow> False)"

definition halt_time_of :: "json option \<Rightarrow> event_row \<Rightarrow> halt_time" where
  "halt_time_of payload row =
     (case truthy_member (js ''at'') payload of
        Some v \<Rightarrow> PayloadAt v
      | None \<Rightarrow> if inherits_at payload then MethodAt else RowAt (ev_time row))"

definition no_halt :: halt_state where
  "no_halt = \<lparr>hs_halted = False, hs_id = None, hs_at = None, hs_reason = None, hs_cleared_at = None,
     hs_cleared_reason = None, hs_unaudited_clear = False\<rparr>"

definition HALT_CODES :: "jsstr list" where
  "HALT_CODES = [js ''REORG_HALT'', js ''REORG_HALT_CLEARED'']"

text \<open>The rows with their ids, newest first.\<close>

definition newest_first :: "event_row list \<Rightarrow> (nat \<times> event_row) list" where
  "newest_first evs = rev (zip [1..<Suc (length evs)] evs)"

definition halt_row_state :: "nat \<times> event_row \<Rightarrow> halt_state" where
  "halt_row_state r =
     (let row = snd r; payload = json_parse (ev_data row);
          stamp = halt_time_of payload row; reason = truthy_member (js ''reason'') payload
      in if ev_code row = js ''REORG_HALT_CLEARED'' then
           (if isAuditedClear payload then no_halt\<lparr>hs_cleared_at := Some stamp, hs_cleared_reason := reason\<rparr>
            else no_halt\<lparr>hs_halted := True, hs_id := Some (fst r), hs_at := Some stamp,
                   hs_reason := Some UNAUDITED_CLEAR_REASON, hs_unaudited_clear := True\<rparr>)
         else no_halt\<lparr>hs_halted := True, hs_id := Some (fst r), hs_at := Some stamp, hs_reason := reason\<rparr>)"

definition halt_state_of :: "event_row list \<Rightarrow> halt_state" where
  "halt_state_of evs =
     (case find (\<lambda>r. ev_code (snd r) \<in> set HALT_CODES) (newest_first evs) of
        None \<Rightarrow> no_halt
      | Some r \<Rightarrow> halt_row_state r)"

definition readReorgHaltState :: "halt_state table_op" where
  "readReorgHaltState = sql_query (\<lambda>t. halt_state_of (tb_events t))"

definition isReorgHalted :: "bool table_op" where
  "isReorgHalted = db_bind readReorgHaltState (\<lambda>s. db_return (hs_halted s))"

definition getReorgHaltMarker :: "halt_state table_op" where
  "getReorgHaltMarker = db_bind readReorgHaltState (\<lambda>s. db_return (s\<lparr>hs_unaudited_clear := False\<rparr>))"

section \<open>Writing the marker\<close>

definition halt_json :: "jsstr \<Rightarrow> jsstr \<Rightarrow> jsstr" where
  "halt_json reason stamp =
     js ''{'' @ json_string (js ''reason'') @ js '':'' @ json_string reason
     @ js '','' @ json_string (js ''at'') @ js '':'' @ json_string stamp @ js ''}''"

text \<open>\<open>now\<close> is the wall clock in milliseconds.\<close>

definition markReorgHalted :: "int \<Rightarrow> jsstr \<Rightarrow> bool table_op" where
  "markReorgHalted now reason =
     db_bind readReorgHaltState (\<lambda>live.
       if hs_halted live \<and> \<not> hs_unaudited_clear live then db_return True
       else db_bind (insertEvent (js ''REORG_HALT'') (halt_json reason (toISOString now)) None) (\<lambda>written.
         if written = Failed then db_return False
         else db_catch isReorgHalted (\<lambda>_. db_return False)))"

section \<open>The rolled-back heights\<close>

definition SCAN_LIMIT :: nat where
  "SCAN_LIMIT = 10000"

definition marker_rows :: "event_row list \<Rightarrow> event_row list" where
  "marker_rows evs = take SCAN_LIMIT (filter (\<lambda>r. ev_code r = js ''REORG'') (rev evs))"

text \<open>\<open>Number(entry && entry.block_index)\<close>.\<close>

definition entry_height :: "json \<Rightarrow> js_number" where
  "entry_height entry =
     (if json_truthy entry
      then (case json_member (js ''block_index'') entry of None \<Rightarrow> NaN | Some v \<Rightarrow> json_Number v)
      else json_Number entry)"

text \<open>The heights of one marker; \<^const>\<open>None\<close> when it cannot be read.\<close>

definition marker_heights :: "event_row \<Rightarrow> rat list option" where
  "marker_heights row =
     (case json_parse (ev_data row) of
        Some (JArr entries) \<Rightarrow>
          (if list_all (\<lambda>e. is_finite (entry_height e)) entries
           then Some (map (\<lambda>e. js_value (entry_height e)) entries) else None)
      | _ \<Rightarrow> None)"

definition heights_above :: "int \<Rightarrow> event_row list \<Rightarrow> rat list option" where
  "heights_above tip rows =
     (if None \<in> set (map marker_heights rows) then None
      else Some (remdups (filter (\<lambda>h. of_int tip < h) (concat (map (\<lambda>r. the (marker_heights r)) rows)))))"

definition countReorgDeletesAboveTip :: "nat table_op" where
  "countReorgDeletesAboveTip =
     db_bind getLastBlockIndex (\<lambda>tip.
     db_bind (sql_query (\<lambda>t. marker_rows (tb_events t))) (\<lambda>rows.
       case heights_above tip rows of
         None \<Rightarrow> db_throw 0
       | Some hs \<Rightarrow> db_return (length hs)))"

text \<open>\<open>readRolledBackAboveTip\<close>: \<^const>\<open>None\<close> when the count cannot be read.\<close>

definition readRolledBackAboveTip :: "nat option table_op" where
  "readRolledBackAboveTip =
     db_catch (db_bind countReorgDeletesAboveTip (\<lambda>n. db_return (Some n))) (\<lambda>_. db_return None)"

section \<open>Payloads read back\<close>

lemma decimal_string_head: "0 < n \<Longrightarrow> \<exists>d ds. decimal_string n = d # ds \<and> d \<noteq> 48"
proof (induction n rule: decimal_string.induct)
  case (1 n)
  show ?case
  proof (cases "n < 10")
    case True
    with "1.prems" show ?thesis by (subst decimal_string.simps) simp
  next
    case False
    then have "0 < n div 10" by (simp add: div_greater_zero_iff)
    with 1 False obtain d ds where "decimal_string (n div 10) = d # ds" "d \<noteq> 48" by blast
    with False show ?thesis by (subst decimal_string.simps) simp
  qed
qed

lemma decimal_json_number: "json_number_text (decimal_string n)"
proof -
  obtain d ds where ds: "decimal_string n = d # ds" "n = 0 \<or> d \<noteq> 48" "n = 0 \<longrightarrow> ds = []"
    using decimal_string_head[of n] decimal_string.simps[of 0] by (cases n) auto
  have digits: "list_all is_digit (d # ds)" using decimal_string_digits(1)[of n] ds by simp
  then have "d \<noteq> 45" by (auto simp: is_digit_def)
  with digits ds show ?thesis
    by (auto simp: json_number_text_def span_digits_def takeWhile_all)
qed

lemma read_decimal:
  assumes "\<not> number_unit c"
  shows "read_number (decimal_string n @ c # r) = Some (JNum (js_Number (decimal_string n)), c # r)"
proof -
  have "list_all number_unit (decimal_string n)"
    using decimal_string_digits(1)[of n] by (auto simp: list_all_iff number_unit_def)
  then have "takeWhile number_unit (decimal_string n @ c # r) = decimal_string n"
    using assms by (simp add: list_all_iff)
  then show ?thesis by (simp add: read_number_def decimal_json_number)
qed

lemma skip_plain [simp]: "\<not> json_space u \<Longrightarrow> skip_space (u # r) = u # r"
  by (simp add: skip_space_def)

lemma skip_Nil [simp]: "skip_space [] = []"
  by (simp add: skip_space_def)

lemma json_space_simps [simp]:
  "\<not> json_space 34" "\<not> json_space 44" "\<not> json_space 58" "\<not> json_space 91" "\<not> json_space 93"
  "\<not> json_space 123" "\<not> json_space 125"
  by (simp_all add: json_space_def)

lemma read_value_decimal:
  assumes "\<not> number_unit c"
  shows "read_value (Suc k) (decimal_string n @ c # r) = Some (JNum (js_Number (decimal_string n)), c # r)"
proof -
  obtain d ds where ds: "decimal_string n = d # ds" using decimal_string_digits(2)[of n] by (cases "decimal_string n") auto
  then have "is_digit d" using decimal_string_digits(1)[of n] by simp
  then have "48 \<le> d" "d \<le> 57" "\<not> json_space d" by (auto simp: is_digit_def json_space_def)
  with read_decimal[OF assms, of n r] show ?thesis by (simp add: ds)
qed

abbreviation plain_text :: "jsstr \<Rightarrow> bool" where
  "plain_text s \<equiv> \<forall>u \<in> set s. u < 65536"

lemma read_value_string:
  "plain_text h \<Longrightarrow> read_value (Suc k) (json_string h @ r) = Some (JStr h, r)"
  by (simp add: json_string_def read_json_units del: read_chars.simps)

lemma read_member:
  assumes "plain_text key" "read_value k vs = Some (v, r)"
  shows "r = 125 # t \<Longrightarrow> read_members (Suc k) (json_string key @ 58 # vs) = Some ([(key, v)], t)"
    "r = 44 # t \<Longrightarrow> read_members k t = Some (ms, t') \<Longrightarrow>
      read_members (Suc k) (json_string key @ 58 # vs) = Some ((key, v) # ms, t')"
  using assms by (simp_all add: json_string_def read_json_units del: read_chars.simps)

lemma json_key: "json_string (js ''block_index'') = js ''\"block_index\"''"
    "json_string (js ''block_hash'') = js ''\"block_hash\"''"
  by (simp_all add: json_string_def js_def json_unit_def)

lemma plain_js [simp]: "plain_text (js s)"
  using js_less_256 by fastforce

definition reorg_payload :: "nat \<Rightarrow> jsstr \<Rightarrow> json" where
  "reorg_payload n h = JArr [JObj [(js ''block_index'', JNum (js_Number (decimal_string n))),
     (js ''block_hash'', JStr h)]]"

lemma parse_reorg_event:
  assumes "plain_text h"
  shows "json_parse (ev_data (reorg_event n h)) = Some (reorg_payload n h)"
proof -
  define s where "s = ev_data (reorg_event n h)"
  have data: "s = 91 # 123 # json_string (js ''block_index'') @ 58 # decimal_string n
      @ 44 # json_string (js ''block_hash'') @ 58 # json_string h @ [125, 93]"
    unfolding s_def reorg_event_def json_key by (simp add: js_def)
  obtain k where k: "2 * length s + 2 = Suc (Suc (Suc (Suc (Suc (Suc k)))))" by (simp add: data)
  have hash: "read_members (Suc (Suc k)) (json_string (js ''block_hash'') @ 58 # json_string h @ [125, 93])
      = Some ([(js ''block_hash'', JStr h)], [93])"
    by (rule read_member(1)[OF plain_js read_value_string[OF assms] HOL.refl])
  have "read_members (Suc (Suc (Suc k))) (json_string (js ''block_index'') @ 58 # decimal_string n
      @ 44 # json_string (js ''block_hash'') @ 58 # json_string h @ [125, 93])
    = Some ([(js ''block_index'', JNum (js_Number (decimal_string n))), (js ''block_hash'', JStr h)], [93])"
    by (rule read_member(2)[OF plain_js read_value_decimal HOL.refl hash]) (simp add: number_unit_def is_digit_def)
  then show ?thesis
    unfolding s_def [symmetric] json_parse_def k unfolding data
    by (simp add: reorg_payload_def json_string_def del: read_chars.simps read_members.simps)
qed

lemma reorg_event_height:
  assumes "plain_text h" "n < 2 ^ 53"
  shows "marker_heights (reorg_event n h) = Some [of_nat n]"
proof -
  have "js_Number (decimal_string n) = round_ratio False n 1"
    using js_Number_digits[OF decimal_string_digits] by (simp add: decimal_value_string)
  then show ?thesis
    using round_integer_value[OF assms(2)]
    by (simp add: marker_heights_def parse_reorg_event[OF assms(1)] reorg_payload_def entry_height_def)
qed

section \<open>The halt is durable\<close>

lemma newest_first_snoc: "newest_first (evs @ [e]) = (Suc (length evs), e) # newest_first evs"
proof -
  have "[1..<Suc (length (evs @ [e]))] = [1..<Suc (length evs)] @ [Suc (length evs)]"
    using upt_Suc_append[of 1 "Suc (length evs)"] by simp
  then show ?thesis unfolding newest_first_def by (simp del: upt_Suc)
qed

lemma halt_state_snoc:
  "halt_state_of (evs @ [e]) =
     (if ev_code e \<in> set HALT_CODES then halt_row_state (Suc (length evs), e) else halt_state_of evs)"
  by (simp add: halt_state_of_def newest_first_snoc)

lemma halt_code_simps [simp]:
  "js ''REORG'' \<notin> set HALT_CODES" "js ''PARSE_ERROR'' \<notin> set HALT_CODES" "js ''REORG_HALT'' \<in> set HALT_CODES"
  by (simp_all add: HALT_CODES_def)

text \<open>Deleting a block or storing one leaves the halt as it was.\<close>

lemma halt_state_block_removed [simp]:
  "halt_state_of (tb_events (block_removed h x t)) = halt_state_of (tb_events t)"
  by (simp add: block_removed_def append_event_def halt_state_snoc reorg_event_def Let_def split: option.split)

lemma readReorgHaltState_Inr:
  assumes "readReorgHaltState s = (Inr x, s')"
  shows "x = halt_state_of (tb_events (db_tables s)) \<and> db_tables s' = db_tables s \<and> db_saved s' = db_saved s"
  using assms sql_query_keeps[of _ s] sql_query_Inr[of _ s] by (auto simp: readReorgHaltState_def)

lemma isReorgHalted_Inr:
  assumes "isReorgHalted s = (Inr b, s')"
  shows "b = hs_halted (halt_state_of (tb_events (db_tables s))) \<and> db_tables s' = db_tables s \<and> db_saved s' = db_saved s"
  using assms by (auto simp: isReorgHalted_def db_bind_Inr_iff db_return_def dest!: readReorgHaltState_Inr)

text \<open>A confirmed halt is one that reads back; an unconfirmed one changed nothing but events.\<close>

lemma markReorgHalted_confirmed:
  assumes "markReorgHalted now reason s = (Inr True, s')"
  shows "hs_halted (halt_state_of (tb_events (db_tables s')))"
proof -
  obtain live s1 where read: "readReorgHaltState s = (Inr live, s1)"
    and rest: "(if hs_halted live \<and> \<not> hs_unaudited_clear live then db_return True
       else db_bind (insertEvent (js ''REORG_HALT'') (halt_json reason (toISOString now)) None) (\<lambda>written.
         if written = Failed then db_return False
         else db_catch isReorgHalted (\<lambda>_. db_return False))) s1 = (Inr True, s')"
    using assms by (auto simp: markReorgHalted_def db_bind_Inr_iff)
  show ?thesis
  proof (cases "hs_halted live \<and> \<not> hs_unaudited_clear live")
    case True
    with rest read show ?thesis by (auto simp: db_return_def dest!: readReorgHaltState_Inr)
  next
    case False
    with rest have "\<exists>s2. isReorgHalted s2 = (Inr True, s')"
      by (auto simp: db_bind_Inr_iff db_return_def db_catch_Inr_iff split: if_splits)
    then obtain s2 where "isReorgHalted s2 = (Inr True, s')" by blast
    from isReorgHalted_Inr[OF this] show ?thesis by simp
  qed
qed

section \<open>The count is the depth\<close>

text \<open>The heights whose \<open>REORG\<close> marker the log holds.\<close>

definition well_marked :: "event_row list \<Rightarrow> bool" where
  "well_marked evs \<longleftrightarrow>
     (\<forall>r \<in> set evs. ev_code r = js ''REORG'' \<longrightarrow> (\<exists>n h. r = reorg_event n h \<and> n < 2 ^ 53 \<and> plain_text h))"

definition marked :: "event_row list \<Rightarrow> nat set" where
  "marked evs = {n. \<exists>r \<in> set evs. ev_code r = js ''REORG'' \<and> marker_heights r = Some [of_nat n]}"

definition rolled_back :: "int \<Rightarrow> event_row list \<Rightarrow> nat set" where
  "rolled_back tip evs = {n \<in> marked evs. tip < int n}"

lemma well_marked_height:
  assumes "well_marked evs" "r \<in> set evs" "ev_code r = js ''REORG''"
  shows "\<exists>n. marker_heights r = Some [of_nat n]"
  using assms reorg_event_height unfolding well_marked_def by blast

lemma marked_heights:
  assumes "well_marked evs" and rows: "set rows = {r \<in> set evs. ev_code r = js ''REORG''}"
  shows "None \<notin> set (map marker_heights rows)"
    "set (concat (map (\<lambda>r. the (marker_heights r)) rows)) = of_nat ` marked evs"
proof -
  have h: "\<exists>n. marker_heights r = Some [of_nat n]" if "r \<in> set rows" for r
    using well_marked_height[OF assms(1)] that rows by simp
  then show "None \<notin> set (map marker_heights rows)" by force
  show "set (concat (map (\<lambda>r. the (marker_heights r)) rows)) = of_nat ` marked evs"
  proof (intro set_eqI iffI)
    fix x assume "x \<in> set (concat (map (\<lambda>r. the (marker_heights r)) rows))"
    then obtain r where r: "r \<in> set rows" "x \<in> set (the (marker_heights r))" by auto
    with h obtain n where "marker_heights r = Some [of_nat n]" by blast
    with r rows show "x \<in> of_nat ` marked evs" by (auto simp: marked_def)
  next
    fix x :: rat assume "x \<in> of_nat ` marked evs"
    with rows show "x \<in> set (concat (map (\<lambda>r. the (marker_heights r)) rows))" by (force simp: marked_def)
  qed
qed

lemma count_is_depth:
  assumes wm: "well_marked evs" and short: "length (filter (\<lambda>r. ev_code r = js ''REORG'') evs) \<le> SCAN_LIMIT"
  shows "\<exists>hs. heights_above tip (marker_rows evs) = Some hs \<and> length hs = card (rolled_back tip evs)"
proof -
  let ?hs = "concat (map (\<lambda>r. the (marker_heights r)) (marker_rows evs))"
  have "length (filter (\<lambda>r. ev_code r = js ''REORG'') (rev evs)) \<le> SCAN_LIMIT"
    using short by (simp add: rev_filter [symmetric])
  then have rows: "set (marker_rows evs) = {r \<in> set evs. ev_code r = js ''REORG''}"
    by (simp add: marker_rows_def)
  note m = marked_heights[OF wm rows]
  have "length (remdups (filter (\<lambda>h. of_int tip < h) ?hs)) = card (set (filter (\<lambda>h. of_int tip < h) ?hs))"
    by (simp add: length_remdups_card_conv)
  also have "set (filter (\<lambda>h. of_int tip < h) ?hs) = of_nat ` rolled_back tip evs"
  proof -
    have "(of_int tip < (of_nat n :: rat)) = (tip < int n)" for n
      by (metis of_int_less_iff of_int_of_nat_eq)
    then show ?thesis unfolding set_filter m(2) rolled_back_def by auto
  qed
  also have "card (of_nat ` rolled_back tip evs :: rat set) = card (rolled_back tip evs)"
    by (rule card_image) (simp add: inj_on_def)
  finally show ?thesis using m(1) by (simp add: heights_above_def)
qed

end
