(* ===== verification/Chain_Identity.thy ===== *)
theory Chain_Identity
  imports Decoder_Config Js_Number
begin

text \<open>
  Which chain an endpoint serves (\<open>src/src/protocol/chain_identity.js\<close>): the network tier a node
  reports, and the hash of its block 0 against the pin of the coin registry.  Both tests answer a
  reason for the log or nothing; the model keeps whether there is a reason.
\<close>

definition CHAIN_TO_NETWORK :: "(string \<times> string) list" where
  "CHAIN_TO_NETWORK =
     [(''main'', ''mainnet''), (''test'', ''testnet''), (''testnet3'', ''testnet''),
      (''testnet4'', ''testnet''), (''regtest'', ''regtest''), (''signet'', ''signet'')]"

text \<open>An object literal also answers to the names it inherits, with values that are no network.\<close>

definition OBJECT_MEMBERS :: "string list" where
  "OBJECT_MEMBERS =
     [''constructor'', ''__defineGetter__'', ''__defineSetter__'', ''hasOwnProperty'',
      ''__lookupGetter__'', ''__lookupSetter__'', ''isPrototypeOf'', ''propertyIsEnumerable'',
      ''toString'', ''valueOf'', ''__proto__'', ''toLocaleString'']"

datatype tier = Tier jsstr | NoTier | InheritedMember

definition reported_tier :: "jsstr \<Rightarrow> tier" where
  "reported_tier chain =
     (case map_of (map (\<lambda>(c, n). (js c, js n)) CHAIN_TO_NETWORK) chain of
        Some n \<Rightarrow> Tier n
      | None \<Rightarrow> if chain \<in> set (map js OBJECT_MEMBERS) then InheritedMember else NoTier)"

text \<open>The reported chain is \<^const>\<open>None\<close> when it is missing or no string.\<close>

definition chainTierMismatch :: "string \<Rightarrow> jsstr option \<Rightarrow> bool" where
  "chainTierMismatch network reportedChain =
     (case truthy_text reportedChain of
        None \<Rightarrow> False
      | Some c \<Rightarrow>
          (case reported_tier c of
             Tier n \<Rightarrow> n \<noteq> js network
           | NoTier \<Rightarrow> False
           | InheritedMember \<Rightarrow> True))"

definition chainFieldMissing :: "jsstr option \<Rightarrow> bool" where
  "chainFieldMissing reportedChain \<longleftrightarrow> truthy_text reportedChain = None"

text \<open>Hash texts are hexadecimal, so lower case is that of ASCII letters.\<close>

definition lower_hash :: "jsstr \<Rightarrow> jsstr" where
  "lower_hash s = map (\<lambda>u. if 65 \<le> u \<and> u \<le> 90 then u + 32 else u) s"

definition chainGenesisMismatch :: "jsstr option \<Rightarrow> jsstr option \<Rightarrow> bool" where
  "chainGenesisMismatch pinnedHash reportedHash =
     (case (truthy_text pinnedHash, truthy_text reportedHash) of
        (Some p, Some r) \<Rightarrow> lower_hash p \<noteq> lower_hash r
      | _ \<Rightarrow> False)"

definition chainGenesisUnpinned :: "jsstr option \<Rightarrow> bool" where
  "chainGenesisUnpinned pinnedHash \<longleftrightarrow> truthy_text pinnedHash = None"

lemma genesis_mismatch_pinned: "chainGenesisMismatch p r \<Longrightarrow> \<not> chainGenesisUnpinned p"
  by (auto simp: chainGenesisMismatch_def chainGenesisUnpinned_def split: option.splits)

text \<open>A tier that is refused names another network than the configured one.\<close>

lemma tier_agrees: "reported_tier c = Tier (js n) \<Longrightarrow> \<not> chainTierMismatch n (Some c)"
  by (cases c) (auto simp: chainTierMismatch_def)

end
