(* ===== verification/Reorg_Walk.thy ===== *)
theory Reorg_Walk
  imports Reorg_Halt Chain_Identity Payload
begin

text \<open>
  The reorg walk (\<open>src/src/XChainDecoder/reorg_verification.js\<close> with \<open>reorg_verification/*.js\<close> and
  \<open>reorg_halt.js\<close>): from the stored tip down, each block the node no longer has is deleted, once the
  node's header of that very block reports confirmations -1, until a height where both agree.  A
  rollback deeper than the window in which expired dispensers can be put back halts the database
  durably, and only the evidence-only finish goes on.

  The node answers each call of a run by the number of the call, so it may change its mind between
  any two; so does the clock.  Log lines and pauses are left out; error texts are kept where they are
  stored in the halt marker.
\<close>

section \<open>The node, the configuration and the run\<close>

text \<open>
  \<open>getblockhash\<close>: a string, another value, or a failed call; \<open>getblockheader\<close>: the confirmations when
  they are an integer, an unusable answer, the error -5 (not found), or another failure;
  \<open>getblockchaininfo\<close>: the fields with the chain name, a falsy answer, or a failure.
\<close>

datatype hash_answer = HashText jsstr | HashOther | HashFailed
datatype header_answer = Header "int option" | HeaderUnusable | HeaderNotFound | HeaderFailed
datatype info_answer = Info chain_info "jsstr option" | InfoFalsy | InfoFailed

record chain_node =
  cn_hash :: "nat \<Rightarrow> int \<Rightarrow> hash_answer"
  cn_header :: "nat \<Rightarrow> jsstr option \<Rightarrow> header_answer"
  cn_info :: "nat \<Rightarrow> info_answer"
  cn_now :: "nat \<Rightarrow> int"

record reorg_config =
  rc_network :: string
  rc_safeDepth :: nat
  rc_start :: int
  rc_genesis :: "jsstr option"

datatype away_proof = Proven | NotKnown | OnActiveChain int | NoProof

datatype wait_class = UnprovenFork | SameChain | Unread | NodeBehind

text \<open>What a run throws; the refusals that wait carry the stored block.\<close>

datatype reorg_error =
    HaltUnread errno
  | HaltedRefusal
  | DepthUnread
  | SafeDepthHalt jsstr
  | ReorgWait wait_class int "jsstr option"
  | DeleteFailed

text \<open>Why the finish of a halted walk stopped above the fork point.\<close>

datatype halt_stop =
    TipUnread
  | BlockUnread int
  | HashUnread int
  | HashDisagrees int
  | NoForkPoint int int
  | AtNodeTip int int
  | NotProven int away_proof
  | NotDeleted int

record proof_cache =
  pc_key :: jsstr
  pc_at :: int
  pc_result :: away_proof

text \<open>
  The decoder's fields the walk touches, the session, the count of calls made so far, and the walk's
  own variables: \<open>nodeTip\<close>, \<open>retryCount\<close>, \<open>blocksDeleted\<close>, \<open>walk.haltError\<close>, \<open>walk.haltStop\<close>.
\<close>

record reorg_run =
  rw_db :: "tables session"
  rw_tick :: nat
  rw_reorgHalted :: bool
  rw_reorgHaltReason :: "json option"
  rw_reorgHaltAt :: "halt_time option"
  rw_reorgHaltCheckedAt :: int
  rw_markerPersisted :: "bool option"
  rw_forkProofCache :: "proof_cache option"
  rw_chainGenesisCheckedAt :: int
  rw_reorgCount :: nat
  rw_lastReorgDepth :: "nat option"
  wk_nodeTip :: "int option"
  wk_retryCount :: nat
  wk_deleted :: "(nat \<times> jsstr option) list"
  wk_haltError :: "jsstr option"
  wk_haltStop :: "halt_stop option"

type_synonym 'a reorg = "(reorg_error, reorg_run, 'a) exop"

definition get_run :: "(reorg_run \<Rightarrow> 'a) \<Rightarrow> 'a reorg" where
  "get_run f w = (Inr (f w), w)"

definition set_run :: "(reorg_run \<Rightarrow> reorg_run) \<Rightarrow> unit reorg" where
  "set_run f w = (Inr (), f w)"

text \<open>A call to the node, or a reading of the clock.\<close>

definition asking :: "(nat \<Rightarrow> 'a) \<Rightarrow> 'a reorg" where
  "asking f w = (Inr (f (rw_tick w)), w\<lparr>rw_tick := Suc (rw_tick w)\<rparr>)"

text \<open>A database operation inside a \<open>try\<close>: \<^const>\<open>None\<close> when it threw.\<close>

definition try_db :: "'a table_op \<Rightarrow> 'a option reorg" where
  "try_db m w =
     (case m (rw_db w) of
        (Inl _, s) \<Rightarrow> (Inr None, w\<lparr>rw_db := s\<rparr>)
      | (Inr x, s) \<Rightarrow> (Inr (Some x), w\<lparr>rw_db := s\<rparr>))"

text \<open>A stored block by a height that may be negative.\<close>

definition read_block :: "int \<Rightarrow> block_view option table_op" where
  "read_block h = (if h < 0 then retry_read MAX_ATTEMPTS (\<lambda>_. None) else getBlockByIndex (nat h))"

section \<open>The durable halt\<close>

definition safeDepthFor :: "reorg_config \<Rightarrow> nat" where
  "safeDepthFor cfg = (if rc_safeDepth cfg = 0 then DISPENSER_EXPIRE_SAFE_DEPTH else rc_safeDepth cfg)"

fun mark_attempts :: "nat \<Rightarrow> chain_node \<Rightarrow> jsstr \<Rightarrow> bool reorg" where
  "mark_attempts 0 node reason = db_return False"
| "mark_attempts (Suc n) node reason =
     db_bind (asking (cn_now node)) (\<lambda>now.
     db_bind (try_db (markReorgHalted now reason)) (\<lambda>r.
       if r = Some True then db_return True else mark_attempts n node reason))"

definition haltReorg :: "chain_node \<Rightarrow> jsstr \<Rightarrow> unit reorg" where
  "haltReorg node reason =
     db_bind (asking (cn_now node)) (\<lambda>stamp.
     db_bind (asking (cn_now node)) (\<lambda>checked.
     db_bind (set_run (\<lambda>w. w\<lparr>rw_reorgHalted := True, rw_reorgHaltReason := Some (JStr reason),
       rw_reorgHaltAt := Some (PayloadAt (JStr (toISOString stamp))), rw_reorgHaltCheckedAt := checked\<rparr>)) (\<lambda>_.
     db_bind (mark_attempts 2 node reason) (\<lambda>persisted.
     set_run (\<lambda>w. w\<lparr>rw_markerPersisted := Some persisted\<rparr>)))))"

definition raiseSafeDepthHalt :: "chain_node \<Rightarrow> jsstr \<Rightarrow> unit reorg" where
  "raiseSafeDepthHalt node msg =
     db_bind (haltReorg node msg) (\<lambda>_.
     db_bind (get_run rw_markerPersisted) (\<lambda>persisted.
       if persisted = Some True then set_run (\<lambda>w. w\<lparr>wk_haltError := Some msg\<rparr>)
       else db_throw (SafeDepthHalt msg)))"

text \<open>The texts stored with a halt.\<close>

definition int_text :: "int \<Rightarrow> jsstr" where
  "int_text i = (if i < 0 then js ''-'' else []) @ decimal_string (nat \<bar>i\<bar>)"

definition RESET_RECOVERY :: jsstr where
  "RESET_RECOVERY = js ''`xchain-node reset xchain-decoder <chain> <network> --with-indexer --yes`''"

definition SAFE_DEPTH_HALT_RECOVERY :: jsstr where
  "SAFE_DEPTH_HALT_RECOVERY =
     js ''Once the halt marker is durable the rollback goes on down to the fork point only ''
     @ js ''where the node confirms the fork point with two agreeing readings, reports confirmations -1 for every ''
     @ js ''deleted stored block, and the whole rollback fits two safe-depth windows, and the decoder parks. Recovery: ''
     @ RESET_RECOVERY
     @ js '' (a full re-decode of this decoder and its indexer). clear-reorg-halt refuses this halt whenever it left ''
     @ js ''rolled-back blocks above the stored tip: it needs that range re-parsed, and a halted decoder never re-parses it.''"

definition depth_message :: "nat \<Rightarrow> nat \<Rightarrow> nat \<Rightarrow> int \<Rightarrow> jsstr" where
  "depth_message safeDepth priorDepth deleted lastBlockIndex =
     js ''verifyReorg: reorg depth exceeds the dispenser safe-depth window ''
     @ js ''(DISPENSER_EXPIRE_SAFE_DEPTH='' @ decimal_string safeDepth @ js ''). Already rolled back ''
     @ decimal_string (priorDepth + deleted) @ js '' blocks ('' @ decimal_string deleted
     @ js '' in this run, resumed from '' @ decimal_string priorDepth @ js '' already deleted above the tip); ''
     @ js ''soft-expired dispenser rows for block height ''
     @ int_text lastBlockIndex @ js '' and below may already have been hard-purged, so this database can no ''
     @ js ''longer match a from-scratch sync. Aborting. '' @ SAFE_DEPTH_HALT_RECOVERY"

definition gap_message :: "nat \<Rightarrow> int \<Rightarrow> jsstr \<Rightarrow> int \<Rightarrow> nat \<Rightarrow> jsstr" where
  "gap_message safeDepth nodeTip boundary aboveTip already =
     js ''verifyReorg: the node reports confirmations -1 for stored block '' @ int_text nodeTip
     @ js '' ('' @ boundary @ js ''), proving the stored chain forked at or below the node tip, but the rollback above it needs more than ''
     @ int_text aboveTip @ js '' block(s)''
     @ (if 0 < already then js '' with '' @ decimal_string already @ js '' block(s) already rolled back'' else [])
     @ js '', which exceeds the dispenser safe-depth window ''
     @ js ''(DISPENSER_EXPIRE_SAFE_DEPTH='' @ decimal_string safeDepth @ js ''). Halting before rolling back past the window. ''
     @ SAFE_DEPTH_HALT_RECOVERY"

definition assertWithinSafeDepth :: "reorg_config \<Rightarrow> chain_node \<Rightarrow> nat \<Rightarrow> int \<Rightarrow> unit reorg" where
  "assertWithinSafeDepth cfg node priorDepth lastBlockIndex w =
     (if wk_haltError w \<noteq> None then (Inr (), w)
      else if safeDepthFor cfg \<le> priorDepth + length (wk_deleted w)
      then raiseSafeDepthHalt node (depth_message (safeDepthFor cfg) priorDepth (length (wk_deleted w)) lastBlockIndex) w
      else (Inr (), w))"

section \<open>Proof that a block was reorganised away\<close>

definition UNPROVEN_RECHECK_MS :: int where
  "UNPROVEN_RECHECK_MS = 60000"

definition header_proof :: "header_answer \<Rightarrow> away_proof" where
  "header_proof a =
     (case a of
        Header (Some c) \<Rightarrow> if c = - 1 then Proven else if 0 \<le> c then OnActiveChain c else NoProof
      | Header None \<Rightarrow> NoProof
      | HeaderUnusable \<Rightarrow> NoProof
      | HeaderNotFound \<Rightarrow> NotKnown
      | HeaderFailed \<Rightarrow> NoProof)"

definition proveReorgedAway :: "chain_node \<Rightarrow> jsstr option \<Rightarrow> away_proof reorg" where
  "proveReorgedAway node hash =
     db_bind (asking (\<lambda>k. cn_header node k hash)) (\<lambda>a. db_return (header_proof a))"

definition null_text :: "jsstr option \<Rightarrow> jsstr" where
  "null_text x = (case x of None \<Rightarrow> js ''null'' | Some s \<Rightarrow> s)"

definition proveForkReorgedAway :: "chain_node \<Rightarrow> jsstr option \<Rightarrow> int option \<Rightarrow> away_proof reorg" where
  "proveForkReorgedAway node hash nodeTip =
     (let key = null_text (map_option int_text nodeTip) @ js '':'' @ null_text hash
      in db_bind (asking (cn_now node)) (\<lambda>now.
         db_bind (get_run rw_forkProofCache) (\<lambda>cached.
           let ask = db_bind (proveReorgedAway node hash) (\<lambda>result.
                 db_bind (set_run (\<lambda>w. w\<lparr>rw_forkProofCache :=
                   (if result = Proven then None else Some \<lparr>pc_key = key, pc_at = now, pc_result = result\<rparr>)\<rparr>))
                   (\<lambda>_. db_return result))
           in (case cached of
                 Some c \<Rightarrow> if pc_key c = key \<and> pc_at c \<le> now \<and> now - pc_at c < UNPROVEN_RECHECK_MS
                           then db_return (pc_result c) else ask
               | None \<Rightarrow> ask))))"

fun refusal_class :: "away_proof \<Rightarrow> wait_class" where
  "refusal_class NotKnown = UnprovenFork"
| "refusal_class (OnActiveChain _) = SameChain"
| "refusal_class _ = Unread"

definition requireReorgProof :: "chain_node \<Rightarrow> int \<Rightarrow> jsstr option \<Rightarrow> int option \<Rightarrow> unit reorg" where
  "requireReorgProof node height hash nodeTip =
     db_bind (proveForkReorgedAway node hash nodeTip) (\<lambda>p.
       if p = Proven then db_return () else db_throw (ReorgWait (refusal_class p) height hash))"

text \<open>The stored block at the node's own tip; the answer is its hash.\<close>

definition requireAboveTipForkProof :: "chain_node \<Rightarrow> int \<Rightarrow> jsstr option \<Rightarrow> int \<Rightarrow> jsstr reorg" where
  "requireAboveTipForkProof node height hash nodeTip =
     (let raiseAboveTipWait = (\<lambda>c. db_throw (ReorgWait c height hash))
      in db_bind (try_db (read_block nodeTip)) (\<lambda>r.
         case r of
           Some (Some b) \<Rightarrow>
             (case truthy_text (bv_hash b) of
                None \<Rightarrow> raiseAboveTipWait Unread
              | Some boundary \<Rightarrow>
                  db_bind (asking (\<lambda>k. cn_hash node k nodeTip)) (\<lambda>a.
                    case a of
                      HashText nodeHash \<Rightarrow>
                        if nodeHash = [] then raiseAboveTipWait Unread
                        else if boundary = nodeHash then raiseAboveTipWait NodeBehind
                        else db_bind (requireReorgProof node nodeTip (Some boundary) (Some nodeTip))
                               (\<lambda>_. db_return boundary)
                    | _ \<Rightarrow> raiseAboveTipWait Unread))
         | _ \<Rightarrow> raiseAboveTipWait Unread))"

definition refuseOrHaltDeepGap ::
    "reorg_config \<Rightarrow> chain_node \<Rightarrow> nat \<Rightarrow> int \<Rightarrow> jsstr option \<Rightarrow> int \<Rightarrow> unit reorg" where
  "refuseOrHaltDeepGap cfg node priorDepth height hash nodeTip =
     db_bind (requireAboveTipForkProof node height hash nodeTip) (\<lambda>boundary.
     db_bind (get_run (\<lambda>w. priorDepth + length (wk_deleted w))) (\<lambda>already.
       let aboveTip = height - nodeTip; needed = int already + aboveTip + 1
       in if needed \<le> int (safeDepthFor cfg) then db_return ()
          else raiseSafeDepthHalt node (gap_message (safeDepthFor cfg) nodeTip boundary aboveTip already)))"

section \<open>Deleting one block\<close>

definition note_deleted :: "nat \<Rightarrow> jsstr option \<Rightarrow> reorg_run \<Rightarrow> reorg_run" where
  "note_deleted height hash w = w\<lparr>wk_deleted := wk_deleted w @ [(height, hash)]\<rparr>"

definition delete_with_retry :: "chain_node \<Rightarrow> jsstr \<Rightarrow> nat \<Rightarrow> jsstr option \<Rightarrow> unit reorg" where
  "delete_with_retry node branch height hash =
     db_bind (try_db (deleteBlockByIndex height hash)) (\<lambda>r.
       case r of
         Some _ \<Rightarrow> set_run (\<lambda>w. note_deleted height hash (w\<lparr>wk_retryCount := 0\<rparr>))
       | None \<Rightarrow>
           db_bind (set_run (\<lambda>w. w\<lparr>wk_retryCount := wk_retryCount w + 1\<rparr>)) (\<lambda>_.
           db_bind (get_run wk_retryCount) (\<lambda>n.
             if 10 \<le> n
             then db_bind (haltReorg node (js ''verifyReorg: deleteBlockByIndex failed after 10 attempts ('' @ branch @ js '' branch)''))
                    (\<lambda>_. db_throw DeleteFailed)
             else db_return ())))"

definition unless_halted :: "unit reorg \<Rightarrow> unit reorg" where
  "unless_halted m = db_bind (get_run wk_haltError) (\<lambda>e. if e = None then m else db_return ())"

definition deleteAboveTipBlock ::
    "reorg_config \<Rightarrow> chain_node \<Rightarrow> nat \<Rightarrow> nat \<Rightarrow> jsstr option \<Rightarrow> int \<Rightarrow> unit reorg" where
  "deleteAboveTipBlock cfg node priorDepth height hash nodeTip =
     db_bind (refuseOrHaltDeepGap cfg node priorDepth (int height) hash nodeTip) (\<lambda>_.
     unless_halted
       (db_bind (requireReorgProof node (int height) hash (Some nodeTip)) (\<lambda>_.
        db_bind (assertWithinSafeDepth cfg node priorDepth (int height)) (\<lambda>_.
        unless_halted (delete_with_retry node (js ''above-tip'') height hash)))))"

definition deleteForkedBlock ::
    "reorg_config \<Rightarrow> chain_node \<Rightarrow> nat \<Rightarrow> nat \<Rightarrow> jsstr option \<Rightarrow> int option \<Rightarrow> unit reorg" where
  "deleteForkedBlock cfg node priorDepth height hash nodeTip =
     db_bind (requireReorgProof node (int height) hash nodeTip) (\<lambda>_.
     db_bind (assertWithinSafeDepth cfg node priorDepth (int height)) (\<lambda>_.
     unless_halted (delete_with_retry node (js ''hash-compare'') height hash)))"

section \<open>Reading the node tip again\<close>

text \<open>The binary64 value nearest 0.99.\<close>

definition MIN_VERIFICATION_PROGRESS_TO_PARSE :: rat where
  "MIN_VERIFICATION_PROGRESS_TO_PARSE = 4458563631096791 / 4503599627370496"

definition nodeTipStillCatchingUp :: "chain_info \<Rightarrow> bool" where
  "nodeTipStillCatchingUp info \<longleftrightarrow>
     nodeStillCatchingUp (Some info)
     \<or> (case ci_verificationprogress info of JsNumber p \<Rightarrow> p < MIN_VERIFICATION_PROGRESS_TO_PARSE | _ \<Rightarrow> False)"

text \<open>A node's \<open>blocks\<close> is a height, so an integer.\<close>

definition info_height :: "chain_info \<Rightarrow> int" where
  "info_height info = (case ci_blocks info of JsNumber q \<Rightarrow> \<lfloor>q\<rfloor> | _ \<Rightarrow> 0)"

text \<open>Whether the endpoint is proven to serve another chain.\<close>

definition verifyChainGenesis :: "reorg_config \<Rightarrow> chain_node \<Rightarrow> bool reorg" where
  "verifyChainGenesis cfg node =
     (if chainGenesisUnpinned (rc_genesis cfg) then db_return False
      else db_bind (asking (\<lambda>k. cn_hash node k 0)) (\<lambda>a.
        case a of
          HashText reported \<Rightarrow>
            if reported = [] then db_return False
            else if chainGenesisMismatch (rc_genesis cfg) (Some reported) then db_return True
            else db_bind (asking (cn_now node)) (\<lambda>now.
                 db_bind (set_run (\<lambda>w. w\<lparr>rw_chainGenesisCheckedAt := now\<rparr>)) (\<lambda>_. db_return False))
        | _ \<Rightarrow> db_return False))"

definition readReorgTip :: "reorg_config \<Rightarrow> chain_node \<Rightarrow> int option \<Rightarrow> int option reorg" where
  "readReorgTip cfg node nodeTip =
     db_bind (asking (cn_info node)) (\<lambda>a.
       case a of
         Info info chain \<Rightarrow>
           if \<not> blockchainInfoWellFormed (Some info) then db_return nodeTip
           else if chainTierMismatch (rc_network cfg) chain then db_return nodeTip
           else db_bind (verifyChainGenesis cfg node) (\<lambda>mismatch.
                if mismatch \<or> nodeTipStillCatchingUp info then db_return nodeTip
                else db_return (Some (info_height info)))
       | _ \<Rightarrow> db_return nodeTip)"

definition TIP_SETTLE_MAX_READS :: nat where
  "TIP_SETTLE_MAX_READS = 5"

fun settle_reads :: "nat \<Rightarrow> 'a \<Rightarrow> 'a option reorg \<Rightarrow> 'a option reorg" where
  "settle_reads 0 previous readOnce = db_return None"
| "settle_reads (Suc n) previous readOnce =
     db_bind readOnce (\<lambda>next.
       case next of
         None \<Rightarrow> db_return None
       | Some x \<Rightarrow> if x = previous then db_return (Some x) else settle_reads n x readOnce)"

definition settleNodeReading :: "'a \<Rightarrow> 'a option reorg \<Rightarrow> 'a option reorg" where
  "settleNodeReading first readOnce = settle_reads TIP_SETTLE_MAX_READS first readOnce"

definition refreshReorgTip :: "reorg_config \<Rightarrow> chain_node \<Rightarrow> int option \<Rightarrow> int option reorg" where
  "refreshReorgTip cfg node nodeTip =
     db_bind (readReorgTip cfg node nodeTip) (\<lambda>tip.
       if tip = nodeTip then db_return tip
       else (case tip of
               None \<Rightarrow> db_return nodeTip
             | Some t \<Rightarrow>
                 if (case nodeTip of None \<Rightarrow> False | Some n \<Rightarrow> n \<le> t) then db_return tip
                 else db_bind (settleNodeReading t (readReorgTip cfg node nodeTip)) (\<lambda>settled.
                      db_return (if settled = None then nodeTip else settled))))"

section \<open>Finishing a halted walk\<close>

text \<open>One usable hash of the node, or \<^const>\<open>None\<close>.\<close>

definition readNodeBlockHash :: "chain_node \<Rightarrow> int \<Rightarrow> jsstr option reorg" where
  "readNodeBlockHash node height =
     db_bind (asking (\<lambda>k. cn_hash node k height)) (\<lambda>a.
       db_return (case a of HashText h \<Rightarrow> truthy_text (Some h) | _ \<Rightarrow> None))"

fun deleteHaltedBlock :: "nat \<Rightarrow> nat \<times> jsstr option \<Rightarrow> bool reorg" where
  "deleteHaltedBlock 0 b = db_return False"
| "deleteHaltedBlock (Suc n) b =
     db_bind (try_db (deleteBlockByIndex (fst b) (snd b))) (\<lambda>r.
       if r = None then deleteHaltedBlock n b
       else db_bind (set_run (note_deleted (fst b) (snd b))) (\<lambda>_. db_return True))"

text \<open>The stored blocks from a height down: the doomed ones and the fork point under them, or why not.\<close>

datatype halted_read = StopAt halt_stop | ForkPoint "(nat \<times> jsstr option) list" int

fun read_down :: "chain_node \<Rightarrow> int option \<Rightarrow> int \<Rightarrow> int \<Rightarrow> nat \<Rightarrow> int \<Rightarrow> (nat \<times> jsstr option) list \<Rightarrow> halted_read reorg" where
  "read_down node tip storedTip lowest 0 height doomed = db_return (StopAt (NoForkPoint storedTip lowest))"
| "read_down node tip storedTip lowest (Suc n) height doomed =
     db_bind (try_db (read_block height)) (\<lambda>r.
       case r of
         Some (Some b) \<Rightarrow>
           (case bv_hash b of
              None \<Rightarrow> db_return (StopAt (BlockUnread height))
            | Some stored \<Rightarrow>
                let doomed' = doomed @ [(nat height, Some stored)]
                in if (case tip of None \<Rightarrow> False | Some t \<Rightarrow> t < height)
                   then read_down node tip storedTip lowest n (height - 1) doomed'
                   else db_bind (readNodeBlockHash node height) (\<lambda>first.
                        db_bind (if first = None then db_return None else readNodeBlockHash node height) (\<lambda>second.
                          if first = None \<or> second = None then db_return (StopAt (HashUnread height))
                          else if first \<noteq> second then db_return (StopAt (HashDisagrees height))
                          else if first = Some stored then db_return (ForkPoint doomed height)
                          else read_down node tip storedTip lowest n (height - 1) doomed')))
       | _ \<Rightarrow> db_return (StopAt (BlockUnread height)))"

text \<open>With the stored tip it read from.\<close>

definition readHaltedWalk :: "reorg_config \<Rightarrow> chain_node \<Rightarrow> int option \<Rightarrow> int \<Rightarrow> (int \<times> halted_read) reorg" where
  "readHaltedWalk cfg node tip budget =
     db_bind (try_db getLastBlockIndex) (\<lambda>r.
       case r of
         None \<Rightarrow> db_return (- 1, StopAt TipUnread)
       | Some storedTip \<Rightarrow>
           let lowest = max (rc_start cfg) (storedTip - budget)
           in db_bind (read_down node tip storedTip lowest (nat (storedTip - lowest + 1)) storedTip [])
                (\<lambda>x. db_return (storedTip, x)))"

fun deleteProvenBlocks :: "chain_node \<Rightarrow> (nat \<times> jsstr option) list \<Rightarrow> halt_stop option reorg" where
  "deleteProvenBlocks node [] = db_return None"
| "deleteProvenBlocks node (b # bs) =
     db_bind (proveReorgedAway node (snd b)) (\<lambda>p.
       if p \<noteq> Proven then db_return (Some (NotProven (int (fst b)) p))
       else db_bind (deleteHaltedBlock 10 b) (\<lambda>gone.
            if \<not> gone then db_return (Some (NotDeleted (int (fst b))))
            else deleteProvenBlocks node bs))"

definition finishHaltedWalk :: "reorg_config \<Rightarrow> chain_node \<Rightarrow> nat \<Rightarrow> unit reorg" where
  "finishHaltedWalk cfg node priorDepth =
     db_bind (set_run (\<lambda>w. w\<lparr>wk_haltStop := None\<rparr>)) (\<lambda>_.
     db_bind (get_run (\<lambda>w. (wk_nodeTip w, length (wk_deleted w)))) (\<lambda>(tip, deleted).
     db_bind (readHaltedWalk cfg node tip (2 * int (safeDepthFor cfg) - int (priorDepth + deleted))) (\<lambda>(storedTip, x).
       case x of
         StopAt why \<Rightarrow> set_run (\<lambda>w. w\<lparr>wk_haltStop := Some why\<rparr>)
       | ForkPoint doomed forkPoint \<Rightarrow>
           (case tip of
              Some t \<Rightarrow>
                if forkPoint = t \<and> t < storedTip
                then set_run (\<lambda>w. w\<lparr>wk_haltStop := Some (AtNodeTip t (storedTip - t))\<rparr>)
                else db_bind (deleteProvenBlocks node doomed) (\<lambda>stop. set_run (\<lambda>w. w\<lparr>wk_haltStop := stop\<rparr>))
            | None \<Rightarrow> db_bind (deleteProvenBlocks node doomed) (\<lambda>stop. set_run (\<lambda>w. w\<lparr>wk_haltStop := stop\<rparr>))))))"

section \<open>The walk\<close>

definition readLastStoredBlock :: "(int \<times> block_view option) option reorg" where
  "readLastStoredBlock =
     try_db (db_bind getLastBlockIndex (\<lambda>i. db_bind (read_block i) (\<lambda>b. db_return (i, b))))"

definition same_hash :: "jsstr option \<Rightarrow> hash_answer \<Rightarrow> bool" where
  "same_hash stored a = (case (stored, a) of (Some s, HashText h) \<Rightarrow> s = h | _ \<Rightarrow> False)"

text \<open>The hash comparison at a height the node has.\<close>

definition compare_block ::
    "reorg_config \<Rightarrow> chain_node \<Rightarrow> nat \<Rightarrow> nat \<Rightarrow> jsstr option \<Rightarrow> int option \<Rightarrow> bool reorg" where
  "compare_block cfg node priorDepth height hash nodeTip =
     db_bind (asking (\<lambda>k. cn_hash node k (int height))) (\<lambda>a.
       if a = HashFailed
       then db_bind (refreshReorgTip cfg node nodeTip) (\<lambda>tip.
            db_bind (set_run (\<lambda>w. w\<lparr>wk_nodeTip := tip\<rparr>)) (\<lambda>_. db_return True))
       else if same_hash hash a then db_return False
       else db_bind (deleteForkedBlock cfg node priorDepth height hash nodeTip) (\<lambda>_. db_return True))"

text \<open>One pass of the loop; the answer is whether it goes on.\<close>

definition walk_step :: "reorg_config \<Rightarrow> chain_node \<Rightarrow> nat \<Rightarrow> bool reorg" where
  "walk_step cfg node priorDepth =
     db_bind (get_run wk_haltError) (\<lambda>halted.
     if halted \<noteq> None then db_bind (finishHaltedWalk cfg node priorDepth) (\<lambda>_. db_return False)
     else db_bind readLastStoredBlock (\<lambda>stored.
       case stored of
         None \<Rightarrow> db_return True
       | Some (lastBlockIndex, None) \<Rightarrow> db_return False
       | Some (lastBlockIndex, Some b) \<Rightarrow>
           if lastBlockIndex < rc_start cfg then db_return False
           else db_bind (get_run wk_nodeTip) (\<lambda>nodeTip.
             case nodeTip of
               Some t \<Rightarrow>
                 if t < lastBlockIndex
                 then db_bind (deleteAboveTipBlock cfg node priorDepth (nat lastBlockIndex) (bv_hash b) t)
                        (\<lambda>_. db_return True)
                 else compare_block cfg node priorDepth (nat lastBlockIndex) (bv_hash b) nodeTip
             | None \<Rightarrow> compare_block cfg node priorDepth (nat lastBlockIndex) (bv_hash b) nodeTip)))"

text \<open>The loop: \<^const>\<open>None\<close> when it never returns.\<close>

partial_function (option) walkReorg ::
    "reorg_config \<Rightarrow> chain_node \<Rightarrow> nat \<Rightarrow> reorg_run \<Rightarrow> ((reorg_error + unit) \<times> reorg_run) option" where
  "walkReorg cfg node priorDepth w =
     (case walk_step cfg node priorDepth w of
        (Inl e, w') \<Rightarrow> Some (Inl e, w')
      | (Inr goes_on, w') \<Rightarrow> if goes_on then walkReorg cfg node priorDepth w' else Some (Inr (), w'))"

section \<open>verifyReorg\<close>

definition refuseHaltedRollback :: "chain_node \<Rightarrow> unit reorg" where
  "refuseHaltedRollback node =
     db_bind (asking (cn_now node)) (\<lambda>now.
     db_bind (set_run (\<lambda>w. w\<lparr>rw_reorgHalted := True, rw_reorgHaltCheckedAt := now\<rparr>)) (\<lambda>_.
     db_throw HaltedRefusal))"

fun readPriorRollbackDepth :: "nat \<Rightarrow> nat reorg" where
  "readPriorRollbackDepth 0 = db_throw DepthUnread"
| "readPriorRollbackDepth (Suc n) =
     db_bind (try_db countReorgDeletesAboveTip) (\<lambda>r.
       case r of Some depth \<Rightarrow> db_return depth | None \<Rightarrow> readPriorRollbackDepth n)"

definition reorg_entry :: "chain_node \<Rightarrow> nat reorg" where
  "reorg_entry node =
     db_bind (\<lambda>w. case isReorgHalted (rw_db w) of
                (Inl e, s) \<Rightarrow> (Inl (HaltUnread e), w\<lparr>rw_db := s\<rparr>)
              | (Inr h, s) \<Rightarrow> (Inr h, w\<lparr>rw_db := s\<rparr>)) (\<lambda>halted.
     db_bind (if halted then refuseHaltedRollback node else db_return ()) (\<lambda>_.
     readPriorRollbackDepth 3))"

definition finishReorgRun :: "unit reorg" where
  "finishReorgRun w =
     (case wk_haltError w of
        Some msg \<Rightarrow> (Inl (SafeDepthHalt msg), w)
      | None \<Rightarrow>
          (Inr (), if wk_deleted w = [] then w
                   else w\<lparr>rw_reorgCount := rw_reorgCount w + 1, rw_lastReorgDepth := Some (length (wk_deleted w))\<rparr>))"

definition verifyReorg ::
    "reorg_config \<Rightarrow> chain_node \<Rightarrow> int option \<Rightarrow> reorg_run \<Rightarrow> ((reorg_error + bool) \<times> reorg_run) option" where
  "verifyReorg cfg node nodeTip w0 =
     (let w = w0\<lparr>wk_nodeTip := nodeTip, wk_retryCount := 0, wk_deleted := [], wk_haltError := None, wk_haltStop := None\<rparr>
      in case reorg_entry node w of
           (Inl e, w') \<Rightarrow> Some (Inl e, w')
         | (Inr priorDepth, w') \<Rightarrow>
             (case walkReorg cfg node priorDepth w' of
                None \<Rightarrow> None
              | Some (Inl e, w'') \<Rightarrow> Some (Inl e, w'')
              | Some (Inr _, w'') \<Rightarrow> Some (db_bind finishReorgRun (\<lambda>_. db_return True) w'')))"

end
