(* ===== verification/Decode_Action.thy ===== *)
theory Decode_Action
  imports Decoder_Config Js_Json
begin

text \<open>
  The effects of transaction parsing: a step threads the decoder's counters and either returns or
  throws.  Thrown errors are the throw sites of the source; the ones it tags \<open>rpcLookupFailure\<close>
  make the block loop retry the height, the untagged ones go to its retry-then-quarantine ladder.
  The libraries and the node a parse talks to (bitcoinjs-lib, the AES block function, the node's
  \<open>getrawtransaction\<close>) are the fields of one record that every operation takes.
\<close>

section \<open>Errors and steps\<close>

datatype decode_error =
    RpcLookupFailure
  | P2shExtractionFailed nat
  | P2wshExtractionFailed nat
  | CoinbaseWalkback
  | EnvelopeCoinbaseCommit
  | WireDecodeError
  | ScriptDecodeError
  | CipherError
  | MissingInputError
  | DbLookupFailure

fun rpcLookupFailure_tagged :: "decode_error \<Rightarrow> bool" where
  "rpcLookupFailure_tagged RpcLookupFailure = True"
| "rpcLookupFailure_tagged _ = False"

text \<open>The state extends the counters by whatever else the caller threads, the database session.\<close>

type_synonym ('a, 'z) step =
  "'z decoder_stats_scheme \<Rightarrow> (decode_error + 'a) \<times> 'z decoder_stats_scheme"

definition act_return :: "'a \<Rightarrow> ('a, 'z) step" where
  "act_return x st = (Inr x, st)"

definition act_throw :: "decode_error \<Rightarrow> ('a, 'z) step" where
  "act_throw e st = (Inl e, st)"

definition act_bind :: "('a, 'z) step \<Rightarrow> ('a \<Rightarrow> ('b, 'z) step) \<Rightarrow> ('b, 'z) step" where
  "act_bind m f st = (case m st of (Inl e, st') \<Rightarrow> (Inl e, st') | (Inr x, st') \<Rightarrow> f x st')"

definition count_parse_error :: "(unit, 'z) step" where
  "count_parse_error st = (Inr (), st\<lparr>parseErrors := parseErrors st + 1\<rparr>)"

definition count_rpc_error :: "(unit, 'z) step" where
  "count_rpc_error st = (Inr (), st\<lparr>rpcErrors := rpcErrors st + 1\<rparr>)"

text \<open>A loop whose body is a step over an accumulator.\<close>

fun act_fold :: "('b \<Rightarrow> 'a \<Rightarrow> ('b, 'z) step) \<Rightarrow> 'b \<Rightarrow> 'a list \<Rightarrow> ('b, 'z) step" where
  "act_fold f acc [] = act_return acc"
| "act_fold f acc (x # xs) = act_bind (f acc x) (\<lambda>acc'. act_fold f acc' xs)"

lemma act_return_result [simp]: "act_return x st = (r, st') \<longleftrightarrow> r = Inr x \<and> st' = st"
  by (auto simp: act_return_def)

lemma act_throw_result [simp]: "act_throw e st = (r, st') \<longleftrightarrow> r = Inl e \<and> st' = st"
  by (auto simp: act_throw_def)

lemma act_bind_Inr:
  "act_bind m f st = (Inr y, st') \<longleftrightarrow> (\<exists>x st1. m st = (Inr x, st1) \<and> f x st1 = (Inr y, st'))"
  by (auto simp: act_bind_def split: prod.splits sum.splits)

lemma act_bind_Inl:
  "act_bind m f st = (Inl e, st') \<longleftrightarrow>
     m st = (Inl e, st') \<or> (\<exists>x st1. m st = (Inr x, st1) \<and> f x st1 = (Inl e, st'))"
  by (auto simp: act_bind_def split: prod.splits sum.splits)

lemma count_parse_error_result [simp]:
  "count_parse_error st = (r, st') \<longleftrightarrow> r = Inr () \<and> st' = st\<lparr>parseErrors := parseErrors st + 1\<rparr>"
  by (auto simp: count_parse_error_def)

lemma count_rpc_error_result [simp]:
  "count_rpc_error st = (r, st') \<longleftrightarrow> r = Inr () \<and> st' = st\<lparr>rpcErrors := rpcErrors st + 1\<rparr>"
  by (auto simp: count_rpc_error_def)

lemmas act_results = act_bind_Inr act_bind_Inl

lemma act_bind_assoc: "act_bind (act_bind m f) g = act_bind m (\<lambda>x. act_bind (f x) g)"
  by (rule ext) (auto simp: act_bind_def split: prod.splits sum.splits)

lemma act_bind_return [simp]: "act_bind (act_return x) f = f x"
  by (rule ext) (simp add: act_bind_def act_return_def)

text \<open>An accumulator invariant of a loop that returns.\<close>

lemma act_fold_invariant:
  assumes "act_fold f acc xs st = (Inr acc', st')" "P acc"
    and "\<And>a x s a' s'. x \<in> set xs \<Longrightarrow> P a \<Longrightarrow> f a x s = (Inr a', s') \<Longrightarrow> P a'"
  shows "P acc'"
  using assms
proof (induction xs arbitrary: acc st)
  case (Cons x xs)
  then obtain a1 s1 where "f acc x st = (Inr a1, s1)" "act_fold f a1 xs s1 = (Inr acc', st')"
    by (auto simp: act_bind_Inr)
  with Cons show ?case
    by (metis list.set_intros(1) list.set_intros(2))
qed simp

section \<open>Transactions and scripts\<close>

datatype chunk = Op nat | Data buffer

record tx_input =
  in_hash :: buffer
  in_index :: nat
  in_script :: buffer
  in_witness :: "buffer list"
  in_standard :: "bool option"

record tx_output =
  out_script :: buffer
  out_value :: nat

record transaction =
  tx_id :: jsstr
  tx_ins :: "tx_input list"
  tx_outs :: "tx_output list"

text \<open>A \<open>getrawtransaction\<close> answer: the call failed, an empty result, or the transaction's hex.\<close>

datatype rpc_answer = RpcThrows | RpcEmpty | RpcHex jsstr

record chain_env =
  script_decompile :: "buffer \<Rightarrow> unit + chunk list option"
  fromOutputScript :: "buffer \<Rightarrow> jsstr option"
  aes128_block :: "buffer \<Rightarrow> buffer \<Rightarrow> buffer"
  getRawTransaction :: "jsstr \<Rightarrow> rpc_answer"
  transactionFromHex :: "jsstr \<Rightarrow> unit + transaction"

definition OP_0 :: nat where "OP_0 = 0"
definition OP_IF :: nat where "OP_IF = 99"
definition OP_ENDIF :: nat where "OP_ENDIF = 104"
definition OP_RETURN :: nat where "OP_RETURN = 106"
definition OP_CHECKSIG :: nat where "OP_CHECKSIG = 172"
definition OP_CHECKMULTISIG :: nat where "OP_CHECKMULTISIG = 174"

lemmas opcode_defs = OP_0_def OP_IF_def OP_ENDIF_def OP_RETURN_def OP_CHECKSIG_def
  OP_CHECKMULTISIG_def

text \<open>
  JavaScript \<open>chunk == opcode\<close>, the loose comparison: a data push converts to a string and then to a
  number.
\<close>

fun loosely_equals :: "chunk \<Rightarrow> nat \<Rightarrow> bool" where
  "loosely_equals (Op n) k \<longleftrightarrow> n = k"
| "loosely_equals (Data b) k \<longleftrightarrow> safe_integer (js_Number (lenient_decode b)) = Some (int k)"

text \<open>A decompile outside any \<open>try\<close>.\<close>

definition decompile_step :: "chain_env \<Rightarrow> buffer \<Rightarrow> (chunk list option, 'z) step" where
  "decompile_step env b =
     (case script_decompile env b of Inl _ \<Rightarrow> act_throw ScriptDecodeError | Inr r \<Rightarrow> act_return r)"

section \<open>Hexadecimal\<close>

text \<open>\<open>util.uint8ArrayToHex\<close>.\<close>

definition uint8ArrayToHex :: "buffer \<Rightarrow> jsstr" where
  "uint8ArrayToHex b = concat (map (\<lambda>w. [hex_char (unat w div 16), hex_char (unat w mod 16)]) b)"

definition COINBASE_PREV_TXID :: jsstr where
  "COINBASE_PREV_TXID = replicate 64 48"

definition prev_txid :: "tx_input \<Rightarrow> jsstr" where
  "prev_txid i = uint8ArrayToHex (rev (in_hash i))"

lemma length_uint8ArrayToHex [simp]: "length (uint8ArrayToHex b) = 2 * length b"
  by (induction b) (auto simp: uint8ArrayToHex_def)

lemma uint8ArrayToHex_ascii: "ascii_units (uint8ArrayToHex b)"
proof -
  have "hex_char (unat w div 16) < 128 \<and> hex_char (unat w mod 16) < 128" for w :: byte
  proof -
    have "unat w < 256"
      using unsigned_less [of w] by simp
    then have "unat w div 16 < 16" "unat w mod 16 < 16"
      by (auto simp: less_mult_imp_div_less)
    then show ?thesis
      by (auto simp: hex_char_def)
  qed
  then show ?thesis
    by (auto simp: uint8ArrayToHex_def ascii_units_def)
qed

section \<open>Deobfuscation\<close>

text \<open>
  AES-128 in counter mode: block \<open>i\<close> of the keystream is the cipher of the counter \<open>iv + i\<close>, a
  128-bit big-endian number that wraps.
\<close>

definition be_value :: "buffer \<Rightarrow> nat" where
  "be_value b = foldl (\<lambda>v w. v * 256 + unat w) 0 b"

fun be_bytes :: "nat \<Rightarrow> nat \<Rightarrow> buffer" where
  "be_bytes 0 v = []"
| "be_bytes (Suc n) v = be_bytes n (v div 256) @ [word_of_nat (v mod 256)]"

definition counter_block :: "buffer \<Rightarrow> nat \<Rightarrow> buffer" where
  "counter_block iv i = be_bytes 16 ((be_value iv + i) mod 2 ^ 128)"

definition ctr_keystream :: "(buffer \<Rightarrow> buffer \<Rightarrow> buffer) \<Rightarrow> buffer \<Rightarrow> buffer \<Rightarrow> nat \<Rightarrow> buffer" where
  "ctr_keystream aes key iv n = take n (concat (map (\<lambda>i. aes key (counter_block iv i)) [0..<n div 16 + 1]))"

definition aes_128_ctr :: "(buffer \<Rightarrow> buffer \<Rightarrow> buffer) \<Rightarrow> buffer \<Rightarrow> buffer \<Rightarrow> buffer \<Rightarrow> buffer" where
  "aes_128_ctr aes key iv data = map2 xor data (ctr_keystream aes key iv (length data))"

definition removeObfuscation :: "chain_env \<Rightarrow> chunk \<Rightarrow> jsstr \<Rightarrow> (buffer option, 'z) step" where
  "removeObfuscation env data txid =
     (if length txid < 32 then act_return None
      else (case data of
              Op _ \<Rightarrow> act_return None
            | Data b \<Rightarrow>
                (let cipherKey = utf8_encode (take 16 txid);
                     iv = utf8_encode (take 16 (drop 16 txid))
                 in if length cipherKey \<noteq> 16 \<or> length iv \<noteq> 16 then act_throw CipherError
                    else act_return (Some (aes_128_ctr (aes128_block env) cipherKey iv b)))))"

lemma length_ctr_keystream:
  assumes "\<And>k b. length (aes k b) = 16"
  shows "length (ctr_keystream aes key iv n) = n"
proof -
  have len: "length (concat (map (\<lambda>i. aes key (counter_block iv i)) [0..<m])) = 16 * m" for m
    by (induction m) (auto simp: assms)
  have "n \<le> 16 * (n div 16 + 1)"
    by presburger
  then show ?thesis
    unfolding ctr_keystream_def length_take len by simp
qed

lemma map2_xor_self:
  fixes a b :: "byte list"
  shows "length a = length b \<Longrightarrow> map2 xor (map2 xor a b) b = a"
proof (induction a b rule: list_induct2)
  case (Cons x xs y ys)
  then show ?case by (simp add: xor.assoc)
qed simp

lemma aes_128_ctr_involution:
  assumes "\<And>k b. length (aes k b) = 16"
  shows "aes_128_ctr aes key iv (aes_128_ctr aes key iv d) = d"
proof -
  have "length (aes_128_ctr aes key iv d) = length d"
    using length_ctr_keystream [of aes, OF assms] by (simp add: aes_128_ctr_def)
  then show ?thesis
    unfolding aes_128_ctr_def
    using map2_xor_self [of d "ctr_keystream aes key iv (length d)"] length_ctr_keystream [of aes, OF assms]
    by simp
qed

lemma utf8_encode_ascii: "ascii_units s \<Longrightarrow> utf8_encode s = ascii_bytes s"
proof -
  have units: "ascii_units s \<Longrightarrow> units_scalars s = s"
    by (induction s rule: units_scalars.induct) (auto simp: ascii_units_def)
  have "ascii_units s \<Longrightarrow> concat (map utf8_bytes s) = s"
    by (induction s) (auto simp: ascii_units_def utf8_bytes_def)
  then show "ascii_units s \<Longrightarrow> utf8_encode s = ascii_bytes s"
    by (simp add: utf8_encode_def ascii_bytes_def units)
qed

lemma removeObfuscation_hash:
  assumes "length h = 32"
  shows "removeObfuscation env (Data b) (uint8ArrayToHex (rev h)) st
    = (Inr (Some (aes_128_ctr (aes128_block env) (ascii_bytes (take 16 (uint8ArrayToHex (rev h))))
        (ascii_bytes (take 16 (drop 16 (uint8ArrayToHex (rev h))))) b)), st)"
proof -
  let ?t = "uint8ArrayToHex (rev h)"
  have "ascii_units (take 16 ?t)" "ascii_units (take 16 (drop 16 ?t))"
    using uint8ArrayToHex_ascii [of "rev h"]
    by (auto simp: ascii_units_def dest: in_set_takeD in_set_dropD)
  then have "utf8_encode (take 16 ?t) = ascii_bytes (take 16 ?t)"
    "utf8_encode (take 16 (drop 16 ?t)) = ascii_bytes (take 16 (drop 16 ?t))"
    by (simp_all add: utf8_encode_ascii)
  then show ?thesis
    using assms by (simp add: removeObfuscation_def ascii_bytes_def act_return_def)
qed

end
