(* ===== verification/Carriers.thy ===== *)
theory Carriers
  imports Decode_Action Payload
begin

text \<open>
  The output scan of a transaction (\<open>src/src/XChainDecoder/carrier_extraction.js\<close>): every output is
  captured as a dispense or payment output, and OP_RETURN, P2SH, P2WSH and MULTISIGN carriers
  contribute payload bytes; the accumulated payload is then decompiled into the action push and the
  optional raw-data push.  The lemmas fix the positions and addresses of the captured outputs, show
  an interior chunk is never dropped silently, and measure the decompiled payload.
\<close>

section \<open>Constants and state\<close>

definition MAGIC_WORD_BUFFER :: buffer where
  "MAGIC_WORD_BUFFER = ascii_bytes (js ''XCHN'')"

definition P2SH_BUFFER :: buffer where
  "P2SH_BUFFER = ascii_bytes (js ''p2sh'')"

definition P2WSH_BUFFER :: buffer where
  "P2WSH_BUFFER = ascii_bytes (js ''p2wsh'')"

definition FUNDING_VOUT_BASE :: nat where
  "FUNDING_VOUT_BASE = 1000000"

record captured_output =
  co_vout :: nat
  co_destination :: jsstr
  co_amount :: nat

record scan_state =
  sc_dataBuffer :: buffer
  sc_getSource :: bool
  sc_p2shFundingTxId :: "jsstr option"
  sc_otherCarrier :: bool
  sc_dispense :: "captured_output list"
  sc_payments :: "captured_output list"

text \<open>What one output's carrier contributes.\<close>

record carrier_state =
  ca_data :: buffer
  ca_other :: bool
  ca_funding :: "jsstr option"

section \<open>Outputs\<close>

definition isFutureSegwitScript :: "buffer \<Rightarrow> bool" where
  "isFutureSegwitScript script =
     (if length script < 4 \<or> 42 < length script then False
      else if unat (script ! 0) < 0x52 \<or> 0x60 < unat (script ! 0) then False
      else (let pushLen = unat (script ! 1)
            in 2 \<le> pushLen \<and> pushLen \<le> 40 \<and> length script = pushLen + 2))"

definition output_address :: "chain_env \<Rightarrow> buffer \<Rightarrow> jsstr option" where
  "output_address env script =
     (if isFutureSegwitScript script then None else fromOutputScript env script)"

text \<open>An address is truthy when it is a non-empty string.\<close>

definition captureOutputAddress ::
    "chain_env \<Rightarrow> tx_output \<Rightarrow> nat \<Rightarrow> (jsstr \<Rightarrow> bool) \<Rightarrow> scan_state \<Rightarrow> scan_state" where
  "captureOutputAddress env output vout openDispenser sc =
     (case output_address env (out_script output) of
        None \<Rightarrow> sc
      | Some address \<Rightarrow>
          if address = [] then sc
          else (let out = \<lparr>co_vout = vout, co_destination = address, co_amount = out_value output\<rparr>
                in if openDispenser address
                   then sc\<lparr>sc_dispense := sc_dispense sc @ [out], sc_getSource := True\<rparr>
                   else sc\<lparr>sc_payments := sc_payments sc @ [out]\<rparr>))"

section \<open>Carriers\<close>

text \<open>The first element of a decompiled script, when it is a push.\<close>

definition leading_push :: "chunk list option \<Rightarrow> buffer option" where
  "leading_push s = (case s of Some (Data d # _) \<Rightarrow> Some d | _ \<Rightarrow> None)"

text \<open>One input's P2SH chunk; a throw inside the \<open>try\<close> is \<^const>\<open>Inl\<close>.\<close>

definition p2sh_chunk :: "chain_env \<Rightarrow> tx_input \<Rightarrow> unit + buffer" where
  "p2sh_chunk env i =
     bind_res (script_decompile env (in_script i)) (\<lambda>sig.
       case sig of
         Some (_ # _ # Data redeem # _) \<Rightarrow>
           bind_res (script_decompile env redeem) (\<lambda>r.
             case leading_push r of Some d \<Rightarrow> Inr d | None \<Rightarrow> Inr [])
       | _ \<Rightarrow> Inr [])"

fun readP2shChunks :: "chain_env \<Rightarrow> nat \<Rightarrow> tx_input list \<Rightarrow> buffer \<Rightarrow> (buffer, 'z) step" where
  "readP2shChunks env idx [] acc = act_return acc"
| "readP2shChunks env idx (i # rest) acc =
     (case p2sh_chunk env i of
        Inl _ \<Rightarrow> act_bind count_parse_error (\<lambda>_. act_throw (P2shExtractionFailed idx))
      | Inr d \<Rightarrow> readP2shChunks env (Suc idx) rest (acc @ d))"

definition p2wsh_chunk :: "chain_env \<Rightarrow> bool \<Rightarrow> tx_input \<Rightarrow> unit + buffer" where
  "p2wsh_chunk env segwit i =
     (if \<not> segwit then Inr []
      else (case field (in_witness i) 2 of
              None \<Rightarrow> Inr []
            | Some redeem \<Rightarrow>
                bind_res (script_decompile env redeem) (\<lambda>r.
                  case leading_push r of Some d \<Rightarrow> Inr d | None \<Rightarrow> Inr [])))"

fun readP2wshChunks :: "chain_env \<Rightarrow> bool \<Rightarrow> nat \<Rightarrow> tx_input list \<Rightarrow> buffer \<Rightarrow> (buffer, 'z) step" where
  "readP2wshChunks env segwit idx [] acc = act_return acc"
| "readP2wshChunks env segwit idx (i # rest) acc =
     (case p2wsh_chunk env segwit i of
        Inl _ \<Rightarrow> act_bind count_parse_error (\<lambda>_. act_throw (P2wshExtractionFailed idx))
      | Inr d \<Rightarrow> readP2wshChunks env segwit (Suc idx) rest (acc @ d))"

definition readOpReturnCarrier ::
    "chain_env \<Rightarrow> bool \<Rightarrow> transaction \<Rightarrow> chunk \<Rightarrow> jsstr \<Rightarrow> carrier_state \<Rightarrow> (carrier_state, 'z) step" where
  "readOpReturnCarrier env segwit tx push firstInputTxId c =
     act_bind (removeObfuscation env push firstInputTxId) (\<lambda>plain.
       case plain of
         None \<Rightarrow> act_return c
       | Some d \<Rightarrow>
           if take 4 d \<noteq> MAGIC_WORD_BUFFER then act_return c
           else (let c' = c\<lparr>ca_other := True\<rparr>; rest = drop 4 d
                 in if rest = P2SH_BUFFER then
                      act_bind (readP2shChunks env 0 (tx_ins tx) (ca_data c'))
                        (\<lambda>b. act_return (c'\<lparr>ca_data := b, ca_funding := Some firstInputTxId\<rparr>))
                    else if rest = P2WSH_BUFFER then
                      act_bind (readP2wshChunks env segwit 0 (tx_ins tx) (ca_data c'))
                        (\<lambda>b. act_return (c'\<lparr>ca_data := b, ca_funding := Some firstInputTxId\<rparr>))
                    else act_return (c'\<lparr>ca_data := ca_data c' @ rest\<rparr>)))"

definition readMultisignCarrier ::
    "chain_env \<Rightarrow> buffer \<Rightarrow> buffer \<Rightarrow> jsstr \<Rightarrow> carrier_state \<Rightarrow> (carrier_state, 'z) step" where
  "readMultisignCarrier env key1 key2 firstInputTxId c =
     act_bind (removeObfuscation env (Data (drop 1 key1 @ drop 1 key2)) firstInputTxId) (\<lambda>plain.
       case plain of
         None \<Rightarrow> act_return c
       | Some d \<Rightarrow>
           if take 4 d \<noteq> MAGIC_WORD_BUFFER then act_return c
           else act_return (c\<lparr>ca_other := True, ca_data := ca_data c @ drop 4 d\<rparr>))"

text \<open>The carrier of one decompiled output script.\<close>

definition read_carrier ::
    "chain_env \<Rightarrow> bool \<Rightarrow> transaction \<Rightarrow> chunk list option \<Rightarrow> jsstr \<Rightarrow> carrier_state \<Rightarrow> (carrier_state, 'z) step" where
  "read_carrier env segwit tx script firstInputTxId c =
     (case script of
        None \<Rightarrow> act_return c
      | Some s \<Rightarrow>
          if length s = 2 \<and> loosely_equals (s ! 0) OP_RETURN
          then readOpReturnCarrier env segwit tx (s ! 1) firstInputTxId c
          else if length s = 6 \<and> loosely_equals (s ! 5) OP_CHECKMULTISIG
          then (case (s ! 1, s ! 2) of
                  (Data k1, Data k2) \<Rightarrow> readMultisignCarrier env k1 k2 firstInputTxId c
                | _ \<Rightarrow> act_return c)
          else act_return c)"

definition scan_output ::
    "chain_env \<Rightarrow> bool \<Rightarrow> transaction \<Rightarrow> (jsstr \<Rightarrow> bool) \<Rightarrow> jsstr \<Rightarrow> scan_state \<Rightarrow> nat \<times> tx_output
      \<Rightarrow> (scan_state, 'z) step" where
  "scan_output env segwit tx openDispenser firstInputTxId sc out =
     (case out of (vout, output) \<Rightarrow>
       act_bind (decompile_step env (out_script output)) (\<lambda>script.
         (let sc' = captureOutputAddress env output vout openDispenser sc
          in act_bind (read_carrier env segwit tx script firstInputTxId
                 \<lparr>ca_data = [], ca_other = sc_otherCarrier sc', ca_funding = sc_p2shFundingTxId sc'\<rparr>)
               (\<lambda>c. act_return (sc'\<lparr>sc_dataBuffer := sc_dataBuffer sc' @ ca_data c,
                                    sc_otherCarrier := ca_other c,
                                    sc_p2shFundingTxId := ca_funding c\<rparr>)))))"

definition scan_init :: scan_state where
  "scan_init = \<lparr>sc_dataBuffer = [], sc_getSource = False, sc_p2shFundingTxId = None,
     sc_otherCarrier = False, sc_dispense = [], sc_payments = []\<rparr>"

definition scanOutputs ::
    "chain_env \<Rightarrow> bool \<Rightarrow> transaction \<Rightarrow> (jsstr \<Rightarrow> bool) \<Rightarrow> jsstr \<Rightarrow> scan_state \<Rightarrow> (scan_state, 'z) step" where
  "scanOutputs env segwit tx openDispenser firstInputTxId sc =
     act_fold (scan_output env segwit tx openDispenser firstInputTxId) sc
       (List.enumerate 0 (tx_outs tx))"

section \<open>Decompiling the payload\<close>

record payload_state =
  pl_data :: buffer
  pl_rawData :: "buffer option"
  pl_getSource :: bool
  pl_compiledLength :: nat

text \<open>The monitoring count of an empty leading push with more behind it.\<close>

definition reportEmptyLeadingPush :: "chunk list \<Rightarrow> buffer \<Rightarrow> (unit, 'z) step" where
  "reportEmptyLeadingPush s dataBuffer =
     (if hd s = Op 0 \<and> (1 < length s \<or> 1 < length dataBuffer) then count_parse_error
      else act_return ())"

definition decompilePayload :: "chain_env \<Rightarrow> bool \<Rightarrow> payload_state \<Rightarrow> (payload_state, 'z) step" where
  "decompilePayload env envelopeCarrier pl =
     (if pl_data pl = [] then act_return pl
      else act_bind (decompile_step env (pl_data pl)) (\<lambda>script.
        case script of
          None \<Rightarrow> act_return (pl\<lparr>pl_data := []\<rparr>)
        | Some [] \<Rightarrow> act_return (pl\<lparr>pl_data := []\<rparr>)
        | Some (Op n # s) \<Rightarrow>
            act_bind (reportEmptyLeadingPush (Op n # s) (pl_data pl))
              (\<lambda>_. act_return (pl\<lparr>pl_data := []\<rparr>))
        | Some (Data d # s) \<Rightarrow>
            (let len = (if envelopeCarrier then pl_compiledLength pl else compiledPushSize (length d));
                 raw = (case s of [] \<Rightarrow> pl_rawData pl | Data r # _ \<Rightarrow> Some r | Op _ # _ \<Rightarrow> None);
                 len' = (case s of
                           Data r # _ \<Rightarrow> if envelopeCarrier then len else len + compiledPushSize (length r)
                         | _ \<Rightarrow> len)
             in act_return \<lparr>pl_data = d, pl_rawData = raw, pl_getSource = True,
                            pl_compiledLength = len'\<rparr>)))"

section \<open>Captured outputs\<close>

text \<open>
  An output list is captured from a transaction up to an output index: positions below the index,
  with the script's address and the output's value.
\<close>

definition captured_from :: "chain_env \<Rightarrow> tx_output list \<Rightarrow> captured_output \<Rightarrow> bool" where
  "captured_from env outs c \<longleftrightarrow>
     co_vout c < length outs \<and> co_amount c = out_value (outs ! co_vout c)
     \<and> output_address env (out_script (outs ! co_vout c)) = Some (co_destination c)
     \<and> co_destination c \<noteq> []"

definition scan_outputs_ok ::
    "chain_env \<Rightarrow> tx_output list \<Rightarrow> (jsstr \<Rightarrow> bool) \<Rightarrow> nat \<Rightarrow> scan_state \<Rightarrow> bool" where
  "scan_outputs_ok env outs openDispenser n sc \<longleftrightarrow>
     (\<forall>c \<in> set (sc_dispense sc). captured_from env outs c \<and> co_vout c < n \<and> openDispenser (co_destination c))
     \<and> (\<forall>c \<in> set (sc_payments sc). captured_from env outs c \<and> co_vout c < n \<and> \<not> openDispenser (co_destination c))
     \<and> distinct (map co_vout (sc_dispense sc @ sc_payments sc))
     \<and> (\<forall>i < n. \<forall>a. output_address env (out_script (outs ! i)) = Some a \<longrightarrow> a \<noteq> [] \<longrightarrow>
          i \<in> co_vout ` (set (sc_dispense sc) \<union> set (sc_payments sc)))
     \<and> (sc_dispense sc \<noteq> [] \<longrightarrow> sc_getSource sc)"

lemma capture_ok:
  assumes "scan_outputs_ok env outs openDispenser n sc" "n < length outs"
  shows "scan_outputs_ok env outs openDispenser (Suc n)
           (captureOutputAddress env (outs ! n) n openDispenser sc)"
  using assms unfolding scan_outputs_ok_def captureOutputAddress_def captured_from_def Let_def
  by (auto split: option.splits simp: less_Suc_eq)

text \<open>The carrier fields do not touch the captured outputs.\<close>

lemma scan_outputs_ok_carrier:
  "scan_outputs_ok env outs openDispenser n (sc\<lparr>sc_dataBuffer := d, sc_otherCarrier := o', sc_p2shFundingTxId := f\<rparr>)
     = scan_outputs_ok env outs openDispenser n sc"
  by (simp add: scan_outputs_ok_def)

lemma scan_output_Inr:
  "scan_output env segwit tx openDispenser t sc (i, output) st = (Inr sc', st') \<Longrightarrow>
    \<exists>d b f. sc' = (captureOutputAddress env output i openDispenser sc)
       \<lparr>sc_dataBuffer := d, sc_otherCarrier := b, sc_p2shFundingTxId := f\<rparr>"
  by (auto simp: scan_output_def act_bind_Inr Let_def)

lemma enumerate_fold_ok:
  assumes "act_fold (scan_output env segwit tx openDispenser t) sc (List.enumerate n xs) st = (Inr sc', st')"
    and "drop n (tx_outs tx) = xs" "n \<le> length (tx_outs tx)"
    and "scan_outputs_ok env (tx_outs tx) openDispenser n sc"
  shows "scan_outputs_ok env (tx_outs tx) openDispenser (length (tx_outs tx)) sc'"
  using assms
proof (induction xs arbitrary: n sc st)
  case Nil
  then show ?case by simp
next
  case (Cons x xs)
  obtain sc1 s1 where step: "scan_output env segwit tx openDispenser t sc (n, x) st = (Inr sc1, s1)"
    and rest: "act_fold (scan_output env segwit tx openDispenser t) sc1 (List.enumerate (Suc n) xs) s1 = (Inr sc', st')"
    using Cons.prems(1) by (auto simp: act_bind_Inr)
  have n: "n < length (tx_outs tx)" "x = tx_outs tx ! n" "drop (Suc n) (tx_outs tx) = xs"
    using Cons.prems(2) by (metis drop_all leI list.distinct(1))
      (metis Cons.prems(2) nth_via_drop, metis Cons.prems(2) drop_Suc list.sel(3) tl_drop)
  have "scan_outputs_ok env (tx_outs tx) openDispenser (Suc n) sc1"
    using scan_output_Inr [OF step] capture_ok [OF Cons.prems(4) n(1)] n(2)
    by (auto simp: scan_outputs_ok_carrier)
  then show ?case
    using Cons.IH [OF rest n(3)] n(1) by simp
qed

lemma scanOutputs_ok:
  assumes "scanOutputs env segwit tx openDispenser t scan_init st = (Inr sc, st')"
  shows "scan_outputs_ok env (tx_outs tx) openDispenser (length (tx_outs tx)) sc"
proof (rule enumerate_fold_ok)
  show "act_fold (scan_output env segwit tx openDispenser t) scan_init
      (List.enumerate 0 (tx_outs tx)) st = (Inr sc, st')"
    using assms by (simp add: scanOutputs_def)
  show "scan_outputs_ok env (tx_outs tx) openDispenser 0 scan_init"
    by (simp add: scan_outputs_ok_def scan_init_def)
qed simp_all

text \<open>Chunks are concatenated in input order, or the whole extraction fails.\<close>

lemma readP2shChunks_result:
  "readP2shChunks env idx ins acc st = (r, st') \<Longrightarrow>
    (case r of
       Inr b \<Rightarrow> (\<exists>ds. map (p2sh_chunk env) ins = map Inr ds \<and> b = acc @ concat ds) \<and> st' = st
     | Inl e \<Rightarrow> (\<exists>j < length ins. e = P2shExtractionFailed (idx + j) \<and> p2sh_chunk env (ins ! j) = Inl ())
         \<and> st' = st\<lparr>parseErrors := parseErrors st + 1\<rparr>)"
proof (induction ins arbitrary: idx acc)
  case Nil
  then show ?case by auto
next
  case (Cons i ins)
  show ?case
  proof (cases "p2sh_chunk env i")
    case (Inl u)
    then have "r = Inl (P2shExtractionFailed idx)" "st' = st\<lparr>parseErrors := parseErrors st + 1\<rparr>"
      using Cons.prems by (cases r; simp add: act_bind_Inr act_bind_Inl)+
    with Inl show ?thesis by auto
  next
    case (Inr d)
    then have rec: "readP2shChunks env (Suc idx) ins (acc @ d) st = (r, st')"
      using Cons.prems by simp
    show ?thesis
    proof (cases r)
      case (Inl e)
      then obtain j where "j < length ins" "e = P2shExtractionFailed (Suc idx + j)"
        "p2sh_chunk env (ins ! j) = Inl ()" "st' = st\<lparr>parseErrors := parseErrors st + 1\<rparr>"
        using Cons.IH [OF rec] by auto
      with Inl show ?thesis by (auto intro!: exI [of _ "Suc j"])
    next
      case r: (Inr b)
      then obtain ds where "map (p2sh_chunk env) ins = map Inr ds" "b = (acc @ d) @ concat ds" "st' = st"
        using Cons.IH [OF rec] by auto
      with r Inr show ?thesis by (auto intro!: exI [of _ "d # ds"])
    qed
  qed
qed

text \<open>The measured length of a decompiled legacy payload is what its pushes compile to.\<close>

lemma decompilePayload_Inr:
  assumes "decompilePayload env envelopeCarrier pl st = (Inr pl', st')"
  shows "pl_data pl' = [] \<and> pl_rawData pl' = pl_rawData pl \<and> pl_getSource pl' = pl_getSource pl
      \<and> pl_compiledLength pl' = pl_compiledLength pl
    \<or> (\<exists>s. script_decompile env (pl_data pl) = Inr (Some (Data (pl_data pl') # s))
        \<and> pl_getSource pl'
        \<and> pl_rawData pl' = (case s of [] \<Rightarrow> pl_rawData pl | Data r # _ \<Rightarrow> Some r | Op _ # _ \<Rightarrow> None)
        \<and> pl_compiledLength pl' =
            (if envelopeCarrier then pl_compiledLength pl
             else compiledPushSize (length (pl_data pl'))
               + (case s of Data r # _ \<Rightarrow> compiledPushSize (length r) | _ \<Rightarrow> 0)))"
  using assms
  by (auto simp: decompilePayload_def decompile_step_def act_bind_Inr Let_def
      split: if_splits sum.splits option.splits list.splits chunk.splits)

end
