(* ===== verification/Envelope.thy ===== *)
theory Envelope
  imports Carriers
begin

text \<open>
  Taproot-envelope recognition (\<open>src/src/XChainDecoder/envelope_recognition.js\<close>): the witness-stack
  checks, the walk over the decompiled tapscript, and the two per-chain height gates.  The main lemma
  shows that the index-driven walk accepts exactly the scripts of the envelope grammar and returns
  the concatenation of their payload pushes.
\<close>

definition TAPROOT_LEAF_VERSION :: byte where
  "TAPROOT_LEAF_VERSION = 0xc0"

definition TAPROOT_ANNEX_MARKER :: byte where
  "TAPROOT_ANNEX_MARKER = 0x50"

section \<open>Heights\<close>

definition envelopeRecognitionHeight :: "decoder_config \<Rightarrow> int option" where
  "envelopeRecognitionHeight cfg =
     height_entry ENVELOPE_RECOGNITION_ACTIVATION (coinTick cfg) (consensusNetwork cfg)"

text \<open>A block height that is no number, or missing, is \<^const>\<open>None\<close>.\<close>

definition envelopeActiveAt :: "decoder_config \<Rightarrow> int option \<Rightarrow> bool" where
  "envelopeActiveAt cfg blockHeight =
     (case (envelopeRecognitionHeight cfg, blockHeight) of
        (Some a, Some h) \<Rightarrow> a \<le> h | _ \<Rightarrow> False)"

definition envelopeCarrierRecognitionHeight :: "decoder_config \<Rightarrow> int option" where
  "envelopeCarrierRecognitionHeight cfg =
     height_entry ENVELOPE_CARRIER_RECOGNITION_ACTIVATION (coinTick cfg) (consensusNetwork cfg)"

definition envelopeCarrierRecognitionActiveAt :: "decoder_config \<Rightarrow> int option \<Rightarrow> bool" where
  "envelopeCarrierRecognitionActiveAt cfg blockHeight =
     (case (envelopeCarrierRecognitionHeight cfg, blockHeight) of
        (Some a, Some h) \<Rightarrow> a \<le> h | _ \<Rightarrow> False)"

section \<open>The witness stack\<close>

definition envelopeScriptFromWitness :: "buffer list \<Rightarrow> buffer option" where
  "envelopeScriptFromWitness witness =
     (if length witness < 2 then None
      else (let stackTop = length witness - 1;
                controlBlock = witness ! stackTop
            in if controlBlock = [] then None
               else if hd controlBlock = TAPROOT_ANNEX_MARKER then None
               else if and (hd controlBlock) 0xfe \<noteq> TAPROOT_LEAF_VERSION then None
               else if length controlBlock < 33 \<or> (length controlBlock - 33) mod 32 \<noteq> 0 then None
               else (let script = witness ! (stackTop - 1)
                     in if length script < 8 then None else Some script)))"

section \<open>The tapscript\<close>

text \<open>The payload loop: the run of pushes at the front, and what follows it.\<close>

fun push_run :: "chunk list \<Rightarrow> buffer list \<times> chunk list" where
  "push_run (Data d # s) = (let (ps, rest) = push_run s in (d # ps, rest))"
| "push_run s = ([], s)"

definition envelopeShape :: "chunk list \<Rightarrow> buffer option" where
  "envelopeShape s =
     (if length s < 8 then None
      else if s ! 0 \<noteq> Op OP_0 then None
      else if s ! 1 \<noteq> Op OP_IF then None
      else if s ! 2 \<noteq> Data MAGIC_WORD_BUFFER then None
      else if s ! 3 \<noteq> Data [0] then None
      else (let (payloadPushes, rest) = push_run (drop 4 s)
            in if payloadPushes = [] then None
               else (case rest of
                       [Op e, Data key, Op c] \<Rightarrow>
                         if e = OP_ENDIF \<and> length key = 32 \<and> c = OP_CHECKSIG
                         then Some (concat payloadPushes) else None
                     | _ \<Rightarrow> None)))"

definition envelopeShapeFromScript :: "chain_env \<Rightarrow> buffer \<Rightarrow> unit + buffer option" where
  "envelopeShapeFromScript env script =
     bind_res (script_decompile env script) (\<lambda>r.
       case r of None \<Rightarrow> Inr None | Some s \<Rightarrow> Inr (envelopeShape s))"

text \<open>Recognition never throws.\<close>

definition detectEnvelopeWitness :: "chain_env \<Rightarrow> buffer list \<Rightarrow> buffer option" where
  "detectEnvelopeWitness env witness =
     (case envelopeScriptFromWitness witness of
        None \<Rightarrow> None
      | Some script \<Rightarrow>
          (case envelopeShapeFromScript env script of Inl _ \<Rightarrow> None | Inr r \<Rightarrow> r))"

section \<open>The grammar\<close>

definition envelope_script :: "buffer list \<Rightarrow> buffer \<Rightarrow> chunk list" where
  "envelope_script pushes key =
     [Op OP_0, Op OP_IF, Data MAGIC_WORD_BUFFER, Data [0]] @ map Data pushes
     @ [Op OP_ENDIF, Data key, Op OP_CHECKSIG]"

lemma push_run_map: "push_run (map Data ps @ Op n # s) = (ps, Op n # s)"
  by (induction ps) auto

lemma push_run_result: "push_run s = (ps, rest) \<Longrightarrow> s = map Data ps @ rest"
  by (induction s arbitrary: ps rule: push_run.induct) (auto split: prod.splits)

lemma nth_four: "4 \<le> length s \<Longrightarrow> s = [s ! 0, s ! 1, s ! 2, s ! 3] @ drop 4 s"
  by (cases s; cases "tl s"; cases "tl (tl s)"; cases "tl (tl (tl s))") (auto simp: numeral_eq_Suc)

lemma envelopeShape_iff:
  "envelopeShape s = Some p \<longleftrightarrow>
    (\<exists>pushes key. s = envelope_script pushes key \<and> pushes \<noteq> [] \<and> length key = 32 \<and> p = concat pushes)"
proof
  assume shape: "envelopeShape s = Some p"
  obtain ps rest where run: "push_run (drop 4 s) = (ps, rest)"
    by (cases "push_run (drop 4 s)")
  have len: "8 \<le> length s"
    and head: "s ! 0 = Op OP_0" "s ! 1 = Op OP_IF" "s ! 2 = Data MAGIC_WORD_BUFFER" "s ! 3 = Data [0]"
    using shape by (auto simp: envelopeShape_def split: if_splits)
  have "ps \<noteq> [] \<and> (\<exists>key. rest = [Op OP_ENDIF, Data key, Op OP_CHECKSIG] \<and> length key = 32 \<and> p = concat ps)"
    using shape len head run
    by (auto simp: envelopeShape_def split: if_splits list.splits chunk.splits)
  then obtain key where "ps \<noteq> []" "rest = [Op OP_ENDIF, Data key, Op OP_CHECKSIG]"
    "length key = 32" "p = concat ps"
    by blast
  moreover from this have "s = envelope_script ps key"
    using nth_four [of s] head push_run_result [OF run] len by (simp add: envelope_script_def)
  ultimately show "\<exists>pushes key. s = envelope_script pushes key \<and> pushes \<noteq> [] \<and> length key = 32
      \<and> p = concat pushes"
    by blast
next
  assume "\<exists>pushes key. s = envelope_script pushes key \<and> pushes \<noteq> [] \<and> length key = 32 \<and> p = concat pushes"
  then obtain pushes key where s: "s = envelope_script pushes key" "pushes \<noteq> []" "length key = 32"
    "p = concat pushes"
    by blast
  then have "drop 4 s = map Data pushes @ Op OP_ENDIF # [Data key, Op OP_CHECKSIG]" "8 \<le> length s"
    by (auto simp: envelope_script_def Suc_le_eq)
  moreover have "s ! 0 = Op OP_0" "s ! 1 = Op OP_IF" "s ! 2 = Data MAGIC_WORD_BUFFER" "s ! 3 = Data [0]"
    using s by (simp_all add: envelope_script_def numeral_eq_Suc)
  ultimately show "envelopeShape s = Some p"
    using s by (simp add: envelopeShape_def push_run_map)
qed

text \<open>The stack checks, as what a recognised stack looks like.\<close>

lemma envelopeScriptFromWitness_Some:
  assumes "envelopeScriptFromWitness w = Some script"
  shows "\<exists>pre control. w = pre @ [script, control] \<and> 33 \<le> length control
    \<and> (length control - 33) mod 32 = 0 \<and> hd control \<noteq> TAPROOT_ANNEX_MARKER
    \<and> and (hd control) 0xfe = TAPROOT_LEAF_VERSION"
proof -
  have len: "2 \<le> length w"
    using assms by (auto simp: envelopeScriptFromWitness_def split: if_splits)
  then obtain pre a b where w: "w = pre @ [a, b]"
    by (metis (no_types, lifting) One_nat_def Suc_1 append_Cons append_Nil append_assoc
        append_butlast_last_id length_append_singleton length_greater_0_conv list.size(3)
        not_less_eq_eq not_numeral_le_zero Suc_le_mono le_0_eq length_0_conv)
  have "w ! (length w - 1) = b" "w ! (length w - 1 - 1) = a"
    by (simp_all add: w nth_append)
  then show ?thesis
    using assms len unfolding envelopeScriptFromWitness_def Let_def
    by (intro exI [of _ pre] exI [of _ b]) (auto simp: w split: if_splits)
qed

end
