(* ===== verification/Source_Resolution.thy ===== *)
theory Source_Resolution
  imports Envelope
begin

text \<open>
  Who an action is attributed to (\<open>src/src/XChainDecoder/source_resolution.js\<close>, the envelope half
  in \<open>envelope_recognition.js\<close>, and the funding fee outputs of \<open>dispenser_and_oracle_fees.js\<close>).
  A failed node lookup is tagged and rethrown, so that no instance commits a block from an
  unresolved lookup; a decode failure of fetched bytes is not.  The lemmas show that every fetch
  either yields the parsed answer, counts and tags the RPC failure, or throws an untagged decode
  error.
\<close>

section \<open>Fetching\<close>

text \<open>
  The shape all four fetches share: \<open>getrawtransaction\<close> with an empty answer as a failure, counted
  and tagged, then the wire decode outside the tagged \<open>try\<close>.
\<close>

definition fetch_transaction :: "chain_env \<Rightarrow> jsstr \<Rightarrow> (transaction, 'z) step" where
  "fetch_transaction env txid =
     (case getRawTransaction env txid of
        RpcHex h \<Rightarrow>
          if h = [] then act_bind count_rpc_error (\<lambda>_. act_throw RpcLookupFailure)
          else (case transactionFromHex env h of
                  Inl _ \<Rightarrow> act_throw WireDecodeError
                | Inr t \<Rightarrow> act_return t)
      | RpcThrows \<Rightarrow> act_bind count_rpc_error (\<lambda>_. act_throw RpcLookupFailure)
      | RpcEmpty \<Rightarrow> act_bind count_rpc_error (\<lambda>_. act_throw RpcLookupFailure))"

definition fetchPrevoutTransaction :: "chain_env \<Rightarrow> jsstr \<Rightarrow> (transaction, 'z) step" where
  "fetchPrevoutTransaction = fetch_transaction"

definition fetchEnvelopeCommitTransaction :: "chain_env \<Rightarrow> jsstr \<Rightarrow> (transaction, 'z) step" where
  "fetchEnvelopeCommitTransaction = fetch_transaction"

section \<open>Walk-back\<close>

datatype carrier_type = CarrierP2sh | CarrierP2wsh

definition revealCarrierType :: "buffer \<Rightarrow> carrier_type option" where
  "revealCarrierType script =
     (let isP2sh = length script = 23 \<and> script ! 0 = 0xa9 \<and> script ! 1 = 0x14 \<and> script ! 22 = 0x87;
          isP2wsh = length script = 34 \<and> script ! 0 = 0 \<and> script ! 1 = 0x20
      in if isP2sh then Some CarrierP2sh else if isP2wsh then Some CarrierP2wsh else None)"

definition p2wshWalkbackEnabled :: "decoder_config \<Rightarrow> int option \<Rightarrow> bool" where
  "p2wshWalkbackEnabled cfg blockHeight =
     (if supportsSegwit cfg then True
      else \<not> (case (height_entry P2WSH_WALKBACK_SEGWIT_GATE_ACTIVATION (coinTick cfg) (consensusNetwork cfg),
                   blockHeight) of
                (Some activation, Some h) \<Rightarrow> activation \<le> h | _ \<Rightarrow> False))"

text \<open>The previous output of a transaction's first input; \<^const>\<open>None\<close> when it is out of range.\<close>

definition fetchCommitFundingOutput :: "chain_env \<Rightarrow> transaction \<Rightarrow> (tx_output option, 'z) step" where
  "fetchCommitFundingOutput env commit =
     (case field (tx_ins commit) 0 of
        None \<Rightarrow> act_throw MissingInputError
      | Some i \<Rightarrow>
          if prev_txid i = COINBASE_PREV_TXID then act_throw CoinbaseWalkback
          else act_bind (fetch_transaction env (prev_txid i))
                 (\<lambda>prev. act_return (field (tx_outs prev) (in_index i))))"

text \<open>Returns the source and the first-hop transaction (the \<open>capture\<close> out-parameter).\<close>

definition resolveSourceFromOutput ::
    "decoder_config \<Rightarrow> chain_env \<Rightarrow> jsstr \<Rightarrow> nat \<Rightarrow> int option \<Rightarrow> ((jsstr option \<times> transaction), 'z) step" where
  "resolveSourceFromOutput cfg env txId outputIndex blockHeight =
     act_bind (fetchPrevoutTransaction env txId) (\<lambda>outputTransaction.
       case field (tx_outs outputTransaction) outputIndex of
         None \<Rightarrow> act_return (None, outputTransaction)
       | Some output \<Rightarrow>
           (let carrierType = revealCarrierType (out_script output)
            in if carrierType = Some CarrierP2sh
                  \<or> (carrierType = Some CarrierP2wsh \<and> p2wshWalkbackEnabled cfg blockHeight)
               then act_bind (fetchCommitFundingOutput env outputTransaction) (\<lambda>funding.
                      act_return (case funding of None \<Rightarrow> None
                                  | Some o' \<Rightarrow> output_address env (out_script o'), outputTransaction))
               else act_return (output_address env (out_script output), outputTransaction)))"

definition getSourceFromOutput ::
    "decoder_config \<Rightarrow> chain_env \<Rightarrow> jsstr \<Rightarrow> nat \<Rightarrow> int option \<Rightarrow> ((jsstr option \<times> transaction), 'z) step" where
  "getSourceFromOutput = resolveSourceFromOutput"

definition getEnvelopeSourceFromCommit :: "chain_env \<Rightarrow> transaction \<Rightarrow> (jsstr option, 'z) step" where
  "getEnvelopeSourceFromCommit env commit =
     (case field (tx_ins commit) 0 of
        None \<Rightarrow> act_return None
      | Some i \<Rightarrow>
          if prev_txid i = COINBASE_PREV_TXID then act_throw EnvelopeCoinbaseCommit
          else act_bind (fetch_transaction env (prev_txid i)) (\<lambda>prev.
                 case field (tx_outs prev) (in_index i) of
                   None \<Rightarrow> act_return None
                 | Some output \<Rightarrow> act_return (output_address env (out_script output))))"

section \<open>Public keys\<close>

definition key_length :: "buffer \<Rightarrow> bool" where
  "key_length b \<longleftrightarrow> length b = 33 \<or> length b = 65"

definition extract_pubkey_from_script :: "chain_env \<Rightarrow> buffer \<Rightarrow> (jsstr option, 'z) step" where
  "extract_pubkey_from_script env script =
     (if script = [] then act_return None
      else act_bind (decompile_step env script) (\<lambda>r.
        case r of
          None \<Rightarrow> act_return None
        | Some s \<Rightarrow>
            if length s < 2 then act_return None
            else (case last s of
                    Data b \<Rightarrow> act_return (if key_length b then Some (uint8ArrayToHex b) else None)
                  | Op _ \<Rightarrow> act_return None)))"

definition extractPubkeyFromInput :: "chain_env \<Rightarrow> tx_input \<Rightarrow> (jsstr option, 'z) step" where
  "extractPubkeyFromInput env i =
     (case field (in_witness i) 1 of
        Some pubkey \<Rightarrow>
          if key_length pubkey then act_return (Some (uint8ArrayToHex pubkey))
          else extract_pubkey_from_script env (in_script i)
      | None \<Rightarrow> extract_pubkey_from_script env (in_script i))"

section \<open>Funding fee outputs\<close>

definition fee_output :: "chain_env \<Rightarrow> jsstr \<Rightarrow> nat \<times> tx_output \<Rightarrow> captured_output option" where
  "fee_output env dest out =
     (case out of (vout, output) \<Rightarrow>
       (case output_address env (out_script output) of
          None \<Rightarrow> None
        | Some a \<Rightarrow>
            if a \<noteq> [] \<and> a = dest
            then Some \<lparr>co_vout = vout, co_destination = a, co_amount = out_value output\<rparr>
            else None))"

definition fee_outputs :: "chain_env \<Rightarrow> jsstr \<Rightarrow> tx_output list \<Rightarrow> captured_output list" where
  "fee_outputs env dest outs = List.map_filter (fee_output env dest) (List.enumerate 0 outs)"

definition findFundingFeeOutputs ::
    "decoder_config \<Rightarrow> chain_env \<Rightarrow> jsstr \<Rightarrow> transaction option \<Rightarrow> (captured_output list, 'z) step" where
  "findFundingFeeOutputs cfg env fundingTxId prefetched =
     (case feeDestination cfg of
        None \<Rightarrow> act_return []
      | Some dest \<Rightarrow>
          if fundingTxId = [] then act_return []
          else act_bind (case prefetched of
                           Some t \<Rightarrow> act_return t
                         | None \<Rightarrow> fetch_transaction env fundingTxId)
                 (\<lambda>t. act_return (fee_outputs env dest (tx_outs t))))"

section \<open>Lemmas\<close>

lemma fetch_transaction_cases:
  assumes "fetch_transaction env txid st = (r, st')"
  shows "(\<exists>h t. getRawTransaction env txid = RpcHex h \<and> h \<noteq> [] \<and> transactionFromHex env h = Inr t
            \<and> r = Inr t \<and> st' = st)
    \<or> (r = Inl RpcLookupFailure \<and> st' = st\<lparr>rpcErrors := rpcErrors st + 1\<rparr>)
    \<or> (r = Inl WireDecodeError \<and> st' = st
        \<and> (\<exists>h. getRawTransaction env txid = RpcHex h \<and> h \<noteq> [] \<and> transactionFromHex env h = Inl ()))"
  using assms
  by (auto simp: fetch_transaction_def act_bind_def count_rpc_error_def act_throw_def act_return_def
      split: rpc_answer.splits sum.splits if_splits)

lemma fetch_transaction_no_answer:
  "getRawTransaction env txid \<in> {RpcThrows, RpcEmpty, RpcHex []} \<Longrightarrow>
    fetch_transaction env txid st = (Inl RpcLookupFailure, st\<lparr>rpcErrors := rpcErrors st + 1\<rparr>)"
  by (auto simp: fetch_transaction_def act_bind_def count_rpc_error_def act_throw_def)

text \<open>
  How a step uses the counters: parse errors only grow, and the RPC counter moves by one exactly
  when the step ends in the tagged lookup failure.  What the step threads besides keeps \<open>I\<close>.
\<close>

definition rpc_counted :: "('z \<Rightarrow> bool) \<Rightarrow> ('a, 'z) step \<Rightarrow> bool" where
  "rpc_counted I m \<longleftrightarrow> (\<forall>st r st'. m st = (r, st') \<longrightarrow>
     parseErrors st \<le> parseErrors st'
     \<and> rpcErrors st' = rpcErrors st + (if r = Inl RpcLookupFailure then 1 else 0)
     \<and> (I (decoder_stats.more st) \<longrightarrow> I (decoder_stats.more st')))"

named_theorems rpc_counted_intros

lemma rpc_counted_return [rpc_counted_intros]: "rpc_counted I (act_return x)"
  by (simp add: rpc_counted_def)

lemma rpc_counted_throw [rpc_counted_intros]: "e \<noteq> RpcLookupFailure \<Longrightarrow> rpc_counted I (act_throw e)"
  by (simp add: rpc_counted_def)

lemma rpc_counted_count [rpc_counted_intros]: "rpc_counted I count_parse_error"
  by (simp add: rpc_counted_def)

lemma rpc_counted_bind [rpc_counted_intros]:
  assumes m: "rpc_counted I m" and f: "\<And>x. rpc_counted I (f x)"
  shows "rpc_counted I (act_bind m f)"
  unfolding rpc_counted_def
proof (intro allI impI, goal_cases)
  case (1 st r st')
  obtain r1 st1 where m1: "m st = (r1, st1)"
    by (cases "m st")
  then have c1: "parseErrors st \<le> parseErrors st1"
    "rpcErrors st1 = rpcErrors st + (if r1 = Inl RpcLookupFailure then 1 else 0)"
    "I (decoder_stats.more st) \<longrightarrow> I (decoder_stats.more st1)"
    using m by (auto simp: rpc_counted_def)
  show ?case
  proof (cases r1)
    case (Inl e)
    then show ?thesis using 1 m1 c1 by (auto simp: act_bind_def)
  next
    case (Inr x)
    then have "f x st1 = (r, st')" using 1 m1 by (simp add: act_bind_def)
    then show ?thesis using f [of x] c1 Inr by (fastforce simp: rpc_counted_def)
  qed
qed

lemma rpc_counted_fold [rpc_counted_intros]:
  "(\<And>a x. rpc_counted I (f a x)) \<Longrightarrow> rpc_counted I (act_fold f acc xs)"
  by (induction xs arbitrary: acc) (auto intro: rpc_counted_intros)

lemma rpc_counted_fetch [rpc_counted_intros]: "rpc_counted I (fetch_transaction env txid)"
  unfolding rpc_counted_def by (auto dest!: fetch_transaction_cases)

lemma rpc_counted_decompile [rpc_counted_intros]: "rpc_counted I (decompile_step env b)"
  unfolding decompile_step_def by (auto split: sum.split intro: rpc_counted_intros)

lemma rpc_counted_deobfuscate [rpc_counted_intros]: "rpc_counted I (removeObfuscation env d t)"
  unfolding removeObfuscation_def Let_def
  by (auto split: chunk.split intro: rpc_counted_intros)

lemma rpc_counted_p2sh [rpc_counted_intros]: "rpc_counted I (readP2shChunks env idx ins acc)"
  by (induction env idx ins acc rule: readP2shChunks.induct)
    (auto split: sum.split intro: rpc_counted_intros)

lemma rpc_counted_p2wsh [rpc_counted_intros]: "rpc_counted I (readP2wshChunks env segwit idx ins acc)"
  by (induction env segwit idx ins acc rule: readP2wshChunks.induct)
    (auto split: sum.split intro: rpc_counted_intros)

lemma rpc_counted_op_return [rpc_counted_intros]:
  "rpc_counted I (readOpReturnCarrier env segwit tx push t c)"
  unfolding readOpReturnCarrier_def Let_def
  by (auto split: option.split intro!: rpc_counted_intros)

lemma rpc_counted_multisign [rpc_counted_intros]: "rpc_counted I (readMultisignCarrier env k1 k2 t c)"
  unfolding readMultisignCarrier_def
  by (auto split: option.split intro!: rpc_counted_intros)

lemma rpc_counted_carrier [rpc_counted_intros]: "rpc_counted I (read_carrier env segwit tx s t c)"
  unfolding read_carrier_def
  by (auto split: option.split chunk.split intro!: rpc_counted_intros)

lemma rpc_counted_scan [rpc_counted_intros]: "rpc_counted I (scanOutputs env segwit tx od t sc)"
  unfolding scanOutputs_def scan_output_def Let_def
  by (auto split: prod.split intro!: rpc_counted_intros)

lemma rpc_counted_payload [rpc_counted_intros]: "rpc_counted I (decompilePayload env e pl)"
  unfolding decompilePayload_def reportEmptyLeadingPush_def Let_def
  by (auto split: option.split list.split chunk.split intro!: rpc_counted_intros)

lemma rpc_counted_source [rpc_counted_intros]:
  "rpc_counted I (getSourceFromOutput cfg env txid n h)"
  unfolding getSourceFromOutput_def resolveSourceFromOutput_def fetchPrevoutTransaction_def
    fetchCommitFundingOutput_def Let_def
  by (auto split: option.split intro!: rpc_counted_intros)

lemma rpc_counted_envelope_source [rpc_counted_intros]:
  "rpc_counted I (getEnvelopeSourceFromCommit env tx)"
  unfolding getEnvelopeSourceFromCommit_def
  by (auto split: option.split intro!: rpc_counted_intros)

lemma rpc_counted_commit [rpc_counted_intros]: "rpc_counted I (fetchEnvelopeCommitTransaction env t)"
  unfolding fetchEnvelopeCommitTransaction_def by (rule rpc_counted_intros)

lemma rpc_counted_pubkey [rpc_counted_intros]: "rpc_counted I (extractPubkeyFromInput env i)"
  unfolding extractPubkeyFromInput_def extract_pubkey_from_script_def
  by (auto split: option.split chunk.split intro!: rpc_counted_intros)

lemma rpc_counted_fees [rpc_counted_intros]: "rpc_counted I (findFundingFeeOutputs cfg env t p)"
  unfolding findFundingFeeOutputs_def
  by (auto split: option.split intro!: rpc_counted_intros)

lemma fee_output_Some:
  "fee_output env dest (i, out) = Some c \<Longrightarrow>
    co_vout c = i \<and> co_amount c = out_value out \<and> co_destination c = dest \<and> dest \<noteq> []
    \<and> output_address env (out_script out) = Some dest"
  by (auto simp: fee_output_def split: option.splits if_splits)

lemma fee_outputs_sound:
  assumes "c \<in> set (fee_outputs env dest outs)"
  shows "captured_from env outs c \<and> co_destination c = dest"
proof -
  obtain i out where "fee_output env dest (i, out) = Some c" "i < length outs" "out = outs ! i"
    using assms by (force simp: fee_outputs_def List.map_filter_def in_set_enumerate_eq)
  then show ?thesis
    using fee_output_Some by (fastforce simp: captured_from_def)
qed

lemma fee_outputs_distinct: "distinct (map co_vout (fee_outputs env dest outs))"
proof -
  have "distinct (map co_vout (List.map_filter (fee_output env dest) (List.enumerate n outs)))
    \<and> (\<forall>c \<in> set (List.map_filter (fee_output env dest) (List.enumerate n outs)). n \<le> co_vout c)" for n
  proof (induction outs arbitrary: n)
    case (Cons out outs)
    have ge: "\<forall>c \<in> set (List.map_filter (fee_output env dest) (List.enumerate (Suc n) outs)). Suc n \<le> co_vout c"
      using Cons.IH by blast
    show ?case
    proof (cases "fee_output env dest (n, out)")
      case None
      then have "List.map_filter (fee_output env dest) (List.enumerate n (out # outs))
          = List.map_filter (fee_output env dest) (List.enumerate (Suc n) outs)"
        by (simp add: List.map_filter_def)
      then show ?thesis
        using Cons.IH [of "Suc n"] Suc_leD by metis
    next
      case (Some c)
      then have "co_vout c = n"
        using fee_output_Some by blast
      moreover have "List.map_filter (fee_output env dest) (List.enumerate n (out # outs))
          = c # List.map_filter (fee_output env dest) (List.enumerate (Suc n) outs)"
        using Some by (simp add: List.map_filter_def)
      ultimately show ?thesis
        using Cons.IH [of "Suc n"] ge by (auto simp: Suc_le_eq)
    qed
  qed (simp add: List.map_filter_def)
  then show ?thesis
    by (simp add: fee_outputs_def)
qed

end
