(* ===== verification/Transaction_Parsing.thy ===== *)
theory Transaction_Parsing
  imports Source_Resolution
begin

text \<open>
  Parsing one transaction (\<open>src/src/XChainDecoder/transaction_parsing.js\<close>): the output scan, the
  envelope arbitration, decompiling the payload, attributing source and public key, and the funding
  fee outputs, composed as the source composes them.  The lemmas show that the stored output keys
  never collide, that an envelope action needs exactly one envelope in the first input and no other
  carrier, and that the RPC counter and the tagged failure go together.
\<close>

section \<open>Constants and records\<close>

definition MAX_ACTION_DATA_LENGTH :: nat where
  "MAX_ACTION_DATA_LENGTH = 8192"

definition ENVELOPE_MAX_PAYLOAD :: nat where
  "ENVELOPE_MAX_PAYLOAD = 390000"

text \<open>
  The two database reads and the write of the public-key capture, on the part of the state that is
  not the counters; a throw is \<^const>\<open>Inl\<close>.
\<close>

record 'z pubkey_db =
  db_getAddressId :: "jsstr \<Rightarrow> 'z \<Rightarrow> (unit + nat option) \<times> 'z"
  db_hasPubkey :: "nat \<Rightarrow> 'z \<Rightarrow> (unit + bool) \<times> 'z"
  db_insertPubkey :: "nat \<Rightarrow> jsstr \<Rightarrow> 'z \<Rightarrow> (unit + bool) \<times> 'z"

record parse_result =
  pr_data :: buffer
  pr_compiledDataLength :: nat
  pr_rawData :: "buffer option"
  pr_source :: "jsstr option"
  pr_sourcePubkey :: "jsstr option"
  pr_dispenseOutputs :: "captured_output list"
  pr_paymentOutputs :: "captured_output list"
  pr_payloadCeiling :: nat
  pr_envelope :: bool

record arb_state =
  ar_data :: buffer
  ar_funding :: "jsstr option"
  ar_envelope :: bool
  ar_commit :: "transaction option"

section \<open>Steps\<close>

text \<open>The inputs that carry an envelope, with their index and payload.\<close>

definition envelope_inputs :: "chain_env \<Rightarrow> tx_input list \<Rightarrow> (nat \<times> buffer) list" where
  "envelope_inputs env ins =
     List.map_filter (\<lambda>(idx, i). map_option (Pair idx) (detectEnvelopeWitness env (in_witness i)))
       (List.enumerate 0 ins)"

definition arbitrateEnvelope ::
    "decoder_config \<Rightarrow> chain_env \<Rightarrow> bool \<Rightarrow> (nat \<times> buffer) list \<Rightarrow> int option \<Rightarrow> jsstr \<Rightarrow> bool
      \<Rightarrow> arb_state \<Rightarrow> (arb_state, 'z) step" where
  "arbitrateEnvelope cfg env envelopeActive envelopeInputs blockHeight firstInputTxId
      otherCarrierRecognized arb =
     (if envelopeActive \<and> envelopeInputs \<noteq> [] then
        (let carrierRecognitionActive = envelopeCarrierRecognitionActiveAt cfg blockHeight;
             otherCarrierPresent = ar_data arb \<noteq> [] \<or> ar_funding arb \<noteq> None
               \<or> (carrierRecognitionActive \<and> otherCarrierRecognized)
         in if 2 \<le> length envelopeInputs \<or> otherCarrierPresent \<or> fst (hd envelopeInputs) \<noteq> 0
            then act_bind count_parse_error
                   (\<lambda>_. act_return (arb\<lparr>ar_data := [], ar_funding := None\<rparr>))
            else act_bind (fetchEnvelopeCommitTransaction env firstInputTxId) (\<lambda>commit.
                   act_return \<lparr>ar_data = snd (hd envelopeInputs), ar_funding = Some firstInputTxId,
                     ar_envelope = True, ar_commit = Some commit\<rparr>))
      else act_return arb)"

definition db_step :: "('z \<Rightarrow> (unit + 'a) \<times> 'z) \<Rightarrow> ('a, 'z) step" where
  "db_step m st =
     (case m (decoder_stats.more st) of (r, z) \<Rightarrow>
        (case r of Inl _ \<Rightarrow> Inl DbLookupFailure | Inr x \<Rightarrow> Inr x,
         decoder_stats.more_update (\<lambda>_. z) st))"

definition capturePubkey ::
    "chain_env \<Rightarrow> 'z pubkey_db \<Rightarrow> bool \<Rightarrow> tx_input option \<Rightarrow> jsstr option \<Rightarrow> (jsstr option, 'z) step" where
  "capturePubkey env db mempool keyInput source =
     (case (truthy_text source, keyInput) of
        (Some src, Some i) \<Rightarrow>
          act_bind (extractPubkeyFromInput env i) (\<lambda>pubkey.
            case pubkey of
              None \<Rightarrow> act_return None
            | Some k \<Rightarrow>
                if mempool then act_return (Some k)
                else act_bind (db_step (db_getAddressId db src)) (\<lambda>addressId.
                  case addressId of
                    None \<Rightarrow> act_return (Some k)
                  | Some a \<Rightarrow>
                      if a = 0 then act_return (Some k)
                      else act_bind (db_step (db_hasPubkey db a)) (\<lambda>known.
                        if known then act_return (Some k)
                        else act_bind (db_step (db_insertPubkey db a k))
                               (\<lambda>_. act_return (Some k)))))
      | _ \<Rightarrow> act_return None)"

definition shift_funding :: "captured_output \<Rightarrow> captured_output" where
  "shift_funding c = c\<lparr>co_vout := FUNDING_VOUT_BASE + co_vout c\<rparr>"

definition attributeFundingFees ::
    "decoder_config \<Rightarrow> chain_env \<Rightarrow> jsstr option \<Rightarrow> jsstr \<Rightarrow> transaction option \<Rightarrow> transaction option
      \<Rightarrow> captured_output list \<Rightarrow> (captured_output list, 'z) step" where
  "attributeFundingFees cfg env p2shFundingTxId firstInputTxId envelopeCommit sourceTransaction payments =
     (case truthy_text p2shFundingTxId of
        None \<Rightarrow> act_return payments
      | Some fundingTxId \<Rightarrow>
          (let prefetched = (case envelopeCommit of
                 Some t \<Rightarrow> Some t
               | None \<Rightarrow> if fundingTxId = firstInputTxId then sourceTransaction else None)
           in act_bind (findFundingFeeOutputs cfg env fundingTxId prefetched)
                (\<lambda>fees. act_return (payments @ map shift_funding fees))))"

definition buildParseResult ::
    "payload_state \<Rightarrow> jsstr option \<Rightarrow> jsstr option \<Rightarrow> captured_output list \<Rightarrow> captured_output list
      \<Rightarrow> bool \<Rightarrow> parse_result" where
  "buildParseResult pl source sourcePubkey dispense payments envelopeCarrier =
     \<lparr>pr_data = pl_data pl, pr_compiledDataLength = pl_compiledLength pl,
      pr_rawData = pl_rawData pl, pr_source = source, pr_sourcePubkey = sourcePubkey,
      pr_dispenseOutputs = dispense, pr_paymentOutputs = payments,
      pr_payloadCeiling = (if envelopeCarrier then ENVELOPE_MAX_PAYLOAD else MAX_ACTION_DATA_LENGTH),
      pr_envelope = envelopeCarrier\<rparr>"

text \<open>The source and the first-hop transaction it was read through.\<close>

definition resolve_source ::
    "decoder_config \<Rightarrow> chain_env \<Rightarrow> tx_input \<Rightarrow> int option \<Rightarrow> jsstr \<Rightarrow> arb_state \<Rightarrow> bool
      \<Rightarrow> ((jsstr option \<times> transaction option), 'z) step" where
  "resolve_source cfg env firstInput blockHeight firstInputTxId arb getSource =
     (if \<not> getSource then act_return (None, None)
      else (case (ar_envelope arb, ar_commit arb) of
              (True, Some commit) \<Rightarrow>
                act_bind (getEnvelopeSourceFromCommit env commit) (\<lambda>s. act_return (s, None))
            | (True, None) \<Rightarrow> act_throw MissingInputError
            | (False, _) \<Rightarrow>
                act_bind (getSourceFromOutput cfg env firstInputTxId (in_index firstInput) blockHeight)
                  (\<lambda>(s, t). act_return (s, Some t))))"

definition resolveXChainTransaction ::
    "decoder_config \<Rightarrow> chain_env \<Rightarrow> 'z pubkey_db \<Rightarrow> bool \<Rightarrow> tx_input \<Rightarrow> int option \<Rightarrow> jsstr
      \<Rightarrow> scan_state \<Rightarrow> arb_state \<Rightarrow> (parse_result, 'z) step" where
  "resolveXChainTransaction cfg env db mempool firstInput blockHeight firstInputTxId sc arb =
     act_bind (decompilePayload env (ar_envelope arb)
         \<lparr>pl_data = ar_data arb, pl_rawData = None, pl_getSource = sc_getSource sc,
          pl_compiledLength = length (ar_data arb)\<rparr>) (\<lambda>pl.
       act_bind (resolve_source cfg env firstInput blockHeight firstInputTxId arb (pl_getSource pl))
         (\<lambda>(source, sourceTransaction).
       act_bind (capturePubkey env db mempool
           (if ar_envelope arb
            then Option.bind (ar_commit arb) (\<lambda>commit. field (tx_ins commit) 0)
            else Some firstInput) source) (\<lambda>sourcePubkey.
       act_bind (attributeFundingFees cfg env (ar_funding arb) firstInputTxId (ar_commit arb)
           sourceTransaction (sc_payments sc)) (\<lambda>payments.
       act_return (buildParseResult pl source sourcePubkey (sc_dispense sc) payments
         (ar_envelope arb))))))"

definition parseXChainTransaction ::
    "decoder_config \<Rightarrow> chain_env \<Rightarrow> (jsstr \<Rightarrow> bool) \<Rightarrow> 'z pubkey_db \<Rightarrow> bool \<Rightarrow> int option
      \<Rightarrow> transaction \<Rightarrow> tx_input \<Rightarrow> jsstr \<Rightarrow> (parse_result, 'z) step" where
  "parseXChainTransaction cfg env openDispenser db mempool blockHeight tx firstInput firstInputTxId =
     (let envelopeActive = envelopeActiveAt cfg blockHeight;
          envelopeInputs = (if envelopeActive then envelope_inputs env (tx_ins tx) else [])
      in act_bind (scanOutputs env (supportsSegwit cfg) tx openDispenser firstInputTxId scan_init) (\<lambda>sc.
         act_bind (arbitrateEnvelope cfg env envelopeActive envelopeInputs blockHeight firstInputTxId
             (sc_otherCarrier sc)
             \<lparr>ar_data = sc_dataBuffer sc, ar_funding = sc_p2shFundingTxId sc,
              ar_envelope = False, ar_commit = None\<rparr>) (\<lambda>arb.
         resolveXChainTransaction cfg env db mempool firstInput blockHeight firstInputTxId sc arb)))"

definition parseTransaction ::
    "decoder_config \<Rightarrow> chain_env \<Rightarrow> (jsstr \<Rightarrow> bool) \<Rightarrow> 'z pubkey_db \<Rightarrow> bool \<Rightarrow> int option
      \<Rightarrow> transaction \<Rightarrow> (parse_result option, 'z) step" where
  "parseTransaction cfg env openDispenser db mempool blockHeight tx =
     (case field (tx_ins tx) 0 of
        None \<Rightarrow> act_return None
      | Some firstInput \<Rightarrow>
          (let firstInputTxId = prev_txid firstInput;
               standardInput = (case in_standard firstInput of None \<Rightarrow> True | Some b \<Rightarrow> b)
           in if firstInputTxId \<noteq> COINBASE_PREV_TXID \<and> standardInput
              then act_bind (parseXChainTransaction cfg env openDispenser db mempool blockHeight tx
                     firstInput firstInputTxId) (\<lambda>r. act_return (Some r))
              else act_return None))"

definition parseRawTransaction ::
    "decoder_config \<Rightarrow> chain_env \<Rightarrow> 'z pubkey_db \<Rightarrow> jsstr \<Rightarrow> (parse_result option, 'z) step" where
  "parseRawTransaction cfg env db rawTransaction =
     (case transactionFromHex env rawTransaction of
        Inl _ \<Rightarrow> act_throw WireDecodeError
      | Inr tx \<Rightarrow> parseTransaction cfg env (\<lambda>_. False) db False None tx)"

section \<open>Stored output keys\<close>

lemma attributeFundingFees_Inr:
  assumes "attributeFundingFees cfg env f t c s payments (st :: 'z decoder_stats_scheme) = (Inr ps, st')"
  shows "\<exists>fees outs. ps = payments @ map shift_funding fees \<and> distinct (map co_vout fees)
    \<and> (\<forall>x \<in> set fees. captured_from env outs x \<and> Some (co_destination x) = feeDestination cfg)"
proof (cases "truthy_text f")
  case None
  then show ?thesis
    using assms by (auto simp: attributeFundingFees_def intro!: exI [of _ "[]"])
next
  case (Some ft)
  then obtain fees p and s1 s2 :: "'z decoder_stats_scheme" where fees: "findFundingFeeOutputs cfg env ft p s1 = (Inr fees, s2)"
      "ps = payments @ map shift_funding fees"
    using assms by (auto simp: attributeFundingFees_def act_bind_Inr Let_def)
  then have "fees = [] \<or> (\<exists>dest outs. feeDestination cfg = Some dest \<and> fees = fee_outputs env dest outs)"
    by (auto simp: findFundingFeeOutputs_def act_bind_Inr split: option.splits if_splits)
  then show ?thesis
  proof
    assume "fees = []"
    then show ?thesis using fees(2) by (intro exI [of _ "[]"]) simp
  next
    assume "\<exists>dest outs. feeDestination cfg = Some dest \<and> fees = fee_outputs env dest outs"
    then obtain dest outs where "feeDestination cfg = Some dest" "fees = fee_outputs env dest outs"
      by blast
    then show ?thesis
      using fees(2) fee_outputs_distinct fee_outputs_sound
      by (intro exI [of _ fees] exI [of _ outs]) auto
  qed
qed

lemma shift_funding_vouts: "map co_vout (map shift_funding fees) = map ((+) FUNDING_VOUT_BASE) (map co_vout fees)"
  by (simp add: shift_funding_def)

text \<open>A parse that returns a result went through its four phases.\<close>

lemma parseTransaction_phases:
  assumes "parseTransaction cfg env od db mempool h tx st = (Inr (Some r), st')"
  obtains i sc arb pl source src key payments s1 s2 s3 s4 s5 where
    "field (tx_ins tx) 0 = Some i" "prev_txid i \<noteq> COINBASE_PREV_TXID"
    "scanOutputs env (supportsSegwit cfg) tx od (prev_txid i) scan_init st = (Inr sc, s1)"
    "arbitrateEnvelope cfg env (envelopeActiveAt cfg h)
       (if envelopeActiveAt cfg h then envelope_inputs env (tx_ins tx) else []) h (prev_txid i)
       (sc_otherCarrier sc) \<lparr>ar_data = sc_dataBuffer sc, ar_funding = sc_p2shFundingTxId sc,
         ar_envelope = False, ar_commit = None\<rparr> s1 = (Inr arb, s2)"
    "decompilePayload env (ar_envelope arb) \<lparr>pl_data = ar_data arb, pl_rawData = None,
       pl_getSource = sc_getSource sc, pl_compiledLength = length (ar_data arb)\<rparr> s2 = (Inr pl, s3)"
    "resolve_source cfg env i h (prev_txid i) arb (pl_getSource pl) s3 = (Inr (source, src), s4)"
    "attributeFundingFees cfg env (ar_funding arb) (prev_txid i) (ar_commit arb) src
       (sc_payments sc) s5 = (Inr payments, st')"
    "r = buildParseResult pl source key (sc_dispense sc) payments (ar_envelope arb)"
proof (cases "field (tx_ins tx) 0")
  case None
  then show ?thesis
    using assms by (simp add: parseTransaction_def)
next
  case (Some i)
  have "prev_txid i \<noteq> COINBASE_PREV_TXID"
    using assms Some by (auto simp: parseTransaction_def Let_def split: if_splits)
  moreover have "parseXChainTransaction cfg env od db mempool h tx i (prev_txid i) st = (Inr r, st')"
    using assms Some by (auto simp: parseTransaction_def Let_def act_bind_Inr split: if_splits)
  ultimately show ?thesis
    using that Some
    by (auto simp: parseXChainTransaction_def resolveXChainTransaction_def Let_def act_bind_Inr)
qed

lemma parse_vouts_distinct:
  assumes run: "parseTransaction cfg env od db mempool h tx st = (Inr (Some r), st')"
    and bound: "length (tx_outs tx) \<le> FUNDING_VOUT_BASE"
  shows "distinct (map co_vout (pr_dispenseOutputs r @ pr_paymentOutputs r))"
proof -
  from run obtain i :: tx_input and sc :: scan_state and arb :: arb_state and pl :: payload_state
      and source src key payments s1 s5 where
    scan: "scanOutputs env (supportsSegwit cfg) tx od (prev_txid i) scan_init st = (Inr sc, s1)"
    and fees: "attributeFundingFees cfg env (ar_funding arb) (prev_txid i) (ar_commit arb) src
       (sc_payments sc) s5 = (Inr payments, st')"
    and r: "r = buildParseResult pl source key (sc_dispense sc) payments (ar_envelope arb)"
    by (rule parseTransaction_phases) (rule that)
  have ok: "scan_outputs_ok env (tx_outs tx) od (length (tx_outs tx)) sc"
    using scanOutputs_ok [OF scan] .
  obtain fs where fs: "payments = sc_payments sc @ map shift_funding fs" "distinct (map co_vout fs)"
    using attributeFundingFees_Inr [OF fees] by blast
  have low: "\<forall>v \<in> set (map co_vout (sc_dispense sc @ sc_payments sc)). v < FUNDING_VOUT_BASE"
    using ok bound by (auto simp: scan_outputs_ok_def)
  have d1: "distinct (map co_vout (sc_dispense sc @ sc_payments sc))"
    using ok by (simp add: scan_outputs_ok_def)
  have "distinct (map co_vout (map shift_funding fs))"
    unfolding shift_funding_vouts using fs(2) by (simp add: distinct_map inj_on_def)
  moreover have "\<forall>v \<in> set (map co_vout (map shift_funding fs)). FUNDING_VOUT_BASE \<le> v"
    by (auto simp: shift_funding_def)
  ultimately have "distinct (map co_vout (sc_dispense sc @ sc_payments sc) @ map co_vout (map shift_funding fs))"
    using d1 low by (fastforce simp only: distinct_append)
  then show ?thesis
    by (simp add: r fs(1) buildParseResult_def)
qed

section \<open>Envelopes\<close>

lemma envelope_inputs_mem:
  "(j, p) \<in> set (envelope_inputs env ins) \<longleftrightarrow>
     j < length ins \<and> detectEnvelopeWitness env (in_witness (ins ! j)) = Some p"
  unfolding envelope_inputs_def in_set_map_filter
  by (auto simp: in_set_enumerate_eq split: prod.splits)

lemma arbitrate_envelope:
  assumes "arbitrateEnvelope cfg env active envs h t other arb st = (Inr arb', st')"
    and "\<not> ar_envelope arb"
  shows "(if active \<and> envs \<noteq> [] then
            (if length envs = 1 \<and> fst (hd envs) = 0 \<and> ar_data arb = [] \<and> ar_funding arb = None
                 \<and> \<not> (envelopeCarrierRecognitionActiveAt cfg h \<and> other)
             then ar_envelope arb' \<and> ar_data arb' = snd (hd envs) \<and> ar_funding arb' = Some t
             else \<not> ar_envelope arb' \<and> ar_data arb' = [] \<and> ar_funding arb' = None)
          else arb' = arb)"
proof (cases envs)
  case Nil
  then show ?thesis using assms by (simp add: arbitrateEnvelope_def)
next
  case (Cons e es)
  then show ?thesis
    using assms by (cases es) (auto simp: arbitrateEnvelope_def Let_def act_bind_Inr split: if_splits)
qed

lemma decompile_empty:
  "decompilePayload env e pl st = (Inr pl', st') \<Longrightarrow> pl_data pl = [] \<Longrightarrow> pl' = pl"
  by (simp add: decompilePayload_def)

text \<open>Every throw site of a parse keeps the RPC counter in step with the tag.\<close>

lemma rpc_counted_db:
  assumes "\<And>z r z'. m z = (r, z') \<Longrightarrow> I z \<Longrightarrow> I z'"
  shows "rpc_counted I (db_step m)"
  using assms by (auto simp: rpc_counted_def db_step_def split: prod.splits sum.splits)

definition pubkey_db_keeps :: "('z \<Rightarrow> bool) \<Rightarrow> 'z pubkey_db \<Rightarrow> bool" where
  "pubkey_db_keeps I db \<longleftrightarrow>
     (\<forall>a z r z'. db_getAddressId db a z = (r, z') \<longrightarrow> I z \<longrightarrow> I z')
     \<and> (\<forall>i z r z'. db_hasPubkey db i z = (r, z') \<longrightarrow> I z \<longrightarrow> I z')
     \<and> (\<forall>i k z r z'. db_insertPubkey db i k z = (r, z') \<longrightarrow> I z \<longrightarrow> I z')"

lemma pubkey_db_keeps_True [simp]: "pubkey_db_keeps (\<lambda>_. True) db"
  by (simp add: pubkey_db_keeps_def)

lemma rpc_counted_capture [rpc_counted_intros]:
  assumes "pubkey_db_keeps I db"
  shows "rpc_counted I (capturePubkey env db m i s)"
proof -
  have "rpc_counted I (db_step (db_getAddressId db a))" "rpc_counted I (db_step (db_hasPubkey db n))"
    "rpc_counted I (db_step (db_insertPubkey db n k))" for a n k
    using assms by (auto simp: pubkey_db_keeps_def intro!: rpc_counted_db)
  then show ?thesis
    unfolding capturePubkey_def by (auto split: option.split intro!: rpc_counted_intros)
qed

lemma rpc_counted_arbitrate [rpc_counted_intros]:
  "rpc_counted I (arbitrateEnvelope cfg env a es h t o' arb)"
  unfolding arbitrateEnvelope_def Let_def by (auto intro!: rpc_counted_intros)

lemma rpc_counted_attribute [rpc_counted_intros]:
  "rpc_counted I (attributeFundingFees cfg env f t c s p)"
  unfolding attributeFundingFees_def Let_def by (auto split: option.split intro!: rpc_counted_intros)

lemma rpc_counted_resolve [rpc_counted_intros]:
  "rpc_counted I (resolve_source cfg env i h t arb g)"
  unfolding resolve_source_def
  by (auto split: option.split bool.split prod.split intro!: rpc_counted_intros)

lemma rpc_counted_parse:
  assumes "pubkey_db_keeps I db"
  shows "rpc_counted I (parseTransaction cfg env od db m h tx)"
  using assms unfolding parseTransaction_def parseXChainTransaction_def resolveXChainTransaction_def Let_def
  by (auto split: option.split prod.split intro!: rpc_counted_intros)

end
