(* ===== verification/Storage_Gate.thy ===== *)
theory Storage_Gate
  imports Transaction_Parsing Registration Db_Connection
begin

text \<open>
  What a parse result stores (\<open>src/src/XChainDecoder/dispenser_and_oracle_fees.js\<close>): the test whether
  it is stored at all, the record a transactions row holds, and the oracle addresses whose outputs
  are captured with it.  The main lemma is the contract readers rely on: a stored action text is
  empty or starts with a known action name in its canonical spelling.
\<close>

section \<open>Definitions\<close>

definition hasStorableContent :: "parse_result option \<Rightarrow> bool" where
  "hasStorableContent parseResult =
     (case parseResult of
        None \<Rightarrow> False
      | Some r \<Rightarrow> (0 < length (pr_data r) \<and> pr_source r \<noteq> None) \<or> 0 < length (pr_dispenseOutputs r))"

record stored_record =
  st_skip :: bool
  st_data :: jsstr
  st_rawData :: "buffer option"

text \<open>The record, with the parse-error counter threaded through.\<close>

definition buildStoredActionRecord :: "parse_result \<Rightarrow> nat \<Rightarrow> stored_record \<times> nat" where
  "buildStoredActionRecord r errors =
     (let payload = pr_data r
      in if payload = [] then (\<lparr>st_skip = False, st_data = [], st_rawData = pr_rawData r\<rparr>, errors)
         else
           (let hasOutputs = pr_dispenseOutputs r \<noteq> [] \<or> pr_paymentOutputs r \<noteq> [];
                payloadCeiling = (if pr_payloadCeiling r = 0 then MAX_ACTION_DATA_LENGTH
                                  else pr_payloadCeiling r)
            in if payloadCeiling < pr_compiledDataLength r
               then (\<lparr>st_skip = \<not> hasOutputs, st_data = [], st_rawData = None\<rparr>, errors + 1)
               else
                 (let canonical = canonicalizeActionPayload payload;
                      (decodedData, errors') =
                        (case strict_decode (out_buffer canonical) of
                           Some d \<Rightarrow> (d, errors)
                         | None \<Rightarrow> (lenient_decode (out_buffer canonical), errors + 1))
                  in if \<not> isKnown canonical
                     then (\<lparr>st_skip = \<not> hasOutputs, st_data = [], st_rawData = None\<rparr>, errors' + 1)
                     else (\<lparr>st_skip = False, st_data = decodedData, st_rawData = pr_rawData r\<rparr>, errors'))))"

text \<open>
  The open-dispenser accessors of the database: \<^const>\<open>None\<close> is their \<open>false\<close> on a fault, an inner
  \<^const>\<open>None\<close> a \<open>null\<close> address.
\<close>

record 'z oracle_db =
  db_oracleSet :: "jsstr \<Rightarrow> ('z, jsstr option list option) op"
  db_oracleOne :: "jsstr \<Rightarrow> ('z, jsstr option option) op"

definition oracle_read :: "('z, 'a) op \<Rightarrow> (nat \<times> 'z, 'a) op" where
  "oracle_read m st = (case m (snd st) of (r, z) \<Rightarrow> (r, fst st, z))"

definition count_oracle_error :: "(nat \<times> 'z, unit) op" where
  "count_oracle_error st = (Inr (), fst st + 1, snd st)"

definition resolveOracleFeeAddresses ::
    "decoder_config \<Rightarrow> 'z oracle_db \<Rightarrow> jsstr \<Rightarrow> jsstr option \<Rightarrow> js_time \<Rightarrow> (nat \<times> 'z, jsstr list option) op" where
  "resolveOracleFeeAddresses cfg db decodedData source blockTime =
     (if \<not> starts_with (js ''DISPENSER|'') decodedData then db_return (Some [])
      else if \<not> isOracleFeeCaptureActive (consensusNetwork cfg) blockTime then db_return (Some [])
      else
        (let fs = split_on pipe decodedData
         in if dispenser_format fs = Some 0 then
              (if isCompactedOracleAddress fs
               then db_bind count_oracle_error (\<lambda>_. db_return (Some []))
               else db_return (Some (case oracleAddressFromCreate fs of None \<Rightarrow> [] | Some a \<Rightarrow> [a])))
            else if dispenser_format fs = Some 2 then
              (case truthy_text source of
                 None \<Rightarrow> db_return (Some [])
               | Some src \<Rightarrow>
                   if isOracleFeeSetCaptureActive (consensusNetwork cfg) blockTime
                   then db_bind (oracle_read (db_oracleSet db src)) (\<lambda>as.
                     db_return (map_option (List.map_filter truthy_text) as))
                   else db_bind (oracle_read (db_oracleOne db src)) (\<lambda>a.
                     db_return (map_option (\<lambda>x. case truthy_text x of None \<Rightarrow> [] | Some y \<Rightarrow> [y]) a)))
            else db_return (Some [])))"

fun resolve_oracle_loop ::
    "decoder_config \<Rightarrow> 'z oracle_db \<Rightarrow> jsstr option \<Rightarrow> js_time \<Rightarrow> jsstr list \<Rightarrow> jsstr list \<Rightarrow> jsstr list
      \<Rightarrow> (nat \<times> 'z, jsstr list option) op" where
  "resolve_oracle_loop cfg db source blockTime [] resolved addresses = db_return (Some addresses)"
| "resolve_oracle_loop cfg db source blockTime (c # cs) resolved addresses =
     (if \<not> starts_with (js ''DISPENSER|'') c
      then resolve_oracle_loop cfg db source blockTime cs resolved addresses
      else
        (let cacheKey = (if starts_with (js ''DISPENSER|2|'') c then js ''DISPENSER|2|'' else c)
         in if cacheKey \<in> set resolved
            then resolve_oracle_loop cfg db source blockTime cs resolved addresses
            else db_bind (resolveOracleFeeAddresses cfg db c source blockTime) (\<lambda>found.
                   case found of
                     None \<Rightarrow> db_return None
                   | Some as \<Rightarrow>
                       resolve_oracle_loop cfg db source blockTime cs (cacheKey # resolved)
                         (addresses @ as))))"

definition resolveOracleFeeAddressesForCommands ::
    "decoder_config \<Rightarrow> 'z oracle_db \<Rightarrow> jsstr list \<Rightarrow> jsstr option \<Rightarrow> js_time
      \<Rightarrow> (nat \<times> 'z, jsstr list option) op" where
  "resolveOracleFeeAddressesForCommands cfg db commands source blockTime =
     resolve_oracle_loop cfg db source blockTime commands [] []"

section \<open>The stored name\<close>

lemma utf16_units_ascii: "(\<forall>u \<in> set (utf16_units c). u < 128) \<longleftrightarrow> c < 128"
  by (auto simp: utf16_units_def)

lemma lenient_ascii_scalars:
  assumes "\<forall>u \<in> set (concat (map utf16_units (lenient_scalars out))). u < 128"
  shows "None \<notin> set out \<and> (\<forall>c. Some c \<in> set out \<longrightarrow> c < 128)"
proof -
  have all: "(case x of None \<Rightarrow> replacement_char | Some c \<Rightarrow> c) < 128" if "x \<in> set out" for x
  proof -
    have "\<forall>u \<in> set (utf16_units (case x of None \<Rightarrow> replacement_char | Some c \<Rightarrow> c)). u < 128"
      using assms that by (auto simp: lenient_scalars_def)
    then show ?thesis
      by (simp add: utf16_units_ascii)
  qed
  have "None \<notin> set out"
  proof
    assume "None \<in> set out"
    from all [OF this] show False
      by (simp add: replacement_char_def)
  qed
  moreover have "c < 128" if "Some c \<in> set out" for c
    using all [OF that] by simp
  ultimately show ?thesis by blast
qed

text \<open>Text that decodes to ASCII was that ASCII, after a byte-order mark at most.\<close>

lemma lenient_decode_ascii_bytes:
  assumes "lenient_decode b = n" "ascii_units n"
  shows "strip_bom (map unat b) = n"
proof -
  let ?out = "decode_scalars b"
  have asc: "\<forall>u \<in> set (concat (map utf16_units (lenient_scalars ?out))). u < 128"
    using assms by (auto simp: lenient_decode_def ascii_units_def)
  from lenient_ascii_scalars [OF asc]
  have some: "None \<notin> set ?out" "\<forall>c. Some c \<in> set ?out \<longrightarrow> c < 128"
    by blast+
  have out: "?out = map Some (map the ?out)"
    using map_Some_the [OF some(1)] by simp
  have small: "\<forall>c \<in> set (map the ?out). c < 128"
  proof
    fix c
    assume "c \<in> set (map the ?out)"
    then have "Some c \<in> Some ` set (map the ?out)"
      by (rule imageI)
    then have "Some c \<in> set (map Some (map the ?out))"
      by (simp only: set_map)
    then show "c < 128"
      using some(2) map_Some_the [OF some(1)] by metis
  qed
  have id1: "concat (map utf16_units cs) = cs" if "\<forall>c \<in> set cs. c < 128" for cs
    using that by (induction cs) (auto simp: utf16_units_def)
  have id2: "concat (map utf8_bytes cs) = cs" if "\<forall>c \<in> set cs. c < 128" for cs
    using that by (induction cs) (auto simp: utf8_bytes_def)
  have "lenient_scalars ?out = map the ?out"
    by (subst out) (simp add: lenient_scalars_def comp_def)
  then have "n = map the ?out"
    using assms(1) id1 [OF small] by (simp add: lenient_decode_def)
  moreover have "accounts_for ?out (strip_bom (map unat b))"
    using utf8_start_sound some(1) by (simp add: decode_scalars_def)
  then have "strip_bom (map unat b) = concat (map utf8_bytes (map the ?out))"
    by (simp add: accounts_for_def comp_def)
  ultimately show ?thesis
    using id2 [OF small] by simp
qed

lemma strip_bom_append:
  assumes "strip_bom s = n" "ascii_units n" "n \<noteq> []"
  shows "strip_bom (s @ t) = n @ t"
proof (cases "starts_with [0xEF, 0xBB, 0xBF] s")
  case True
  then obtain r where "s = [0xEF, 0xBB, 0xBF] @ r"
    by (auto simp: starts_with_append)
  then show ?thesis
    using assms(1) by (auto simp: strip_bom_def starts_with_def)
next
  case False
  then have "s = n"
    using assms(1) by (simp add: strip_bom_def)
  moreover have "hd n < 128" "n \<noteq> []"
    using assms by (auto simp: ascii_units_def)
  ultimately have "\<not> starts_with [0xEF, 0xBB, 0xBF] (s @ t)"
    by (cases n) (auto simp: starts_with_def)
  then show ?thesis
    using \<open>s = n\<close> by (simp add: strip_bom_def)
qed

lemma utf8_start_cons_ascii: "c < 128 \<Longrightarrow> utf8_start (c # t) = Some c # utf8_start t"
  by simp

text \<open>Decoding a payload whose name part reads as an ASCII name starts with that name.\<close>

lemma decode_name:
  assumes "lenient_decode (until_first pipe_byte b) = n" "ascii_units n" "n \<noteq> []" "0x7C \<notin> set n"
  shows "until_first 0x7C (lenient_decode b) = n"
proof -
  obtain rest where rest: "from_first pipe_byte b = [] \<or> from_first pipe_byte b = pipe_byte # rest"
    using from_first_cases by metis
  have b: "b = until_first pipe_byte b @ from_first pipe_byte b"
    by (simp add: until_from_first)
  have "strip_bom (map unat (until_first pipe_byte b)) = n"
    using lenient_decode_ascii_bytes assms by blast
  then have sb: "strip_bom (map unat b) = n @ map unat (from_first pipe_byte b)"
    using strip_bom_append assms b by (metis map_append)
  have scal: "decode_scalars b = map Some n @ utf8_start (map unat (from_first pipe_byte b))"
    using utf8_start_ascii [of n] assms(2) by (simp add: decode_scalars_def sb ascii_units_def)
  have units: "concat (map utf16_units n) = n"
    using assms(2) by (induction n) (auto simp: utf16_units_def ascii_units_def)
  have "lenient_decode b = n @ concat (map utf16_units (lenient_scalars
      (utf8_start (map unat (from_first pipe_byte b)))))"
    by (simp add: lenient_decode_def scal lenient_scalars_def comp_def units)
  moreover have "until_first 0x7C (n @ t) = n" if "t = [] \<or> hd t = 0x7C" for t
  proof -
    have "takeWhile (\<lambda>x. x \<noteq> 0x7C) n = n"
      using assms(4) by (auto simp: takeWhile_eq_all_conv)
    then show ?thesis
      using that assms(4) by (cases t) (auto simp: until_first_takeWhile takeWhile_append)
  qed
  moreover have "concat (map utf16_units (lenient_scalars (utf8_start (map unat (from_first pipe_byte b))))) = []
      \<or> hd (concat (map utf16_units (lenient_scalars (utf8_start (map unat (from_first pipe_byte b)))))) = 0x7C"
    using rest by (auto simp: lenient_scalars_def pipe_byte_def utf16_units_def)
  ultimately show ?thesis
    by metis
qed

lemma stored_name:
  assumes "buildStoredActionRecord r errors = (stored, errors')" "st_data stored \<noteq> []"
  shows "until_first pipe (st_data stored) \<in> set VALID_ACTION_NAMES"
    and "pr_data r \<noteq> []" "st_rawData stored = pr_rawData r" "\<not> st_skip stored"
    and "pr_compiledDataLength r \<le> (if pr_payloadCeiling r = 0 then MAX_ACTION_DATA_LENGTH
      else pr_payloadCeiling r)"
proof -
  let ?c = "canonicalizeActionPayload (pr_data r)"
  have ne: "pr_data r \<noteq> []"
    using assms by (auto simp: buildStoredActionRecord_def)
  have len: "\<not> (if pr_payloadCeiling r = 0 then MAX_ACTION_DATA_LENGTH else pr_payloadCeiling r)
      < pr_compiledDataLength r"
    using assms ne by (auto simp: buildStoredActionRecord_def Let_def split: if_splits)
  have known: "isKnown ?c"
    using assms ne len by (auto simp: buildStoredActionRecord_def Let_def split: if_splits prod.splits)
  have data: "st_data stored = (case strict_decode (out_buffer ?c) of Some d \<Rightarrow> d
      | None \<Rightarrow> lenient_decode (out_buffer ?c))" "st_rawData stored = pr_rawData r" "\<not> st_skip stored"
    using assms(1) ne len known
    by (auto simp: buildStoredActionRecord_def Let_def split: prod.splits option.splits)
  then have dec: "st_data stored = lenient_decode (out_buffer ?c)"
    using strict_decode_lenient by (auto split: option.splits)
  obtain n where n: "n \<in> set VALID_ACTION_NAMES"
    "lenient_decode (until_first pipe_byte (out_buffer ?c)) = n"
    using canonicalize_known [OF known] by metis
  have "n \<noteq> []"
    using n(1) by (auto simp: VALID_ACTION_NAMES_def)
  then have "until_first 0x7C (lenient_decode (out_buffer ?c)) = n"
    using decode_name [OF n(2)] valid_names_ascii [OF n(1)] by blast
  then show "until_first pipe (st_data stored) \<in> set VALID_ACTION_NAMES"
    using n(1) by (simp add: dec pipe_def)
  show "pr_data r \<noteq> []" "st_rawData stored = pr_rawData r" "\<not> st_skip stored"
    using ne data by auto
  show "pr_compiledDataLength r \<le> (if pr_payloadCeiling r = 0 then MAX_ACTION_DATA_LENGTH
      else pr_payloadCeiling r)"
    using len by simp
qed

text \<open>An oracle address is never empty, so an unresolved output address cannot match one.\<close>

lemma truthy_list_nonempty: "[] \<notin> set (List.map_filter truthy_text xs)"
  by (auto simp: in_set_map_filter truthy_text_Some)

lemma resolveOracle_nonempty:
  assumes "resolveOracleFeeAddresses cfg db c source t st = (Inr (Some as), st')"
  shows "[] \<notin> set as"
proof -
  have one: "[] \<notin> set (case truthy_text x of None \<Rightarrow> [] | Some y \<Rightarrow> [y])"
    "[] \<notin> set (case oracleAddressFromCreate fs of None \<Rightarrow> [] | Some a \<Rightarrow> [a])" for x fs
    by (auto simp: truthy_text_Some eq_commute[of "Some _"] dest: oracleAddressFromCreate_Some split: option.splits)
  show ?thesis
    using assms one truthy_list_nonempty
    by (cases "truthy_text source")
      (force simp: resolveOracleFeeAddresses_def Let_def db_return_def db_bind_Inr_iff
        simp del: map_option_eq_Some intro: one split: if_splits)+
qed

end
