(* ===== verification/Tx_Ingest.thy ===== *)
theory Tx_Ingest
  imports Block_Log Storage_Gate
begin

text \<open>
  Ingesting one transaction of a block (\<open>src/src/XChainDecoder/transaction_ingest.js\<close>, and
  \<open>registerDispenser\<close> of \<open>dispenser_registration.js\<close>): the parse with its retry-then-quarantine
  ladder, the row, its outputs, the dispensers it opens and the edits it mirrors.  A step threads the
  decoder object, the loop object, the block's set of open addresses and the database session; a
  throw that escapes is \<^const>\<open>Inl\<close>.  Wall-clock stamps are counted, not dated.
\<close>

section \<open>State\<close>

record loop_state =
  lp_lastTx :: int
  lp_lastBlock :: int
  lp_blocksQuantity :: int
  lp_blocksCount :: nat
  lp_transactionsCount :: nat
  lp_validTransactions :: nat
  lp_outputCount :: nat
  lp_parseRetries :: "jsstr \<Rightarrow> nat option"
  lp_insertRetries :: "jsstr \<Rightarrow> nat option"
  lp_insertQuarantine :: "jsstr set"
  lp_parseQuarantine :: "jsstr set"

text \<open>The fields of the decoder object besides its two error counters.\<close>

record decoder_marks =
  dm_quarantinedTxs :: nat
  dm_lastQuarantined :: "(nat \<times> jsstr option) option"
  dm_ladderSteps :: nat
  dm_purgeFailures :: nat
  dm_lastBlock :: int
  dm_nodeTip :: int

record world =
  w_stats :: decoder_stats
  w_marks :: decoder_marks
  w_loop :: loop_state
  w_open :: "jsstr set"
  w_db :: "tables session"

text \<open>
  What ingest takes from outside: the configuration, the libraries and the node, the collation of the
  string columns, and the message text of an error.
\<close>

record ingest_env =
  ie_cfg :: decoder_config
  ie_chain :: chain_env
  ie_collate :: "jsstr \<Rightarrow> jsstr"
  ie_message :: "decode_error \<Rightarrow> jsstr"

text \<open>\<open>'rollback'\<close>, \<open>'continue'\<close> and falling off the end.\<close>

datatype directive = RollbackBlock | NextTx | Finished

type_synonym 'a ingest = "(world, 'a) op"

definition on_db :: "'a table_op \<Rightarrow> 'a ingest" where
  "on_db m w = (case m (w_db w) of (r, s) \<Rightarrow> (r, w\<lparr>w_db := s\<rparr>))"

definition modify :: "(world \<Rightarrow> world) \<Rightarrow> unit ingest" where
  "modify f w = (Inr (), f w)"

definition asks :: "(world \<Rightarrow> 'a) \<Rightarrow> 'a ingest" where
  "asks f w = (Inr (f w), w)"

definition parse_error_counted :: "unit ingest" where
  "parse_error_counted = modify (\<lambda>w. w\<lparr>w_stats := (w_stats w)\<lparr>parseErrors := parseErrors (w_stats w) + 1\<rparr>\<rparr>)"

definition end_and_rollback :: "directive ingest" where
  "end_and_rollback = db_bind (on_db endTransaction) (\<lambda>_. db_return RollbackBlock)"

text \<open>A loop whose body may ask for the block to be rolled back.\<close>

fun for_each :: "('x \<Rightarrow> directive ingest) \<Rightarrow> 'x list \<Rightarrow> directive ingest" where
  "for_each f [] = db_return Finished"
| "for_each f (x # xs) = db_bind (f x) (\<lambda>d.
     if d = RollbackBlock then db_return RollbackBlock else for_each f xs)"

section \<open>Retry and quarantine state\<close>

definition TX_PARSE_MAX_RETRIES :: nat where
  "TX_PARSE_MAX_RETRIES = 3"

definition colon :: nat where
  "colon = 58"

definition quarantineKey :: "nat \<Rightarrow> jsstr \<Rightarrow> nat \<Rightarrow> jsstr" where
  "quarantineKey nextBlockHeight nextBlockHash txIndex =
     decimal_string nextBlockHeight @ [colon] @ nextBlockHash @ [colon] @ decimal_string txIndex"

definition countAttempt :: "(jsstr \<Rightarrow> nat option) \<Rightarrow> jsstr \<Rightarrow> (jsstr \<Rightarrow> nat option) \<times> nat" where
  "countAttempt attempts key =
     (let attempt = (case attempts key of None \<Rightarrow> 0 | Some n \<Rightarrow> n) + 1
      in (attempts(key \<mapsto> attempt), attempt))"

definition noteLadderStep :: "nat \<Rightarrow> unit ingest" where
  "noteLadderStep attempt =
     (if attempt \<le> TX_PARSE_MAX_RETRIES + 1
      then modify (\<lambda>w. w\<lparr>w_marks := (w_marks w)\<lparr>dm_ladderSteps := dm_ladderSteps (w_marks w) + 1\<rparr>\<rparr>)
      else db_return ())"

definition clearQuarantineState :: "loop_state \<Rightarrow> loop_state" where
  "clearQuarantineState lp =
     lp\<lparr>lp_parseRetries := (\<lambda>_. None), lp_insertRetries := (\<lambda>_. None), lp_insertQuarantine := {},
        lp_parseQuarantine := {}\<rparr>"

definition noteQuarantine :: "nat \<Rightarrow> jsstr option \<Rightarrow> unit ingest" where
  "noteQuarantine height hash = modify (\<lambda>w. w\<lparr>w_marks := (w_marks w)
     \<lparr>dm_quarantinedTxs := dm_quarantinedTxs (w_marks w) + 1,
      dm_lastQuarantined := Some (height, truthy_text hash)\<rparr>\<rparr>)"

section \<open>Serialised events\<close>

text \<open>\<open>JSON.stringify\<close> of the row a \<open>PARSE_ERROR\<close> event carries.\<close>

definition parse_error_json :: "nat \<Rightarrow> nat \<Rightarrow> jsstr option \<Rightarrow> jsstr \<Rightarrow> jsstr" where
  "parse_error_json height position hash message =
     js ''{'' @ json_string (js ''block_index'') @ js '':'' @ decimal_string height
     @ js '','' @ json_string (js ''tx_position'') @ js '':'' @ decimal_string position
     @ js '','' @ json_string (js ''tx_hash'') @ js '':''
     @ (case hash of None \<Rightarrow> js ''null'' | Some h \<Rightarrow> json_string h)
     @ js '','' @ json_string (js ''error'') @ js '':'' @ json_string message @ js ''}''"

text \<open>A block's time in seconds; it is a number by the time a transaction is ingested.\<close>

definition seconds :: "js_time \<Rightarrow> int" where
  "seconds t = (case to_number t of None \<Rightarrow> 0 | Some n \<Rightarrow> n)"

definition insertParseErrorEvent :: "js_time \<Rightarrow> nat \<Rightarrow> nat \<Rightarrow> jsstr option \<Rightarrow> jsstr \<Rightarrow> directive ingest" where
  "insertParseErrorEvent now height txIndex hash message =
     db_bind (on_db (insertEvent (js ''PARSE_ERROR'') (parse_error_json height txIndex hash message)
         (Some (seconds now)))) (\<lambda>r.
       db_return (if r = Failed then RollbackBlock else NextTx))"

definition INSERT_QUARANTINE_TEXT :: jsstr where
  "INSERT_QUARANTINE_TEXT = js ''deterministic INSERT failure (quarantined after '' @ decimal_string TX_PARSE_MAX_RETRIES
     @ js '' block retries)''"

definition skipQuarantinedTransaction :: "js_time \<Rightarrow> nat \<Rightarrow> transaction \<Rightarrow> nat \<Rightarrow> directive ingest" where
  "skipQuarantinedTransaction now nextBlockHeight tx txIndex =
     db_bind parse_error_counted (\<lambda>_.
     db_bind (insertParseErrorEvent now nextBlockHeight txIndex (Some (tx_id tx)) INSERT_QUARANTINE_TEXT) (\<lambda>d.
       if d = RollbackBlock then db_return RollbackBlock
       else db_bind (noteQuarantine nextBlockHeight (Some (tx_id tx))) (\<lambda>_. db_return NextTx)))"

section \<open>Parsing with retries\<close>

definition drop_errno :: "'a table_op \<Rightarrow> tables session \<Rightarrow> (unit + 'a) \<times> tables session" where
  "drop_errno m s = (case m s of (Inl _, s') \<Rightarrow> (Inl (), s') | (Inr x, s') \<Rightarrow> (Inr x, s'))"

text \<open>The block loop's database as the parser sees it.\<close>

definition session_pubkey_db :: "(jsstr \<Rightarrow> jsstr) \<Rightarrow> tables session pubkey_db" where
  "session_pubkey_db collate = \<lparr>db_getAddressId = (\<lambda>a. drop_errno (getAddressId collate a)),
     db_hasPubkey = (\<lambda>i. drop_errno (hasPubkey i)), db_insertPubkey = (\<lambda>i k. drop_errno (insertPubkey i k))\<rparr>"

definition run_parse :: "ingest_env \<Rightarrow> nat \<Rightarrow> transaction \<Rightarrow> (decode_error + parse_result option) ingest" where
  "run_parse env nextBlockHeight tx w =
     (case parseTransaction (ie_cfg env) (ie_chain env) (\<lambda>a. a \<in> w_open w)
             (session_pubkey_db (ie_collate env)) False (Some (int nextBlockHeight)) tx
             (decoder_stats.extend (w_stats w) (w_db w)) of
        (r, st) \<Rightarrow> (Inr r, w\<lparr>w_stats := decoder_stats.truncate st, w_db := decoder_stats.more st\<rparr>))"

definition count_parse_attempt :: "jsstr \<Rightarrow> nat ingest" where
  "count_parse_attempt key w =
     (case countAttempt (lp_parseRetries (w_loop w)) key of
        (attempts, n) \<Rightarrow> (Inr n, w\<lparr>w_loop := (w_loop w)\<lparr>lp_parseRetries := attempts\<rparr>\<rparr>))"

definition handleParseFailure ::
    "ingest_env \<Rightarrow> decode_error \<Rightarrow> js_time \<Rightarrow> nat \<Rightarrow> jsstr option \<Rightarrow> nat \<Rightarrow> jsstr \<Rightarrow> directive ingest" where
  "handleParseFailure env e now nextBlockHeight hash txIndex retryKey =
     (if e = DbLookupFailure \<or> rpcLookupFailure_tagged e then end_and_rollback
      else db_bind (asks (\<lambda>w. retryKey \<in> lp_parseQuarantine (w_loop w))) (\<lambda>quarantined.
        if quarantined
        then insertParseErrorEvent now nextBlockHeight txIndex hash (ie_message env e)
        else db_bind (count_parse_attempt retryKey) (\<lambda>attempt.
          db_bind (noteLadderStep attempt) (\<lambda>_.
          if attempt \<le> TX_PARSE_MAX_RETRIES then end_and_rollback
          else db_bind parse_error_counted (\<lambda>_.
            db_bind (insertParseErrorEvent now nextBlockHeight txIndex hash (ie_message env e)) (\<lambda>d.
            if d = RollbackBlock then db_return RollbackBlock
            else db_bind (noteQuarantine nextBlockHeight hash) (\<lambda>_.
              db_bind (modify (\<lambda>w. w\<lparr>w_loop := (w_loop w)
                  \<lparr>lp_parseQuarantine := insert retryKey (lp_parseQuarantine (w_loop w))\<rparr>\<rparr>)) (\<lambda>_.
              db_return NextTx))))))))"

text \<open>Either the directive of a failed parse or its result.\<close>

definition parseBlockTransaction ::
    "ingest_env \<Rightarrow> js_time \<Rightarrow> nat \<Rightarrow> transaction \<Rightarrow> nat \<Rightarrow> jsstr \<Rightarrow> (directive + parse_result option) ingest" where
  "parseBlockTransaction env now nextBlockHeight tx txIndex retryKey =
     db_bind (run_parse env nextBlockHeight tx) (\<lambda>r.
       case r of
         Inl e \<Rightarrow> db_bind (handleParseFailure env e now nextBlockHeight (Some (tx_id tx)) txIndex retryKey)
                    (\<lambda>d. db_return (Inl d))
       | Inr p \<Rightarrow> db_return (Inr p))"

section \<open>The row and its outputs\<close>

definition count_insert_attempt :: "jsstr \<Rightarrow> nat ingest" where
  "count_insert_attempt key w =
     (case countAttempt (lp_insertRetries (w_loop w)) key of
        (attempts, n) \<Rightarrow> (Inr n, w\<lparr>w_loop := (w_loop w)\<lparr>lp_insertRetries := attempts\<rparr>\<rparr>))"

definition current_tx :: "nat ingest" where
  "current_tx = asks (\<lambda>w. nat (lp_lastTx (w_loop w)))"

text \<open>\<open>insertTransactionRow\<close> of the ingest, under a name that differs from the database's.\<close>

definition insertIngestedRow ::
    "ingest_env \<Rightarrow> parse_result \<Rightarrow> jsstr \<Rightarrow> nat \<Rightarrow> stored_record \<Rightarrow> jsstr \<Rightarrow> directive ingest" where
  "insertIngestedRow env r hash nextBlockHeight stored retryKey =
     db_bind current_tx (\<lambda>i.
     db_bind (on_db (insertTransaction (ie_collate env)
        \<lparr>ti_index = i, ti_hash = Some hash, ti_block = nextBlockHeight, ti_source = pr_source r,
         ti_destination = None, ti_data = st_data stored, ti_raw = st_rawData stored,
         ti_pubkey = pr_sourcePubkey r\<rparr>)) (\<lambda>insertResult.
       case insertResult of
         PoisonRow \<Rightarrow>
           db_bind (count_insert_attempt retryKey) (\<lambda>attempt.
           db_bind (noteLadderStep attempt) (\<lambda>_.
           db_bind (if TX_PARSE_MAX_RETRIES < attempt
                    then modify (\<lambda>w. w\<lparr>w_loop := (w_loop w)
                      \<lparr>lp_insertQuarantine := insert retryKey (lp_insertQuarantine (w_loop w))\<rparr>\<rparr>)
                    else db_return ()) (\<lambda>_.
           db_return RollbackBlock)))
       | Failed \<Rightarrow> db_return RollbackBlock
       | Duplicated \<Rightarrow> end_and_rollback
       | Stored \<Rightarrow> db_return Finished))"

text \<open>An output of either kind: a duplicate key means a row this transaction did not write.\<close>

definition store_output :: "ingest_env \<Rightarrow> captured_output \<Rightarrow> directive ingest" where
  "store_output env nextOutput =
     db_bind current_tx (\<lambda>i.
     db_bind (on_db (insertTransactionOutput (ie_collate env)
        \<lparr>oi_tx = i, oi_vout = co_vout nextOutput, oi_destination = Some (co_destination nextOutput),
         oi_amount = int (co_amount nextOutput)\<rparr>)) (\<lambda>insertResult.
       case insertResult of
         Failed \<Rightarrow> db_return RollbackBlock
       | Duplicated \<Rightarrow> end_and_rollback
       | _ \<Rightarrow> db_return Finished))"

definition storeDispenseOutput :: "ingest_env \<Rightarrow> captured_output \<Rightarrow> directive ingest" where
  "storeDispenseOutput = store_output"

definition session_oracle_db :: "(jsstr \<Rightarrow> jsstr) \<Rightarrow> tables session oracle_db" where
  "session_oracle_db collate = \<lparr>
     db_oracleSet = (\<lambda>a. db_bind (getOpenDispenserOracleAddressesBySource collate a)
        (\<lambda>as. db_return (map_option (map Some) as))),
     db_oracleOne = getOpenDispenserOracleAddressBySource collate\<rparr>"

definition run_oracles :: "ingest_env \<Rightarrow> jsstr list \<Rightarrow> jsstr option \<Rightarrow> js_time \<Rightarrow> jsstr list option ingest" where
  "run_oracles env commands source now w =
     (case resolveOracleFeeAddressesForCommands (ie_cfg env) (session_oracle_db (ie_collate env)) commands source now
             (parseErrors (w_stats w), w_db w) of
        (r, n, s) \<Rightarrow> (r, w\<lparr>w_stats := (w_stats w)\<lparr>parseErrors := n\<rparr>, w_db := s\<rparr>))"

definition payment_captured :: "ingest_env \<Rightarrow> bool \<Rightarrow> jsstr list \<Rightarrow> captured_output \<Rightarrow> bool" where
  "payment_captured env isCoinpay oracles out \<longleftrightarrow>
     isCoinpay
     \<or> (case truthy_text (feeDestination (ie_cfg env)) of None \<Rightarrow> False | Some d \<Rightarrow> co_destination out = d)
     \<or> (co_destination out \<noteq> [] \<and> co_destination out \<in> set oracles)"

text \<open>\<^const>\<open>None\<close> when the block was rolled back, the commands otherwise.\<close>

definition capturePaymentOutputs ::
    "ingest_env \<Rightarrow> js_time \<Rightarrow> parse_result \<Rightarrow> jsstr \<Rightarrow> jsstr list option ingest" where
  "capturePaymentOutputs env now r decodedData =
     (let commands = captureCommands decodedData (consensusNetwork (ie_cfg env)) now;
          isCoinpay = list_ex (starts_with (js ''COINPAY|'')) commands
      in db_bind (run_oracles env commands (pr_source r) now) (\<lambda>found.
           case found of
             None \<Rightarrow> db_return None
           | Some oracles \<Rightarrow>
               if isCoinpay \<or> truthy_text (feeDestination (ie_cfg env)) \<noteq> None \<or> oracles \<noteq> []
               then db_bind (for_each (store_output env)
                      (filter (payment_captured env isCoinpay oracles) (pr_paymentOutputs r))) (\<lambda>d.
                      db_return (if d = RollbackBlock then None else Some commands))
               else db_return (Some commands)))"

section \<open>Registrations and edits\<close>

text \<open>\<open>createAddress\<close> for every address once, in order of first appearance.\<close>

fun address_ids :: "(jsstr \<Rightarrow> jsstr) \<Rightarrow> jsstr list \<Rightarrow> (jsstr \<times> nat option) list
    \<Rightarrow> (jsstr \<times> nat option) list table_op" where
  "address_ids collate [] known = db_return known"
| "address_ids collate (a # as) known =
     (if a \<in> fst ` set known then address_ids collate as known
      else db_bind (createAddress collate (Some a)) (\<lambda>i. address_ids collate as ((a, i) # known)))"

definition collapse_registrations :: "ingest_env \<Rightarrow> js_time \<Rightarrow> candidate list \<Rightarrow> registration list table_op" where
  "collapse_registrations env now candidates =
     (let net = consensusNetwork (ie_cfg env); addresses = candidate_addresses candidates
      in db_bind (if isDispenserAddressIdCollapseActive net now \<and> 2 \<le> length (remdups addresses)
                  then address_ids (ie_collate env) addresses [] else db_return []) (\<lambda>ids.
         db_return (collapseDispenserRegistrations candidates net now
           (Some (\<lambda>a. Option.bind (map_of ids a) id)))))"

definition registerDispenser :: "ingest_env \<Rightarrow> registration \<Rightarrow> directive ingest" where
  "registerDispenser env reg =
     db_bind current_tx (\<lambda>i.
     db_bind (on_db (insertDispenser (ie_collate env)
        \<lparr>od_tx = i, od_address = Some (reg_address reg), od_expiration = nat (reg_expiration reg),
         od_oracle = reg_oracleAddress reg, od_source = reg_sourceAddress reg\<rparr>)) (\<lambda>inserted.
       if inserted = Failed then db_return RollbackBlock
       else if reg_address reg = [] then db_return Finished
       else db_bind (modify (\<lambda>w. w\<lparr>w_open := insert (reg_address reg) (w_open w)\<rparr>))
              (\<lambda>_. db_return Finished)))"

definition mirror_edit :: "ingest_env \<Rightarrow> js_time \<Rightarrow> nat \<Rightarrow> jsstr \<Rightarrow> jsstr option \<Rightarrow> jsstr \<Rightarrow> directive ingest" where
  "mirror_edit env now nextBlockHeight prefix source command =
     (case dispenserEditExtension (ie_cfg env) command prefix source now of
        None \<Rightarrow> db_return Finished
      | Some (editSource, newExpiration) \<Rightarrow>
          db_bind (on_db (extendEditedDispenser (ie_collate env) nextBlockHeight editSource (nat newExpiration)))
            (\<lambda>r. db_return (if r = Failed then RollbackBlock else Finished)))"

definition and_then :: "directive ingest \<Rightarrow> directive ingest \<Rightarrow> directive ingest" where
  "and_then m k = db_bind m (\<lambda>d. if d = RollbackBlock then db_return RollbackBlock else k)"

definition register_dispensers ::
    "ingest_env \<Rightarrow> js_time \<Rightarrow> nat \<Rightarrow> parse_result \<Rightarrow> jsstr list \<Rightarrow> directive ingest" where
  "register_dispensers env now nextBlockHeight r commands =
     (let prefix = dispenserCommandPrefixFor (ie_cfg env) now
      in db_bind (asks (\<lambda>w. parseErrors (w_stats w))) (\<lambda>errors.
         (let created = collectDispenserCreates (ie_cfg env) commands prefix (pr_source r) now errors
          in db_bind (modify (\<lambda>w. w\<lparr>w_stats := (w_stats w)\<lparr>parseErrors := cs_parseErrors created\<rparr>\<rparr>)) (\<lambda>_.
             db_bind (db_catch
                 (db_bind (on_db (collapse_registrations env now (cs_candidates created)))
                   (\<lambda>regs. db_return (Some regs)))
                 (\<lambda>_. db_bind (on_db endTransaction) (\<lambda>_. db_return None))) (\<lambda>regs.
               case regs of
                 None \<Rightarrow> db_return RollbackBlock
               | Some registrations \<Rightarrow>
                   and_then (for_each (registerDispenser env) registrations)
                     (for_each (mirror_edit env now nextBlockHeight prefix (pr_source r)) commands))))))"

section \<open>One transaction\<close>

definition persistTransaction ::
    "ingest_env \<Rightarrow> js_time \<Rightarrow> nat \<Rightarrow> parse_result \<Rightarrow> jsstr \<Rightarrow> stored_record \<Rightarrow> jsstr \<Rightarrow> directive ingest" where
  "persistTransaction env now nextBlockHeight r hash stored retryKey =
     and_then (insertIngestedRow env r hash nextBlockHeight stored retryKey)
       (and_then (for_each (storeDispenseOutput env) (pr_dispenseOutputs r))
         (db_bind (capturePaymentOutputs env now r (st_data stored)) (\<lambda>commands.
            case commands of
              None \<Rightarrow> db_return RollbackBlock
            | Some cs \<Rightarrow> register_dispensers env now nextBlockHeight r cs)))"

definition take_tx_index :: "unit ingest" where
  "take_tx_index = modify (\<lambda>w. w\<lparr>w_loop := (w_loop w)\<lparr>lp_lastTx := lp_lastTx (w_loop w) + 1,
     lp_validTransactions := lp_validTransactions (w_loop w) + 1\<rparr>\<rparr>)"

definition build_stored :: "parse_result \<Rightarrow> stored_record ingest" where
  "build_stored r w =
     (case buildStoredActionRecord r (parseErrors (w_stats w)) of
        (stored, n) \<Rightarrow> (Inr stored, w\<lparr>w_stats := (w_stats w)\<lparr>parseErrors := n\<rparr>\<rparr>))"

definition ingestTransaction ::
    "ingest_env \<Rightarrow> js_time \<Rightarrow> nat \<Rightarrow> jsstr \<Rightarrow> transaction \<Rightarrow> nat \<Rightarrow> directive ingest" where
  "ingestTransaction env now nextBlockHeight nextBlockHash tx txIndex =
     (let retryKey = quarantineKey nextBlockHeight nextBlockHash txIndex
      in db_bind (asks (\<lambda>w. retryKey \<in> lp_insertQuarantine (w_loop w))) (\<lambda>poisoned.
         if poisoned then skipQuarantinedTransaction now nextBlockHeight tx txIndex
         else db_bind (parseBlockTransaction env now nextBlockHeight tx txIndex retryKey) (\<lambda>parsed.
           case parsed of
             Inl d \<Rightarrow> db_return d
           | Inr None \<Rightarrow> db_return Finished
           | Inr (Some r) \<Rightarrow>
               if hasStorableContent (Some r)
               then db_bind take_tx_index (\<lambda>_.
                    db_bind (build_stored r) (\<lambda>stored.
                      if st_skip stored then db_return NextTx
                      else persistTransaction env now nextBlockHeight r (tx_id tx) stored retryKey))
               else if pr_data r \<noteq> [] \<and> pr_source r = None
               then db_bind parse_error_counted (\<lambda>_. db_return Finished)
               else db_return Finished)))"

end
