(* ===== verification/Block_Store.thy ===== *)
theory Block_Store
  imports Tx_Ingest Protocol_Time
begin

text \<open>
  Storing a block (\<open>src/src/XChainDecoder/block_store.js\<close>): its time context, its row, the expiry of
  dispensers at its start or its end, its transactions, and the commit with the purge that follows;
  and the reset after a rollback (\<open>sync_loop.js\<close>).  A commit closes every block, because
  \<open>DB_TRANSACTION_BLOCKS_QUANTITY\<close> is 1.  The log lines and the pauses of the source are left out.
\<close>

section \<open>Settings\<close>

definition DB_TRANSACTION_BLOCKS_QUANTITY :: int where
  "DB_TRANSACTION_BLOCKS_QUANTITY = 1"

record block =
  bk_timestamp :: nat
  bk_transactions :: "transaction list"

record store_env = ingest_env +
  se_startBlockIndex :: nat
  se_safeDepth :: nat

definition store_network :: "store_env \<Rightarrow> string" where
  "store_network env = consensusNetwork (ie_cfg env)"

definition as_ingest :: "store_env \<Rightarrow> ingest_env" where
  "as_ingest env = ingest_env.truncate env"

section \<open>The time of a block\<close>

definition stored_time :: "block_view \<Rightarrow> js_time" where
  "stored_time b = (case b_time (bv_row b) of None \<Rightarrow> Null | Some t \<Rightarrow> Num (int t))"

text \<open>A read whose failure is an answer.\<close>

definition attempt :: "('s, 'a) op \<Rightarrow> ('s, 'a option) op" where
  "attempt m = db_catch (db_bind m (\<lambda>x. db_return (Some x))) (\<lambda>_. db_return None)"

text \<open>The times below a height, newest first; \<^const>\<open>None\<close> when a lookup failed.\<close>

fun fetchBlockTimes :: "nat \<Rightarrow> nat \<Rightarrow> js_time list option table_op" where
  "fetchBlockTimes 0 wanted = db_return (Some [])"
| "fetchBlockTimes (Suc height) wanted =
     (if wanted = 0 then db_return (Some [])
      else db_bind (attempt (getBlockByIndex height)) (\<lambda>previousBlock.
        case previousBlock of
          None \<Rightarrow> db_return None
        | Some None \<Rightarrow> db_return (Some [])
        | Some (Some b) \<Rightarrow> db_bind (fetchBlockTimes height (wanted - 1)) (\<lambda>rest.
            db_return (map_option ((#) (stored_time b)) rest))))"

definition fetchPreviousBlockTimes :: "nat \<Rightarrow> nat \<Rightarrow> js_time list option table_op" where
  "fetchPreviousBlockTimes nextBlockHeight wanted = fetchBlockTimes nextBlockHeight (min wanted MEDIAN_TIME_SPAN)"

definition history_wanted :: "string \<Rightarrow> js_time \<Rightarrow> nat" where
  "history_wanted net raw =
     (if isProtocolTimeMtpActive net then MEDIAN_TIME_SPAN else 0)
     + (if isDispenserCancelGraceParentFloorActive net raw then 1 else 0)"

text \<open>The block's own context and its parent's protocol time.\<close>

definition resolveBlockTimeContext :: "string \<Rightarrow> block \<Rightarrow> nat \<Rightarrow> (block_time_context \<times> js_time) option table_op" where
  "resolveBlockTimeContext net block nextBlockHeight =
     (let raw = Num (int (bk_timestamp block)); wanted = history_wanted net raw
      in db_bind (if 0 < wanted then fetchBlockTimes nextBlockHeight wanted else db_return (Some [])) (\<lambda>fetched.
           case fetched of
             None \<Rightarrow> db_bind endTransaction (\<lambda>_. db_return None)
           | Some previous \<Rightarrow>
               db_return (Some
                 (createBlockTimeContext net raw (Some (take MEDIAN_TIME_SPAN previous)),
                  (case previous of [] \<Rightarrow> Null | t # ts \<Rightarrow> protocolTime net t (Some ts))))))"

definition insertBlockRecord ::
    "(jsstr \<Rightarrow> jsstr) \<Rightarrow> block_time_context \<Rightarrow> nat \<Rightarrow> jsstr \<Rightarrow> jsstr \<Rightarrow> bool table_op" where
  "insertBlockRecord collate ctx nextBlockHeight nextBlockHash previousBlockHash =
     db_bind (insertBlock collate
        \<lparr>bi_index = nextBlockHeight, bi_hash = Some nextBlockHash,
         bi_time = map_option nat (to_number (ctx_rawBlockTime ctx)), bi_previous = Some previousBlockHash\<rparr>)
       (\<lambda>r. db_return (r \<noteq> Failed))"

section \<open>Dispensers at the edges of a block\<close>

definition expire_dispensers :: "nat \<Rightarrow> js_time \<Rightarrow> directive ingest" where
  "expire_dispensers nextBlockHeight now =
     db_bind (on_db (deleteOpenDispensers nextBlockHeight (seconds now))) (\<lambda>r.
       if r = Stored then db_return Finished else db_return RollbackBlock)"

definition expireDispensersAtBlockStart :: "js_time \<Rightarrow> nat \<Rightarrow> bool \<Rightarrow> directive ingest" where
  "expireDispensersAtBlockStart now nextBlockHeight expireAtEnd =
     (if expireAtEnd then db_return Finished else expire_dispensers nextBlockHeight now)"

definition loadOpenDispenserAddresses :: "string \<Rightarrow> js_time \<Rightarrow> js_time \<Rightarrow> directive ingest" where
  "loadOpenDispenserAddresses net now parentProtocolTime =
     db_bind (on_db (getAllOpenDispenserAddresses (cancelGraceFloor net now parentProtocolTime))) (\<lambda>found.
       case found of
         None \<Rightarrow> end_and_rollback
       | Some addresses \<Rightarrow> db_bind (modify (\<lambda>w. w\<lparr>w_open := addresses\<rparr>)) (\<lambda>_. db_return Finished))"

section \<open>Commit\<close>

definition reset_cursors :: "nat \<Rightarrow> unit ingest" where
  "reset_cursors startBlockIndex =
     db_bind (on_db getLastBlockIndex) (\<lambda>height.
     db_bind (modify (\<lambda>w. w\<lparr>w_loop := (w_loop w)\<lparr>lp_lastBlock := max height (int startBlockIndex - 1)\<rparr>,
         w_marks := (w_marks w)\<lparr>dm_lastBlock := max height (int startBlockIndex - 1)\<rparr>\<rparr>)) (\<lambda>_.
     db_bind (on_db getLastTxIndex) (\<lambda>txIndex.
     modify (\<lambda>w. w\<lparr>w_loop := (w_loop w)\<lparr>lp_lastTx := txIndex\<rparr>\<rparr>))))"

definition resetBatchCounters :: "loop_state \<Rightarrow> loop_state" where
  "resetBatchCounters lp = lp\<lparr>lp_blocksQuantity := 0, lp_blocksCount := 0, lp_transactionsCount := 0,
     lp_validTransactions := 0, lp_outputCount := 0\<rparr>"

definition reset_counters :: "unit ingest" where
  "reset_counters = modify (\<lambda>w. w\<lparr>w_loop := resetBatchCounters (w_loop w)\<rparr>)"

definition retryFailedCommit :: "store_env \<Rightarrow> directive ingest" where
  "retryFailedCommit env =
     db_bind (reset_cursors (se_startBlockIndex env)) (\<lambda>_.
     db_bind reset_counters (\<lambda>_. db_return NextTx))"

definition resetAfterRollback :: "store_env \<Rightarrow> unit ingest" where
  "resetAfterRollback env = db_bind (reset_cursors (se_startBlockIndex env)) (\<lambda>_. reset_counters)"

definition purgeExpiredAfterCommit :: "store_env \<Rightarrow> nat \<Rightarrow> js_time \<Rightarrow> unit ingest" where
  "purgeExpiredAfterCommit env nextBlockHeight blockTime =
     (let safeDepth = (if se_safeDepth env = 0 then DISPENSER_EXPIRE_SAFE_DEPTH else se_safeDepth env)
      in db_bind (on_db (purgeExpiredDispensers (int nextBlockHeight - int safeDepth)
             (purgeGraceFloor (store_network env) blockTime))) (\<lambda>purged.
           if purged then db_return ()
           else modify (\<lambda>w. w\<lparr>w_marks := (w_marks w)\<lparr>dm_purgeFailures := dm_purgeFailures (w_marks w) + 1\<rparr>\<rparr>)))"

definition commitBlockBatch :: "store_env \<Rightarrow> nat \<Rightarrow> js_time \<Rightarrow> directive ingest" where
  "commitBlockBatch env nextBlockHeight blockTime =
     db_bind (on_db commitTransaction) (\<lambda>committed.
       if \<not> committed then retryFailedCommit env
       else db_bind (modify (\<lambda>w. w\<lparr>w_loop := clearQuarantineState (w_loop w)\<rparr>)) (\<lambda>_.
            db_bind (purgeExpiredAfterCommit env nextBlockHeight blockTime) (\<lambda>_.
            db_bind (modify (\<lambda>w. w\<lparr>w_loop := (resetBatchCounters (w_loop w))\<lparr>lp_blocksQuantity := - 1\<rparr>\<rparr>)) (\<lambda>_.
            db_return Finished))))"

section \<open>The block\<close>

fun ingest_transactions ::
    "ingest_env \<Rightarrow> js_time \<Rightarrow> nat \<Rightarrow> jsstr \<Rightarrow> nat \<Rightarrow> transaction list \<Rightarrow> directive ingest" where
  "ingest_transactions env now h hash i [] = db_return Finished"
| "ingest_transactions env now h hash i (tx # txs) =
     db_bind (ingestTransaction env now h hash tx i) (\<lambda>d.
       case d of
         RollbackBlock \<Rightarrow> db_return RollbackBlock
       | NextTx \<Rightarrow> ingest_transactions env now h hash (Suc i) txs
       | Finished \<Rightarrow>
           db_bind (modify (\<lambda>w. w\<lparr>w_loop := (w_loop w)
               \<lparr>lp_outputCount := lp_outputCount (w_loop w) + length (tx_outs tx)\<rparr>\<rparr>)) (\<lambda>_.
           ingest_transactions env now h hash (Suc i) txs))"

definition advance :: "nat \<Rightarrow> directive ingest" where
  "advance nextBlockHeight =
     db_bind (modify (\<lambda>w. w\<lparr>w_loop := (w_loop w)\<lparr>lp_blocksQuantity := lp_blocksQuantity (w_loop w) + 1,
         lp_lastBlock := int nextBlockHeight\<rparr>, w_marks := (w_marks w)\<lparr>dm_lastBlock := int nextBlockHeight\<rparr>\<rparr>))
       (\<lambda>_. db_return Finished)"

definition finishBlock ::
    "store_env \<Rightarrow> js_time \<Rightarrow> nat \<Rightarrow> jsstr \<Rightarrow> transaction list \<Rightarrow> bool \<Rightarrow> directive ingest" where
  "finishBlock env now nextBlockHeight nextBlockHash transactions expireAtEnd =
     db_bind (modify (\<lambda>w. w\<lparr>w_loop := (w_loop w)\<lparr>lp_blocksCount := lp_blocksCount (w_loop w) + 1\<rparr>\<rparr>)) (\<lambda>_.
     and_then (ingest_transactions (as_ingest env) now nextBlockHeight nextBlockHash 0 transactions)
      (db_bind (modify (\<lambda>w. w\<lparr>w_loop := (w_loop w)
          \<lparr>lp_transactionsCount := lp_transactionsCount (w_loop w) + length transactions\<rparr>\<rparr>)) (\<lambda>_.
       and_then (if expireAtEnd then expire_dispensers nextBlockHeight now else db_return Finished)
        (db_bind (asks (\<lambda>w. lp_blocksQuantity (w_loop w) = DB_TRANSACTION_BLOCKS_QUANTITY - 1
             \<or> int nextBlockHeight = dm_nodeTip (w_marks w))) (\<lambda>full.
         if full
         then db_bind (commitBlockBatch env nextBlockHeight now) (\<lambda>d.
                if d = NextTx then db_return NextTx else advance nextBlockHeight)
         else advance nextBlockHeight)))))"

definition storeBlock ::
    "store_env \<Rightarrow> block \<Rightarrow> nat \<Rightarrow> jsstr \<Rightarrow> jsstr \<Rightarrow> directive ingest" where
  "storeBlock env block nextBlockHeight nextBlockHash previousBlockHash =
     db_bind (asks (\<lambda>w. lp_blocksQuantity (w_loop w) = 0)) (\<lambda>first.
     db_bind (if first then on_db beginTransaction else db_return ()) (\<lambda>_.
     db_bind (on_db (resolveBlockTimeContext (store_network env) block nextBlockHeight)) (\<lambda>context.
       case context of
         None \<Rightarrow> db_return RollbackBlock
       | Some (ctx, parentProtocolTime) \<Rightarrow>
           db_bind (on_db (insertBlockRecord (ie_collate env) ctx nextBlockHeight nextBlockHash previousBlockHash))
             (\<lambda>inserted.
             if \<not> inserted then db_return RollbackBlock
             else
               (let now = ctx_protocolBlockTime ctx;
                    expireAtEnd = isDispenserExpiryRealignActive (store_network env) now
                in and_then (expireDispensersAtBlockStart now nextBlockHeight expireAtEnd)
                    (and_then (loadOpenDispenserAddresses (store_network env) now parentProtocolTime)
                      (finishBlock env now nextBlockHeight nextBlockHash (bk_transactions block) expireAtEnd)))))))"

end
