(* ===== verification/Sync_State.thy ===== *)
theory Sync_State
  imports Reorg_Walk Block_Store
begin

text \<open>
  The state of the parse loop: what ingest keeps (the counters, the loop object, the session), what the
  reorg walk keeps, the park, the decoder's view of the node and the loop's latches; and its steps,
  which may throw out of the loop or, through the reorg walk, never return.  The node, its clock, the
  blocks it serves and the wire decoder are the record \<open>sync_env\<close>; all of the node's answers depend on
  the number of the call.
\<close>

section \<open>Environment\<close>

text \<open>How a block is asked for, and the answer; a failure may say that stripping its AuxPoW failed.\<close>

datatype fetch_how = PlainBlock | StrippedBlock | ReassembledBlock
datatype fetch_answer = FetchedHex jsstr | FetchFailed bool

record sync_env =
  sv_base :: store_env
  sv_genesis :: "jsstr option"
  sv_node :: chain_node
  sv_chain :: "nat \<Rightarrow> chain_env"
  sv_fetch :: "nat \<Rightarrow> fetch_how \<Rightarrow> jsstr \<Rightarrow> fetch_answer"
  sv_decode :: "jsstr \<Rightarrow> (buffer \<times> block) option"

definition sv_start :: "sync_env \<Rightarrow> nat" where
  "sv_start env = se_startBlockIndex (sv_base env)"

definition sv_reorg :: "sync_env \<Rightarrow> reorg_config" where
  "sv_reorg env = \<lparr>rc_network = store_network (sv_base env), rc_safeDepth = se_safeDepth (sv_base env),
     rc_start = int (sv_start env), rc_genesis = sv_genesis env\<rparr>"

definition sv_store :: "sync_env \<Rightarrow> nat \<Rightarrow> store_env" where
  "sv_store env k = (sv_base env)\<lparr>ie_chain := sv_chain env k\<rparr>"

section \<open>State\<close>

record halt_park =
  hp_parked :: bool
  hp_parkedAt :: "int option"
  hp_parkedHeight :: "int option"
  hp_unread :: bool
  hp_probeFailed :: "bool option"
  hp_checkDue :: bool
  hp_clearedAt :: "halt_time option"
  hp_clearedReason :: "json option"
  hp_unreadProbeAt :: int

record reorg_wait =
  wt_height :: int
  wt_hash :: "jsstr option"
  wt_class :: wait_class
  wt_since :: int

text \<open>\<open>nodeCatchingUp\<close> is the node's height, the stored height and the stamp.\<close>

record node_watch =
  nw_catchingUp :: "(int \<times> int \<times> int) option"
  nw_reorgWait :: "reorg_wait option"
  nw_refreshedAt :: int
  nw_synced :: bool
  nw_mempool :: bool
  nw_fetchHeight :: "int option"
  nw_fetchErrors :: nat
  nw_auxPowErrors :: nat
  nw_polledAt :: int

record latches =
  la_info :: "chain_info option"
  la_refreshedAt :: int
  la_tipHashAt :: int
  la_refused :: "wait_class option"
  la_nodeSynced :: bool
  la_catchingUp :: bool
  la_wrongChain :: bool
  la_wrongGenesis :: bool
  la_chainFieldMissing :: bool

text \<open>The session is the one of \<open>sy_run\<close>; the world is given it for the length of a step.\<close>

record sync_state =
  sy_world :: world
  sy_run :: reorg_run
  sy_park :: halt_park
  sy_watch :: node_watch
  sy_latch :: latches

abbreviation sy_db :: "sync_state \<Rightarrow> tables session" where
  "sy_db s \<equiv> rw_db (sy_run s)"

section \<open>Steps\<close>

datatype sync_error = DbError errno | WalkError reorg_error | ForeignChain

type_synonym 'a sync = "sync_state \<Rightarrow> ((sync_error + 'a) \<times> sync_state) option"

definition sy_return :: "'a \<Rightarrow> 'a sync" where
  "sy_return x s = Some (Inr x, s)"

definition sy_throw :: "sync_error \<Rightarrow> 'a sync" where
  "sy_throw e s = Some (Inl e, s)"

definition sy_bind :: "'a sync \<Rightarrow> ('a \<Rightarrow> 'b sync) \<Rightarrow> 'b sync" where
  "sy_bind m f s =
     (case m s of
        None \<Rightarrow> None
      | Some (Inl e, s') \<Rightarrow> Some (Inl e, s')
      | Some (Inr x, s') \<Rightarrow> f x s')"

definition sy_catch :: "'a sync \<Rightarrow> (sync_error \<Rightarrow> 'a sync) \<Rightarrow> 'a sync" where
  "sy_catch m h s =
     (case m s of
        None \<Rightarrow> None
      | Some (Inl e, s') \<Rightarrow> h e s'
      | Some (Inr x, s') \<Rightarrow> Some (Inr x, s'))"

definition sy_get :: "(sync_state \<Rightarrow> 'a) \<Rightarrow> 'a sync" where
  "sy_get f s = Some (Inr (f s), s)"

definition sy_put :: "(sync_state \<Rightarrow> sync_state) \<Rightarrow> unit sync" where
  "sy_put f s = Some (Inr (), f s)"

definition on_world :: "'a ingest \<Rightarrow> 'a sync" where
  "on_world m s =
     (case m ((sy_world s)\<lparr>w_db := sy_db s\<rparr>) of
        (r, w) \<Rightarrow> Some (map_sum DbError id r, s\<lparr>sy_world := w, sy_run := (sy_run s)\<lparr>rw_db := w_db w\<rparr>\<rparr>))"

definition on_run :: "'a reorg \<Rightarrow> 'a sync" where
  "on_run m s = (case m (sy_run s) of (r, v) \<Rightarrow> Some (map_sum WalkError id r, s\<lparr>sy_run := v\<rparr>))"

definition sy_query :: "'a table_op \<Rightarrow> 'a sync" where
  "sy_query m = on_world (on_db m)"

definition set_park :: "(halt_park \<Rightarrow> halt_park) \<Rightarrow> unit sync" where
  "set_park f = sy_put (\<lambda>s. s\<lparr>sy_park := f (sy_park s)\<rparr>)"

definition set_watch :: "(node_watch \<Rightarrow> node_watch) \<Rightarrow> unit sync" where
  "set_watch f = sy_put (\<lambda>s. s\<lparr>sy_watch := f (sy_watch s)\<rparr>)"

definition set_latch :: "(latches \<Rightarrow> latches) \<Rightarrow> unit sync" where
  "set_latch f = sy_put (\<lambda>s. s\<lparr>sy_latch := f (sy_latch s)\<rparr>)"

definition set_loop :: "(loop_state \<Rightarrow> loop_state) \<Rightarrow> unit sync" where
  "set_loop f = sy_put (\<lambda>s. s\<lparr>sy_world := (sy_world s)\<lparr>w_loop := f (w_loop (sy_world s))\<rparr>\<rparr>)"

definition set_reorg :: "(reorg_run \<Rightarrow> reorg_run) \<Rightarrow> unit sync" where
  "set_reorg f = on_run (set_run f)"

text \<open>The loop's cursor, and the node's tip as the decoder last read it.\<close>

definition cursor :: "sync_state \<Rightarrow> int" where
  "cursor s = lp_lastBlock (w_loop (sy_world s))"

definition node_tip :: "sync_state \<Rightarrow> int" where
  "node_tip s = dm_nodeTip (w_marks (sy_world s))"

definition clock :: "sync_env \<Rightarrow> int sync" where
  "clock env = on_run (asking (cn_now (sv_node env)))"

text \<open>A read inside a \<open>try\<close>.\<close>

definition sy_attempt :: "'a table_op \<Rightarrow> 'a option sync" where
  "sy_attempt m = on_run (try_db m)"

end
