(* ===== verification/Halt_Park.thy ===== *)
theory Halt_Park
  imports Sync_State
begin

text \<open>
  Parking on a durable halt (\<open>src/src/XChainDecoder/chain_integrity.js\<close>): the throttled probe of the
  marker, the park of the parse loop, and the two ways out of it.  The probe is awaited, so none is in
  flight when another begins; a park that has only the wording of its log line to decide is one park.
\<close>

definition REORG_HALT_PROBE_INTERVAL_MS :: int where
  "REORG_HALT_PROBE_INTERVAL_MS = 60000"

definition UNREAD_PARK_REPROBE_MS :: int where
  "UNREAD_PARK_REPROBE_MS = 5000"

section \<open>The probe\<close>

definition noteReorgHaltTransition :: "bool \<Rightarrow> unit sync" where
  "noteReorgHaltTransition wasHalted =
     sy_bind (sy_get (\<lambda>s. rw_reorgHalted (sy_run s))) (\<lambda>halted.
       if halted \<and> \<not> wasHalted then set_park (\<lambda>p. p\<lparr>hp_checkDue := True\<rparr>) else sy_return ())"

text \<open>What a read marker says, as the decoder takes it over.\<close>

definition adopt_marker :: "int \<Rightarrow> halt_state \<Rightarrow> unit sync" where
  "adopt_marker now marker =
     sy_bind (sy_get (\<lambda>s. rw_reorgHalted (sy_run s))) (\<lambda>wasHalted.
     sy_bind (set_reorg (\<lambda>w. w\<lparr>rw_reorgHalted := hs_halted marker, rw_reorgHaltReason := hs_reason marker,
         rw_reorgHaltAt := hs_at marker, rw_reorgHaltCheckedAt := now,
         rw_markerPersisted := (if hs_halted marker then Some True else rw_markerPersisted w)\<rparr>)) (\<lambda>_.
     sy_bind (set_park (\<lambda>p. p\<lparr>hp_clearedAt := hs_cleared_at marker, hp_clearedReason := hs_cleared_reason marker\<rparr>)) (\<lambda>_.
     noteReorgHaltTransition wasHalted)))"

definition probe_marker :: "int \<Rightarrow> unit sync" where
  "probe_marker now =
     sy_bind (sy_attempt getReorgHaltMarker) (\<lambda>r.
       case r of
         None \<Rightarrow> set_park (\<lambda>p. p\<lparr>hp_probeFailed := Some True\<rparr>)
       | Some marker \<Rightarrow>
           sy_bind (set_park (\<lambda>p. p\<lparr>hp_probeFailed := Some False\<rparr>)) (\<lambda>_.
           sy_bind (sy_get (\<lambda>s. rw_reorgHalted (sy_run s) \<and> rw_markerPersisted (sy_run s) = Some False
               \<and> \<not> hs_halted marker)) (\<lambda>unrecorded.
             if unrecorded then set_reorg (\<lambda>w. w\<lparr>rw_reorgHaltCheckedAt := now\<rparr>)
             else adopt_marker now marker)))"

text \<open>The answer is \<open>status.halted\<close>.\<close>

definition checkReorgHalt :: "bool \<Rightarrow> int \<Rightarrow> bool sync" where
  "checkReorgHalt force now =
     sy_bind (sy_get (\<lambda>s. \<not> force \<and> 0 < rw_reorgHaltCheckedAt (sy_run s)
         \<and> now - rw_reorgHaltCheckedAt (sy_run s) < REORG_HALT_PROBE_INTERVAL_MS)) (\<lambda>fresh.
     sy_bind (if fresh then sy_return () else probe_marker now) (\<lambda>_.
     sy_get (\<lambda>s. rw_reorgHalted (sy_run s))))"

record halt_status =
  st_halted :: bool
  st_reason :: "json option"
  st_at :: "halt_time option"
  st_parked :: bool
  st_parked_at :: "int option"
  st_parked_height :: "int option"
  st_cleared_at :: "halt_time option"
  st_cleared_reason :: "json option"
  st_checked_at :: "int option"
  st_marker_persisted :: "bool option"

definition getReorgHaltStatus :: "sync_state \<Rightarrow> halt_status" where
  "getReorgHaltStatus s =
     \<lparr>st_halted = rw_reorgHalted (sy_run s), st_reason = rw_reorgHaltReason (sy_run s),
      st_at = rw_reorgHaltAt (sy_run s), st_parked = hp_parked (sy_park s),
      st_parked_at = hp_parkedAt (sy_park s), st_parked_height = hp_parkedHeight (sy_park s),
      st_cleared_at = hp_clearedAt (sy_park s), st_cleared_reason = hp_clearedReason (sy_park s),
      st_checked_at = (if rw_reorgHaltCheckedAt (sy_run s) = 0 then None else Some (rw_reorgHaltCheckedAt (sy_run s))),
      st_marker_persisted = rw_markerPersisted (sy_run s)\<rparr>"

section \<open>Parking\<close>

definition parkOnReorgHalt :: "sync_env \<Rightarrow> int \<Rightarrow> bool \<Rightarrow> unit sync" where
  "parkOnReorgHalt env blockHeight unread =
     sy_bind (sy_get (\<lambda>s. hp_parked (sy_park s))) (\<lambda>already.
       if already then sy_return ()
       else sy_bind (clock env) (\<lambda>now.
         set_park (\<lambda>p. p\<lparr>hp_parked := True, hp_parkedAt := Some now,
           hp_parkedHeight := (if 0 \<le> blockHeight then Some blockHeight else None), hp_unread := unread\<rparr>)))"

text \<open>The loop parks at \<open>lastProcessedBlockIndex\<close> of the decoder object.\<close>

definition parkOnRolledBackHalt :: "sync_env \<Rightarrow> bool sync" where
  "parkOnRolledBackHalt env =
     sy_bind (sy_get (\<lambda>s. (hp_parked (sy_park s), hp_probeFailed (sy_park s), rw_reorgHalted (sy_run s),
         dm_lastBlock (w_marks (sy_world s))))) (\<lambda>(parked, failed, halted, height).
       if parked then sy_return False
       else if failed = Some True then sy_bind (parkOnReorgHalt env height True) (\<lambda>_. sy_return True)
       else if \<not> halted then sy_return False
       else sy_bind (sy_query readRolledBackAboveTip) (\<lambda>rolledBack.
         if rolledBack = Some 0 then sy_return False
         else sy_bind (parkOnReorgHalt env height False) (\<lambda>_. sy_return True)))"

section \<open>Leaving the park\<close>

definition unpark :: "halt_park \<Rightarrow> halt_park" where
  "unpark p = p\<lparr>hp_parked := False, hp_parkedAt := None, hp_parkedHeight := None\<rparr>"

definition resumeFromUnreadPark :: "sync_env \<Rightarrow> bool sync" where
  "resumeFromUnreadPark env =
     sy_bind (clock env) (\<lambda>now.
     sy_bind (sy_get (\<lambda>s. 0 < hp_unreadProbeAt (sy_park s)
         \<and> now - hp_unreadProbeAt (sy_park s) < UNREAD_PARK_REPROBE_MS)) (\<lambda>recent.
       if recent then sy_return False
       else
         sy_bind (set_park (\<lambda>p. p\<lparr>hp_unreadProbeAt := now\<rparr>)) (\<lambda>_.
         sy_bind (checkReorgHalt True now) (\<lambda>halted.
         sy_bind (sy_get (\<lambda>s. hp_probeFailed (sy_park s))) (\<lambda>failed.
           if failed \<noteq> Some False then sy_return False
           else
             sy_bind (set_park (\<lambda>p. (unpark p)\<lparr>hp_unreadProbeAt := 0, hp_unread := False\<rparr>)) (\<lambda>_.
               if halted then sy_bind (parkOnRolledBackHalt env) (\<lambda>again. sy_return (\<not> again))
               else sy_return True))))))"

definition resumeFromReorgHaltPark :: "sync_env \<Rightarrow> bool sync" where
  "resumeFromReorgHaltPark env =
     sy_bind (sy_get (\<lambda>s. (hp_parked (sy_park s), hp_unread (sy_park s), rw_markerPersisted (sy_run s))))
       (\<lambda>(parked, unread, persisted).
       if \<not> parked then sy_return True
       else if unread then resumeFromUnreadPark env
       else if persisted = Some False then sy_return False
       else sy_bind (clock env) (\<lambda>now.
            sy_bind (checkReorgHalt False now) (\<lambda>halted.
              if halted then sy_return False
              else sy_bind (set_park unpark) (\<lambda>_. sy_return True))))"

end
