(* ===== verification/Tip_Refresh.thy ===== *)
theory Tip_Refresh
  imports Halt_Park
begin

text \<open>
  The node's tip (\<open>src/src/XChainDecoder/tip_refresh.js\<close>) and the answers to a failed reconcile
  (\<open>sync_loop.js\<close>): a reading is taken over only past the gates (shape, network tier, genesis, sync
  progress), and a tip below the stored one starts a reorg walk only once two readings agree on it.
  The answer of a step is whether the pass ends with it (\<open>'continue'\<close>).
\<close>

definition BLOCKCHAIN_INFO_REFRESH_MS :: int where
  "BLOCKCHAIN_INFO_REFRESH_MS = 30000"

section \<open>After a walk\<close>

definition run_verifyReorg :: "sync_env \<Rightarrow> bool sync" where
  "run_verifyReorg env s =
     (case verifyReorg (sv_reorg env) (sv_node env) (Some (node_tip s)) (sy_run s) of
        None \<Rightarrow> None
      | Some (r, v) \<Rightarrow> Some (map_sum WalkError id r, s\<lparr>sy_run := v\<rparr>))"

definition same_wait :: "reorg_wait \<Rightarrow> wait_class \<Rightarrow> int \<Rightarrow> jsstr option \<Rightarrow> bool" where
  "same_wait w c height hash \<longleftrightarrow> wt_height w = height \<and> wt_hash w = hash \<and> wt_class w = c"

definition setReorgWait :: "sync_env \<Rightarrow> wait_class \<Rightarrow> int \<Rightarrow> jsstr option \<Rightarrow> unit sync" where
  "setReorgWait env c height hash =
     sy_bind (sy_get (\<lambda>s. nw_reorgWait (sy_watch s))) (\<lambda>prior.
     sy_bind (case prior of
          Some w \<Rightarrow> if same_wait w c height (truthy_text hash) then sy_return (wt_since w) else clock env
        | None \<Rightarrow> clock env) (\<lambda>since.
     set_watch (\<lambda>n. n\<lparr>nw_reorgWait := Some \<lparr>wt_height = height, wt_hash = truthy_text hash, wt_class = c,
       wt_since = since\<rparr>\<rparr>)))"

definition wait_on :: "sync_env \<Rightarrow> wait_class \<Rightarrow> int \<Rightarrow> jsstr option \<Rightarrow> unit sync" where
  "wait_on env c height hash =
     sy_bind (setReorgWait env c height hash) (\<lambda>_. set_latch (\<lambda>l. l\<lparr>la_refused := Some c\<rparr>))"

definition park_after_halt :: "sync_env \<Rightarrow> unit sync" where
  "park_after_halt env =
     sy_bind (sy_catch (sy_bind (on_world (reset_cursors (sv_start env))) (\<lambda>_. set_loop resetBatchCounters))
        (\<lambda>_. sy_return ())) (\<lambda>_.
     sy_bind (sy_query readRolledBackAboveTip) (\<lambda>_.
     sy_bind (sy_get cursor) (\<lambda>height. parkOnReorgHalt env height False)))"

definition parkOrRethrow :: "sync_env \<Rightarrow> sync_error \<Rightarrow> unit sync" where
  "parkOrRethrow env err =
     (case err of
        WalkError (ReorgWait c height hash) \<Rightarrow> wait_on env c height hash
      | WalkError HaltedRefusal \<Rightarrow> park_after_halt env
      | WalkError (SafeDepthHalt _) \<Rightarrow> park_after_halt env
      | _ \<Rightarrow> sy_throw err)"

definition clear_wait :: "unit sync" where
  "clear_wait = sy_bind (set_watch (\<lambda>n. n\<lparr>nw_reorgWait := None\<rparr>)) (\<lambda>_. set_latch (\<lambda>l. l\<lparr>la_refused := None\<rparr>))"

definition reset_run_counters :: "loop_state \<Rightarrow> loop_state" where
  "reset_run_counters lp = lp\<lparr>lp_blocksQuantity := 0, lp_transactionsCount := 0, lp_validTransactions := 0, lp_outputCount := 0\<rparr>"

text \<open>A reconcile: the walk, and then the cursors anew; what its refusal does is the caller's.\<close>

definition reconcile_with :: "sync_env \<Rightarrow> (loop_state \<Rightarrow> loop_state) \<Rightarrow> unit sync" where
  "reconcile_with env resets =
     sy_bind (sy_query endTransaction) (\<lambda>_.
     sy_bind (sy_catch (sy_bind (run_verifyReorg env) (\<lambda>_. sy_return True))
        (\<lambda>err. sy_bind (parkOrRethrow env err) (\<lambda>_. sy_return False))) (\<lambda>walked.
       if \<not> walked then sy_return ()
       else sy_bind clear_wait (\<lambda>_.
            sy_bind (on_world (reset_cursors (sv_start env))) (\<lambda>_. set_loop resets))))"

section \<open>Gates\<close>

definition refuseForeignTier :: "sync_env \<Rightarrow> jsstr option \<Rightarrow> bool sync" where
  "refuseForeignTier env chain =
     (if chainTierMismatch (store_network (sv_base env)) chain
      then sy_bind (set_latch (\<lambda>l. l\<lparr>la_wrongChain := True, la_info := None\<rparr>)) (\<lambda>_. sy_return True)
      else sy_bind (set_latch (\<lambda>l. l\<lparr>la_wrongChain := False\<rparr>)) (\<lambda>_. sy_return False))"

definition noteMissingChainField :: "jsstr option \<Rightarrow> unit sync" where
  "noteMissingChainField chain =
     (if chainFieldMissing chain then set_latch (\<lambda>l. l\<lparr>la_chainFieldMissing := True\<rparr>) else sy_return ())"

definition refuseForeignGenesis :: "sync_env \<Rightarrow> bool sync" where
  "refuseForeignGenesis env =
     sy_bind (on_run (verifyChainGenesis (sv_reorg env) (sv_node env))) (\<lambda>mismatch.
       if mismatch
       then sy_bind (set_latch (\<lambda>l. l\<lparr>la_wrongGenesis := True, la_info := None\<rparr>)) (\<lambda>_. sy_return True)
       else sy_bind (set_latch (\<lambda>l. l\<lparr>la_wrongGenesis := False\<rparr>)) (\<lambda>_. sy_return False))"

definition unsynced :: "chain_info \<Rightarrow> bool" where
  "unsynced info =
     (case ci_verificationprogress info of JsNumber p \<Rightarrow> p < MIN_VERIFICATION_PROGRESS_TO_PARSE | _ \<Rightarrow> False)"

definition refuseUnsyncedNode :: "chain_info \<Rightarrow> bool sync" where
  "refuseUnsyncedNode info =
     (if unsynced info
      then sy_bind (set_latch (\<lambda>l. l\<lparr>la_info := None, la_nodeSynced := True\<rparr>)) (\<lambda>_. sy_return True)
      else sy_bind (set_latch (\<lambda>l. l\<lparr>la_nodeSynced := False\<rparr>)) (\<lambda>_. sy_return False))"

section \<open>Reading the tip\<close>

definition genesis_due :: "sync_env \<Rightarrow> bool sync" where
  "genesis_due env =
     (if chainGenesisUnpinned (sv_genesis env) then sy_return False
      else sy_bind (clock env) (\<lambda>now.
           sy_get (\<lambda>s. BLOCKCHAIN_INFO_REFRESH_MS \<le> now - rw_chainGenesisCheckedAt (sy_run s))))"

definition take_tip :: "sync_env \<Rightarrow> chain_info \<Rightarrow> bool sync" where
  "take_tip env info =
     sy_bind (sy_put (\<lambda>s. s\<lparr>sy_world := (sy_world s)\<lparr>w_marks := (w_marks (sy_world s))\<lparr>dm_nodeTip := info_height info\<rparr>\<rparr>\<rparr>)) (\<lambda>_.
     sy_bind (clock env) (\<lambda>now.
     sy_bind (set_latch (\<lambda>l. l\<lparr>la_refreshedAt := now\<rparr>)) (\<lambda>_.
     sy_bind (set_watch (\<lambda>n. n\<lparr>nw_refreshedAt := now\<rparr>)) (\<lambda>_. sy_return False))))"

definition past_gates :: "sync_env \<Rightarrow> chain_info \<Rightarrow> jsstr option \<Rightarrow> bool sync" where
  "past_gates env info chain =
     sy_bind (refuseForeignTier env chain) (\<lambda>foreign.
     if foreign then sy_return True
     else sy_bind (noteMissingChainField chain) (\<lambda>_.
       sy_bind (genesis_due env) (\<lambda>due.
       sy_bind (if due then refuseForeignGenesis env else sy_return False) (\<lambda>foreign'.
       if foreign' then sy_return True
       else sy_bind (refuseUnsyncedNode info) (\<lambda>behind.
         if behind then sy_return True else take_tip env info)))))"

definition fetchChainTip :: "sync_env \<Rightarrow> bool sync" where
  "fetchChainTip env =
     sy_bind (on_run (asking (cn_info (sv_node env)))) (\<lambda>a.
       case a of
         InfoFailed \<Rightarrow> sy_return True
       | InfoFalsy \<Rightarrow> sy_bind (set_latch (\<lambda>l. l\<lparr>la_info := None\<rparr>)) (\<lambda>_. sy_return True)
       | Info info chain \<Rightarrow>
           sy_bind (set_latch (\<lambda>l. l\<lparr>la_info := (if blockchainInfoWellFormed (Some info) then Some info else None)\<rparr>)) (\<lambda>_.
             if blockchainInfoWellFormed (Some info) then past_gates env info chain else sy_return True))"

section \<open>A tip below the stored one\<close>

text \<open>One more reading for the settle; \<^const>\<open>None\<close> when it was refused.\<close>

definition read_tip_again :: "sync_env \<Rightarrow> int option sync" where
  "read_tip_again env =
     sy_bind (fetchChainTip env) (\<lambda>refused.
       if refused then sy_return None
       else sy_get (\<lambda>s. if nodeStillCatchingUp (la_info (sy_latch s)) then None else Some (node_tip s)))"

fun settle_tip :: "nat \<Rightarrow> int \<Rightarrow> int option sync \<Rightarrow> int option sync" where
  "settle_tip 0 previous readOnce = sy_return None"
| "settle_tip (Suc n) previous readOnce =
     sy_bind readOnce (\<lambda>next.
       case next of
         None \<Rightarrow> sy_return None
       | Some x \<Rightarrow> if x = previous then sy_return (Some x) else settle_tip n x readOnce)"

definition settleTipBelow :: "sync_env \<Rightarrow> int \<Rightarrow> bool sync" where
  "settleTipBelow env stored =
     sy_bind (sy_get node_tip) (\<lambda>first.
     sy_bind (settle_tip TIP_SETTLE_MAX_READS first (read_tip_again env)) (\<lambda>settled.
       sy_return (case settled of None \<Rightarrow> False | Some t \<Rightarrow> t < stored)))"

definition reconcileOrphanBlocks :: "sync_env \<Rightarrow> int \<Rightarrow> unit sync" where
  "reconcileOrphanBlocks env stored =
     sy_bind (settleTipBelow env stored) (\<lambda>below.
       if below then reconcile_with env reset_run_counters else sy_return ())"

definition note_catching_up :: "sync_env \<Rightarrow> int \<Rightarrow> unit sync" where
  "note_catching_up env stored =
     sy_bind (sy_get (\<lambda>s. nw_catchingUp (sy_watch s))) (\<lambda>prior.
     sy_bind (case prior of Some (_, _, since) \<Rightarrow> sy_return since | None \<Rightarrow> clock env) (\<lambda>since.
     sy_bind (sy_get node_tip) (\<lambda>tip.
     sy_bind (set_watch (\<lambda>n. n\<lparr>nw_catchingUp := Some (tip, stored, since)\<rparr>)) (\<lambda>_.
     set_latch (\<lambda>l. l\<lparr>la_catchingUp := True\<rparr>)))))"

definition reconcileTipRegression :: "sync_env \<Rightarrow> int \<Rightarrow> unit sync" where
  "reconcileTipRegression env stored =
     (if stored = int (sv_start env) - 1 then sy_return ()
      else sy_bind (sy_get (\<lambda>s. nodeStillCatchingUp (la_info (sy_latch s)))) (\<lambda>behind.
        if behind then note_catching_up env stored
        else sy_bind (set_latch (\<lambda>l. l\<lparr>la_catchingUp := False\<rparr>)) (\<lambda>_.
             sy_bind (set_watch (\<lambda>n. n\<lparr>nw_catchingUp := None\<rparr>)) (\<lambda>_.
             reconcileOrphanBlocks env stored))))"

definition refreshChainTip :: "sync_env \<Rightarrow> bool sync" where
  "refreshChainTip env =
     sy_bind (sy_get cursor) (\<lambda>stored.
     sy_bind (fetchChainTip env) (\<lambda>refused.
       if refused then sy_return True
       else sy_bind (sy_get node_tip) (\<lambda>tip.
         if stored \<le> tip
         then sy_bind (set_watch (\<lambda>n. n\<lparr>nw_catchingUp := None\<rparr>)) (\<lambda>_. sy_return False)
         else sy_bind (reconcileTipRegression env stored) (\<lambda>_. sy_return True))))"

end
