(* ===== verification/Sync_Loop.thy ===== *)
theory Sync_Loop
  imports Tip_Refresh
begin

text \<open>
  The parse loop (\<open>src/src/XChainDecoder/block_ingest.js\<close>, \<open>sync_loop.js\<close>, \<open>startup.js\<close>): fetching the next
  block, checking that it extends the stored tip, the reorg walk when it does not, waiting at the node's
  tip, leaving a park, and one pass of the loop over all of it.  The connector's \<open>getBlockHash\<close> throws on
  anything but a hash, so an answer that is no string counts as a failed call here.  The mempool task
  runs beside the loop on a session of its own and is only switched on and off.
\<close>

definition SYNCED_THRESHOLD :: int where
  "SYNCED_THRESHOLD = 3"

definition AUXPOW_REASSEMBLE_AFTER :: nat where
  "AUXPOW_REASSEMBLE_AFTER = 5"

section \<open>Fetching a block\<close>

definition fetchBlockHex :: "sync_env \<Rightarrow> jsstr \<Rightarrow> fetch_answer sync" where
  "fetchBlockHex env hash =
     sy_bind (sy_get (\<lambda>s. nw_auxPowErrors (sy_watch s))) (\<lambda>errors.
       let how = (if \<not> auxPow (ie_cfg (sv_base env)) then PlainBlock
                  else if AUXPOW_REASSEMBLE_AFTER \<le> errors then ReassembledBlock else StrippedBlock)
       in on_run (asking (\<lambda>k. sv_fetch env k how hash)))"

definition count_sync_parse_error :: "unit sync" where
  "count_sync_parse_error = on_world parse_error_counted"

text \<open>The failure of a fetch, with what it says about AuxPoW.\<close>

definition fetch_failed :: "bool \<Rightarrow> unit sync" where
  "fetch_failed auxPowParseFailure =
     sy_bind (set_watch (\<lambda>n. n\<lparr>nw_fetchErrors := nw_fetchErrors n + 1,
         nw_auxPowErrors := nw_auxPowErrors n + (if auxPowParseFailure then 1 else 0)\<rparr>)) (\<lambda>_.
     sy_bind (sy_get (\<lambda>s. nw_fetchErrors (sy_watch s))) (\<lambda>n.
       if n = 5 then count_sync_parse_error else sy_return ()))"

text \<open>The hash and the bytes in hexadecimal, or nothing.\<close>

definition fetchNextBlock :: "sync_env \<Rightarrow> int \<Rightarrow> (jsstr \<times> jsstr) option sync" where
  "fetchNextBlock env height =
     sy_bind (set_watch (\<lambda>n. if nw_fetchHeight n = Some height then n
         else n\<lparr>nw_fetchHeight := Some height, nw_fetchErrors := 0, nw_auxPowErrors := 0\<rparr>)) (\<lambda>_.
     sy_bind (on_run (asking (\<lambda>k. cn_hash (sv_node env) k height))) (\<lambda>a.
       case a of
         HashText hash \<Rightarrow>
           sy_bind (fetchBlockHex env hash) (\<lambda>f.
             case f of
               FetchedHex hex \<Rightarrow>
                 sy_bind (set_watch (\<lambda>n. n\<lparr>nw_fetchErrors := 0, nw_auxPowErrors := 0\<rparr>)) (\<lambda>_. sy_return (Some (hash, hex)))
             | FetchFailed aux \<Rightarrow> sy_bind (fetch_failed aux) (\<lambda>_. sy_return None))
       | _ \<Rightarrow> sy_bind (fetch_failed False) (\<lambda>_. sy_return None)))"

definition retryUndecodableBlock :: "sync_env \<Rightarrow> unit sync" where
  "retryUndecodableBlock env =
     sy_bind count_sync_parse_error (\<lambda>_.
     sy_bind (sy_query endTransaction) (\<lambda>_.
     sy_bind (on_world (reset_cursors (sv_start env))) (\<lambda>_.
     set_loop (\<lambda>lp. lp\<lparr>lp_blocksQuantity := 0\<rparr>))))"

section \<open>The link to the stored tip\<close>

definition rollBackDetectedReorg :: "sync_env \<Rightarrow> unit sync" where
  "rollBackDetectedReorg env = reconcile_with env reset_run_counters"

text \<open>Whether the pass ends with it.\<close>

definition detectReorgAtBlock :: "sync_env \<Rightarrow> nat \<Rightarrow> jsstr \<Rightarrow> bool sync" where
  "detectReorgAtBlock env height previousBlockHash =
     sy_bind (sy_attempt (getBlockByIndex (height - 1))) (\<lambda>r.
       case r of
         Some (Some previousBlock) \<Rightarrow>
           if bv_hash previousBlock = Some previousBlockHash then sy_return False
           else sy_bind (rollBackDetectedReorg env) (\<lambda>_. sy_return True)
       | _ \<Rightarrow> sy_return True)"

definition ingest_block :: "sync_env \<Rightarrow> nat \<Rightarrow> jsstr \<Rightarrow> buffer \<Rightarrow> block \<Rightarrow> directive sync" where
  "ingest_block env height hash prevHash block =
     (let previousBlockHash = uint8ArrayToHex (rev prevHash)
      in sy_bind (if sv_start env < height then detectReorgAtBlock env height previousBlockHash else sy_return False) (\<lambda>ends.
           if ends then sy_return NextTx
           else sy_bind clear_wait (\<lambda>_.
                sy_bind (sy_get (\<lambda>s. rw_tick (sy_run s))) (\<lambda>k.
                on_world (storeBlock (sv_store env k) block height hash previousBlockHash)))))"

definition note_behind :: "unit sync" where
  "note_behind =
     sy_bind (sy_get (\<lambda>s. node_tip s - cursor s)) (\<lambda>lag.
       if SYNCED_THRESHOLD < lag then set_watch (\<lambda>n. n\<lparr>nw_synced := False, nw_mempool := False\<rparr>) else sy_return ())"

definition ingestNextBlock :: "sync_env \<Rightarrow> directive sync" where
  "ingestNextBlock env =
     sy_bind note_behind (\<lambda>_.
     sy_bind (sy_get (\<lambda>s. cursor s + 1)) (\<lambda>height.
     sy_bind (fetchNextBlock env height) (\<lambda>fetched.
       case fetched of
         None \<Rightarrow> sy_return NextTx
       | Some (hash, hex) \<Rightarrow>
           (case sv_decode env hex of
              None \<Rightarrow> sy_bind (retryUndecodableBlock env) (\<lambda>_. sy_return NextTx)
            | Some (prevHash, block) \<Rightarrow> ingest_block env (nat height) hash prevHash block))))"

section \<open>At the node's tip\<close>

definition equalHeightSwapHolds :: "sync_env \<Rightarrow> int \<Rightarrow> jsstr \<Rightarrow> jsstr option \<Rightarrow> bool sync" where
  "equalHeightSwapHolds env height nodeHash storedHash =
     sy_bind (on_run (settleNodeReading nodeHash (readNodeBlockHash (sv_node env) height))) (\<lambda>settled.
       sy_return (settled \<noteq> None \<and> settled \<noteq> storedHash))"

text \<open>Whether a reconcile ends the pass.\<close>

definition reconcileEqualHeightTip :: "sync_env \<Rightarrow> bool sync" where
  "reconcileEqualHeightTip env =
     sy_bind (set_latch (\<lambda>l. l\<lparr>la_tipHashAt := la_refreshedAt l\<rparr>)) (\<lambda>_.
     sy_bind (sy_get cursor) (\<lambda>height.
     sy_bind (on_run (asking (\<lambda>k. cn_hash (sv_node env) k height))) (\<lambda>a.
       case a of
         HashText nodeHash \<Rightarrow>
           sy_bind (sy_attempt (read_block height)) (\<lambda>r.
             case r of
               Some (Some storedBlock) \<Rightarrow>
                 if nodeHash = [] then sy_return False
                 else if bv_hash storedBlock = Some nodeHash then sy_bind clear_wait (\<lambda>_. sy_return False)
                 else sy_bind (equalHeightSwapHolds env height nodeHash (bv_hash storedBlock)) (\<lambda>swapped.
                      if swapped then sy_bind (reconcile_with env resetBatchCounters) (\<lambda>_. sy_return True)
                      else sy_return False)
             | _ \<Rightarrow> sy_return False)
       | _ \<Rightarrow> sy_return False)))"

definition waitAtTip :: "sync_env \<Rightarrow> unit sync" where
  "waitAtTip env =
     sy_bind (set_watch (\<lambda>n. n\<lparr>nw_synced := True, nw_mempool := True\<rparr>)) (\<lambda>_.
     sy_bind (sy_get (\<lambda>s. la_tipHashAt (sy_latch s) < la_refreshedAt (sy_latch s) \<and> int (sv_start env) \<le> cursor s)) (\<lambda>due.
       if due then sy_bind (reconcileEqualHeightTip env) (\<lambda>_. sy_return ()) else sy_return ()))"

section \<open>The park\<close>

definition leaveReorgHaltPark :: "sync_env \<Rightarrow> unit sync" where
  "leaveReorgHaltPark env =
     sy_bind (resumeFromReorgHaltPark env) (\<lambda>resumed.
       if \<not> resumed then sy_return ()
       else sy_bind (on_world (reset_cursors (sv_start env))) (\<lambda>_.
            sy_bind (set_loop resetBatchCounters) (\<lambda>_.
            set_latch (\<lambda>l. l\<lparr>la_info := None\<rparr>))))"

definition reorgHaltHoldsLoop :: "sync_env \<Rightarrow> bool sync" where
  "reorgHaltHoldsLoop env =
     sy_bind (sy_get (\<lambda>s. hp_checkDue (sy_park s))) (\<lambda>due.
     sy_bind (if due
        then sy_bind (set_park (\<lambda>p. p\<lparr>hp_checkDue := False\<rparr>)) (\<lambda>_.
             sy_bind (parkOnRolledBackHalt env) (\<lambda>_. sy_return ()))
        else sy_return ()) (\<lambda>_.
     sy_bind (sy_get (\<lambda>s. hp_parked (sy_park s))) (\<lambda>parked.
       if \<not> parked then sy_return False
       else sy_bind (leaveReorgHaltPark env) (\<lambda>_. sy_return True))))"

section \<open>One pass\<close>

definition tip_due :: "sync_env \<Rightarrow> bool sync" where
  "tip_due env =
     sy_bind (sy_get (\<lambda>s. la_info (sy_latch s) = None \<or> node_tip s \<le> cursor s)) (\<lambda>must.
       if must then sy_return True
       else sy_bind (clock env) (\<lambda>now.
            sy_get (\<lambda>s. BLOCKCHAIN_INFO_REFRESH_MS \<le> now - la_refreshedAt (sy_latch s))))"

definition parse_or_wait :: "sync_env \<Rightarrow> unit sync" where
  "parse_or_wait env =
     sy_bind (sy_get (\<lambda>s. cursor s = node_tip s)) (\<lambda>level.
       if level then waitAtTip env
       else sy_bind (ingestNextBlock env) (\<lambda>d.
            if d = RollbackBlock
            then on_world (resetAfterRollback (sv_base env))
            else sy_return ()))"

text \<open>The body of the loop of \<open>start\<close>, while it is not asked to stop.\<close>

definition loop_pass :: "sync_env \<Rightarrow> unit sync" where
  "loop_pass env =
     sy_bind (clock env) (\<lambda>now.
     sy_bind (set_watch (\<lambda>n. n\<lparr>nw_polledAt := now\<rparr>)) (\<lambda>_.
     sy_bind (reorgHaltHoldsLoop env) (\<lambda>held.
       if held then sy_return ()
       else sy_bind (tip_due env) (\<lambda>due.
            sy_bind (if due then refreshChainTip env else sy_return False) (\<lambda>ends.
              if ends then sy_return () else parse_or_wait env)))))"

text \<open>Any number of passes, none of which threw out of the loop.\<close>

inductive loop_run :: "sync_env \<Rightarrow> sync_state \<Rightarrow> sync_state \<Rightarrow> bool" for env :: sync_env where
  at_rest: "loop_run env s s"
| pass: "loop_run env s t \<Longrightarrow> loop_pass env t = Some (Inr (), u) \<Longrightarrow> loop_run env s u"

inductive_cases loop_runE: "loop_run env s u"

section \<open>Starting\<close>

definition refuseForeignChain :: "sync_env \<Rightarrow> unit sync" where
  "refuseForeignChain env =
     sy_bind (on_run (verifyChainGenesis (sv_reorg env) (sv_node env))) (\<lambda>mismatch.
       if mismatch then sy_throw ForeignChain else sy_return ())"

definition fresh_loop :: "loop_state \<Rightarrow> loop_state" where
  "fresh_loop lp = (resetBatchCounters (clearQuarantineState lp))"

definition readLoopCursors :: "sync_env \<Rightarrow> unit sync" where
  "readLoopCursors env =
     sy_bind (sy_query getLastBlockIndex) (\<lambda>height.
     sy_bind (sy_query getLastTxIndex) (\<lambda>txIndex.
     sy_put (\<lambda>s. s\<lparr>sy_world := (sy_world s)
       \<lparr>w_loop := (w_loop (sy_world s))\<lparr>lp_lastBlock := max height (int (sv_start env) - 1), lp_lastTx := txIndex\<rparr>,
        w_marks := (w_marks (sy_world s))\<lparr>dm_lastBlock := max height (int (sv_start env) - 1), dm_nodeTip := - 1\<rparr>\<rparr>\<rparr>)))"

definition initialLoopLatches :: latches where
  "initialLoopLatches = \<lparr>la_info = None, la_refreshedAt = 0, la_tipHashAt = 0, la_refused = None, la_nodeSynced = False,
     la_catchingUp = False, la_wrongChain = False, la_wrongGenesis = False, la_chainFieldMissing = False\<rparr>"

text \<open>Opening and migrating the database and the txindex probe are left out.\<close>

definition bootDecoder :: "sync_env \<Rightarrow> unit sync" where
  "bootDecoder env =
     sy_bind (refuseForeignChain env) (\<lambda>_.
     sy_bind (clock env) (\<lambda>now.
     sy_bind (checkReorgHalt True now) (\<lambda>_.
     sy_bind (readLoopCursors env) (\<lambda>_.
     sy_bind (set_loop fresh_loop) (\<lambda>_.
     sy_bind (set_latch (\<lambda>_. initialLoopLatches)) (\<lambda>_.
     sy_bind (set_park (\<lambda>p. p\<lparr>hp_checkDue := False\<rparr>)) (\<lambda>_.
     sy_bind (parkOnRolledBackHalt env) (\<lambda>_. sy_return ()))))))))"

end
