(* ===== verification/Reorg_Safety.thy ===== *)
theory Reorg_Safety
  imports Reorg_Walk
begin

text \<open>
  What every pass of the reorg walk keeps.  A relation between the states before and after an
  operation covers the steps that delete nothing (they ask the node, read the database, raise the
  halt); a locale proves once that such a relation goes through the combinators.  Over it stands the
  invariant of a run: each deleted block was the highest stored one and the node had reported
  confirmations -1 for it, the depth stays within its windows, and a walk that goes on halted has its
  marker in the database.
\<close>

section \<open>Relations operations stay within\<close>

definition stays :: "('s \<Rightarrow> 's \<Rightarrow> bool) \<Rightarrow> ('e, 's, 'a) exop \<Rightarrow> bool" where
  "stays R m \<longleftrightarrow> (\<forall>s r s'. m s = (r, s') \<longrightarrow> R s s')"

locale step_relation =
  fixes R :: "'s \<Rightarrow> 's \<Rightarrow> bool"
  assumes reflexive: "R s s"
    and transitive: "R a b \<Longrightarrow> R b c \<Longrightarrow> R a c"
begin

lemma stays_return: "stays R (db_return x)" and stays_throw: "stays R (db_throw e)"
  by (auto simp: stays_def db_return_def db_throw_def reflexive)

lemma stays_bind:
  assumes "stays R m" "\<And>x. stays R (f x)"
  shows "stays R (db_bind m f)"
  using assms unfolding stays_def db_bind_def
  by (fastforce split: prod.splits sum.splits intro: transitive)

lemma stays_if: "(b \<Longrightarrow> stays R m) \<Longrightarrow> (\<not> b \<Longrightarrow> stays R m') \<Longrightarrow> stays R (if b then m else m')"
  by simp

lemma stays_pure: "(\<And>s. R s (snd (m s))) \<Longrightarrow> stays R m"
  by (metis stays_def snd_conv)

lemma stays_trans: "stays R m \<Longrightarrow> R a b \<Longrightarrow> m b = (r, c) \<Longrightarrow> R a c"
  unfolding stays_def using transitive by blast

lemmas stays_shape = stays_return stays_throw stays_bind stays_if

end

section \<open>Steps that delete nothing\<close>

definition halts_only :: "tables \<Rightarrow> tables \<Rightarrow> bool" where
  "halts_only t t' \<longleftrightarrow>
     (\<exists>evs. t' = t\<lparr>tb_events := tb_events t @ evs\<rparr> \<and> (\<forall>e \<in> set evs. ev_code e = js ''REORG_HALT''))"

lemma halts_only_refl: "halts_only t t"
  unfolding halts_only_def by (rule exI[of _ "[]"]) simp

lemma halts_only_trans: "halts_only a b \<Longrightarrow> halts_only b c \<Longrightarrow> halts_only a c"
  unfolding halts_only_def by (elim exE conjE) (rule exI[of _ "evs @ evsa" for evs evsa], auto)

lemma halts_only_append: "ev_code e = js ''REORG_HALT'' \<Longrightarrow> halts_only t (append_event e t)"
  unfolding halts_only_def append_event_def by (rule exI[of _ "[e]"]) simp

lemma halts_only_parts:
  assumes "halts_only t t'"
  shows "tb_ledger t' = tb_ledger t" "tb_hashes t' = tb_hashes t"
  using assms by (auto simp: halts_only_def)

lemma halt_row_live: "ev_code (snd r) = js ''REORG_HALT'' \<Longrightarrow> hs_halted (halt_row_state r)"
  by (simp add: halt_row_state_def Let_def)

lemma halts_only_halted:
  assumes "halts_only t t'" "hs_halted (halt_state_of (tb_events t))"
  shows "hs_halted (halt_state_of (tb_events t'))"
proof -
  have "(\<forall>e \<in> set evs. ev_code e = js ''REORG_HALT'') \<Longrightarrow> hs_halted (halt_state_of (old @ evs))"
    if "hs_halted (halt_state_of old)" for evs old
    by (induction evs rule: rev_induct)
      (simp_all add: that append_assoc [symmetric] halt_state_snoc halt_row_live del: append_assoc)
  with assms show ?thesis by (auto simp: halts_only_def)
qed

text \<open>A database operation that leaves tables and transaction alone.\<close>

definition reads_only :: "'a table_op \<Rightarrow> bool" where
  "reads_only m \<longleftrightarrow>
     (\<forall>s r s'. m s = (r, s') \<longrightarrow> db_tables s' = db_tables s \<and> db_saved s' = db_saved s
        \<and> length (db_fates s') \<le> length (db_fates s))"

lemma next_fate_shorter: "next_fate s = (f, s') \<Longrightarrow> length (db_fates s') \<le> length (db_fates s)"
  by (auto simp: next_fate_def split: list.splits)

lemma next_fate_facts:
  "next_fate s = (f, s') \<Longrightarrow> db_tables s' = db_tables s \<and> db_saved s' = db_saved s
     \<and> length (db_fates s') \<le> length (db_fates s)"
  using next_fate_keeps next_fate_shorter by blast

lemma reads_query: "reads_only (sql_query q)"
  unfolding reads_only_def
  using sql_query_keeps by (fastforce simp: sql_query_def dest: next_fate_shorter split: prod.splits option.splits)

lemma reads_return: "reads_only (db_return x)" and reads_throw: "reads_only (db_throw e)"
  by (auto simp: reads_only_def db_return_def db_throw_def)

lemma reads_bind: "reads_only m \<Longrightarrow> (\<And>x. reads_only (f x)) \<Longrightarrow> reads_only (db_bind m f)"
  unfolding reads_only_def db_bind_def by (fastforce split: prod.splits sum.splits dest: order_trans)

lemma reads_catch: "reads_only m \<Longrightarrow> (\<And>e. reads_only (h e)) \<Longrightarrow> reads_only (db_catch m h)"
  unfolding reads_only_def db_catch_def by (fastforce split: prod.splits sum.splits dest: order_trans)

lemma reads_retry: "reads_only (retry_read n q)"
  by (induction n) (auto intro: reads_throw reads_catch reads_query)

lemmas reads_shape = reads_query reads_return reads_throw reads_bind reads_catch reads_retry

lemma reads_operations:
  "reads_only getLastBlockIndex" "reads_only (read_block h)" "reads_only readReorgHaltState"
  "reads_only isReorgHalted" "reads_only countReorgDeletesAboveTip"
  by (auto simp: getLastBlockIndex_def read_block_def getBlockByIndex_def readReorgHaltState_def
      isReorgHalted_def countReorgDeletesAboveTip_def intro!: reads_shape split: option.splits)

text \<open>The halt marker adds at most one event.\<close>

lemma insert_halt_event:
  assumes "db_saved s = None" "insertEvent (js ''REORG_HALT'') json None s = (r, s')"
  shows "db_saved s' = None \<and> halts_only (db_tables s) (db_tables s')
    \<and> length (db_fates s') \<le> length (db_fates s)"
  using assms
  by (auto simp: insertEvent_def db_catch_def db_bind_def db_return_def duplicate_or_failed_def fail_with_def
      in_transaction_def sql_write_def halts_only_refl halts_only_append
      dest!: next_fate_facts split: prod.splits sum.splits option.splits if_splits)

lemma mark_effect:
  assumes idle: "db_saved s = None" and run: "markReorgHalted now reason s = (r, s')"
  shows "db_saved s' = None \<and> halts_only (db_tables s) (db_tables s')
    \<and> length (db_fates s') \<le> length (db_fates s)"
proof -
  obtain r1 s1 where read: "readReorgHaltState s = (r1, s1)" by fastforce
  have s1: "db_tables s1 = db_tables s" "db_saved s1 = None" "length (db_fates s1) \<le> length (db_fates s)"
    using reads_operations(3) read idle unfolding reads_only_def by fastforce+
  show ?thesis
  proof (cases "\<exists>live. r1 = Inr live \<and> \<not> (hs_halted live \<and> \<not> hs_unaudited_clear live)")
    case False
    with run read s1 show ?thesis
      by (auto simp: markReorgHalted_def db_bind_def db_return_def halts_only_refl split: sum.splits)
  next
    case True
    obtain r2 s2 where w: "insertEvent (js ''REORG_HALT'') (halt_json reason (toISOString now)) None s1 = (r2, s2)"
      by fastforce
    note e = insert_halt_event[OF s1(2) w]
    have "reads_only (db_catch isReorgHalted (\<lambda>_. db_return False))"
      by (intro reads_catch reads_operations reads_return)
    with True run read w e s1 show ?thesis
      by (auto simp: markReorgHalted_def db_bind_def db_return_def reads_only_def
          split: sum.splits if_splits) (metis le_trans)+
  qed
qed

section \<open>The relation\<close>

definition cache_unproven :: "reorg_run \<Rightarrow> bool" where
  "cache_unproven w \<longleftrightarrow> (\<forall>c. rw_forkProofCache w = Some c \<longrightarrow> pc_result c \<noteq> Proven)"

definition halted_rows :: "reorg_run \<Rightarrow> bool" where
  "halted_rows w \<longleftrightarrow> hs_halted (halt_state_of (tb_events (db_tables (rw_db w))))"

definition idle :: "reorg_run \<Rightarrow> bool" where
  "idle w \<longleftrightarrow> db_saved (rw_db w) = None"

text \<open>Nothing deleted, only halts written, and a halt raised only when its row can be read.\<close>

definition quiet :: "reorg_run \<Rightarrow> reorg_run \<Rightarrow> bool" where
  "quiet w w' \<longleftrightarrow>
     rw_tick w \<le> rw_tick w' \<and> wk_deleted w' = wk_deleted w
     \<and> (cache_unproven w \<longrightarrow> cache_unproven w')
     \<and> (idle w \<longrightarrow> idle w' \<and> halts_only (db_tables (rw_db w)) (db_tables (rw_db w'))
          \<and> length (db_fates (rw_db w')) \<le> length (db_fates (rw_db w))
          \<and> (wk_haltError w' = wk_haltError w \<or> wk_haltError w' \<noteq> None \<and> halted_rows w'))"

interpretation quiet: step_relation quiet
proof
  show "quiet w w" for w by (simp add: quiet_def halts_only_refl)
  show "quiet a c" if "quiet a b" "quiet b c" for a b c
    using that unfolding quiet_def halted_rows_def
    by (auto intro: halts_only_trans halts_only_halted)
qed

lemma quiet_ask: "stays quiet (asking f)"
  by (auto simp: stays_def asking_def quiet_def cache_unproven_def idle_def halts_only_refl)

lemma quiet_get: "stays quiet (get_run f)"
  by (auto simp: stays_def get_run_def quiet.reflexive)

lemma quiet_set:
  "(\<And>w. rw_db (f w) = rw_db w \<and> rw_tick (f w) = rw_tick w \<and> wk_deleted (f w) = wk_deleted w
     \<and> rw_forkProofCache (f w) = rw_forkProofCache w \<and> wk_haltError (f w) = wk_haltError w) \<Longrightarrow> stays quiet (set_run f)"
  by (auto simp: stays_def set_run_def quiet_def cache_unproven_def idle_def halts_only_refl)

lemma quiet_read: "reads_only m \<Longrightarrow> stays quiet (try_db m)"
  unfolding stays_def try_db_def reads_only_def
  by (fastforce simp: quiet_def cache_unproven_def idle_def halts_only_refl split: prod.splits sum.splits)

lemma quiet_mark: "stays quiet (try_db (markReorgHalted now reason))"
  unfolding stays_def try_db_def
  by (auto simp: quiet_def cache_unproven_def idle_def dest: mark_effect split: prod.splits sum.splits)

lemmas quiet_shape = quiet.stays_shape quiet_ask quiet_get quiet_set quiet_read quiet_mark

lemma quiet_attempts: "stays quiet (mark_attempts n node reason)"
  by (induction n) (auto intro!: quiet_shape)

lemma quiet_haltReorg: "stays quiet (haltReorg node reason)"
  unfolding haltReorg_def by (auto intro!: quiet_shape quiet_attempts)

lemma attempts_confirmed:
  "mark_attempts n node reason w = (Inr True, w') \<Longrightarrow> halted_rows w'"
proof (induction n arbitrary: w)
  case (Suc n)
  then obtain r w1 where one: "try_db (markReorgHalted (cn_now node (rw_tick w)) reason)
      (w\<lparr>rw_tick := Suc (rw_tick w)\<rparr>) = (Inr r, w1)"
    and rest: "(if r = Some True then db_return True else mark_attempts n node reason) w1 = (Inr True, w')"
    by (auto simp: db_bind_Inr_iff asking_def)
  show ?case
  proof (cases "r = Some True")
    case True
    with one rest show ?thesis
      by (auto simp: try_db_def db_return_def halted_rows_def dest: markReorgHalted_confirmed
          split: prod.splits sum.splits)
  qed (use Suc.IH rest in simp)
qed (simp add: db_return_def)

lemma haltReorg_confirmed:
  assumes "haltReorg node reason w = (r, w')" "rw_markerPersisted w' = Some True"
  shows "halted_rows w'"
proof -
  have total: "\<exists>b w2. mark_attempts n node reason v = (Inr b, w2)" for n v
    by (induction n arbitrary: v)
      (auto simp: db_return_def db_bind_def asking_def try_db_def split: prod.splits sum.splits)
  define w1 where "w1 = w\<lparr>rw_tick := Suc (Suc (rw_tick w)), rw_reorgHalted := True, rw_reorgHaltReason := Some (JStr reason),
    rw_reorgHaltAt := Some (PayloadAt (JStr (toISOString (cn_now node (rw_tick w))))), rw_reorgHaltCheckedAt := cn_now node (Suc (rw_tick w))\<rparr>"
  obtain b w2 where m: "mark_attempts 2 node reason w1 = (Inr b, w2)" using total by blast
  then have w': "w' = w2\<lparr>rw_markerPersisted := Some b\<rparr>"
    using assms(1) by (simp add: haltReorg_def db_bind_def asking_def set_run_def w1_def del: mark_attempts.simps)
  with assms(2) m have "halted_rows w2" by (auto intro: attempts_confirmed)
  with w' show ?thesis by (simp add: halted_rows_def)
qed

lemma quiet_raise: "stays quiet (raiseSafeDepthHalt node msg)"
  unfolding stays_def
proof (intro allI impI)
  fix w r w' assume run: "raiseSafeDepthHalt node msg w = (r, w')"
  obtain r1 w1 where h: "haltReorg node msg w = (r1, w1)" by fastforce
  then have q: "quiet w w1" using quiet_haltReorg by (auto simp: stays_def)
  show "quiet w w'"
  proof (cases "(\<exists>u. r1 = Inr u) \<and> rw_markerPersisted w1 = Some True")
    case True
    with haltReorg_confirmed[OF h] have halted: "halted_rows w1" by simp
    from True run h have w': "w' = w1\<lparr>wk_haltError := Some msg\<rparr>"
      by (auto simp: raiseSafeDepthHalt_def db_bind_def get_run_def set_run_def)
    have "quiet w1 w'"
      unfolding w' using halted by (simp add: quiet_def cache_unproven_def idle_def halted_rows_def halts_only_refl)
    with q show ?thesis by (rule quiet.transitive)
  next
    case False
    with run h have "w' = w1"
      by (auto simp: raiseSafeDepthHalt_def db_bind_def get_run_def db_throw_def split: sum.splits if_splits)
    with q show ?thesis by simp
  qed
qed

lemma quiet_assert: "stays quiet (assertWithinSafeDepth cfg node priorDepth h)"
  using quiet_raise by (auto simp: assertWithinSafeDepth_def stays_def quiet.reflexive split: if_splits)

lemma quiet_prove: "stays quiet (proveReorgedAway node hash)"
  unfolding proveReorgedAway_def by (intro quiet_shape)

lemma quiet_cache:
  "stays quiet (db_bind (set_run (\<lambda>w. w\<lparr>rw_forkProofCache :=
     (if result = Proven then None else Some \<lparr>pc_key = key, pc_at = now, pc_result = result\<rparr>)\<rparr>)) (\<lambda>_. db_return result))"
  by (auto simp: stays_def db_bind_def set_run_def db_return_def quiet_def cache_unproven_def idle_def halts_only_refl)

lemma quiet_fork_proof: "stays quiet (proveForkReorgedAway node hash tip)"
  unfolding proveForkReorgedAway_def Let_def
  by (intro quiet_shape) (auto intro!: quiet_shape quiet_prove quiet_cache split: option.splits)

lemma quiet_require: "stays quiet (requireReorgProof node h hash tip)"
  unfolding requireReorgProof_def by (intro quiet_shape quiet_fork_proof)

lemma quiet_boundary: "stays quiet (requireAboveTipForkProof node h hash tip)"
  unfolding requireAboveTipForkProof_def Let_def
  by (auto intro!: quiet_shape quiet_require reads_operations split: option.splits hash_answer.splits)

lemma quiet_gap: "stays quiet (refuseOrHaltDeepGap cfg node priorDepth h hash tip)"
  unfolding refuseOrHaltDeepGap_def Let_def by (intro quiet_shape quiet_boundary quiet_raise)

lemma quiet_genesis: "stays quiet (verifyChainGenesis cfg node)"
  unfolding verifyChainGenesis_def
  by (auto intro!: quiet_shape split: hash_answer.splits)

lemma quiet_tip: "stays quiet (readReorgTip cfg node tip)"
  unfolding readReorgTip_def
  by (auto intro!: quiet_shape quiet_genesis split: info_answer.splits)

lemma quiet_settle: "stays quiet m \<Longrightarrow> stays quiet (settle_reads n x m)"
  by (induction n arbitrary: x) (auto intro!: quiet_shape split: option.splits)

lemma quiet_refresh: "stays quiet (refreshReorgTip cfg node tip)"
  unfolding refreshReorgTip_def settleNodeReading_def
  by (auto intro!: quiet_shape quiet_tip quiet_settle split: option.splits)

lemma quiet_hash: "stays quiet (readNodeBlockHash node h)"
  unfolding readNodeBlockHash_def by (intro quiet_shape)

lemma quiet_last: "stays quiet readLastStoredBlock"
  unfolding readLastStoredBlock_def
  by (intro quiet_read reads_bind reads_operations reads_return)

lemma quiet_down: "stays quiet (read_down node tip storedTip lowest n h doomed)"
proof (induction n arbitrary: tip h doomed)
  case 0 show ?case by (simp add: quiet.stays_return)
next
  case (Suc n)
  show ?case
    by (auto intro!: quiet_shape quiet_hash reads_operations Suc split: option.splits simp: Let_def)
qed

lemma quiet_halted_read: "stays quiet (readHaltedWalk cfg node tip budget)"
  unfolding readHaltedWalk_def Let_def
  by (auto intro!: quiet_shape quiet_down reads_operations split: option.splits)

section \<open>Blocks taken off the top\<close>

definition stored_heights :: "tables \<Rightarrow> nat list" where
  "stored_heights t = map b_index (l_blocks (tb_ledger t))"

definition stored_hash :: "tables \<Rightarrow> nat \<Rightarrow> jsstr option option" where
  "stored_hash t h =
     map_option (\<lambda>r. id_text (tb_hashes t) (b_hash r)) (find (\<lambda>r. b_index r = h) (l_blocks (tb_ledger t)))"

definition top_block :: "tables \<Rightarrow> nat \<Rightarrow> jsstr option \<Rightarrow> bool" where
  "top_block t h x \<longleftrightarrow> highest (stored_heights t) = int h \<and> stored_hash t h = Some x"

text \<open>Deleting always the highest stored block, with halts written in between.\<close>

inductive walked :: "tables \<Rightarrow> (nat \<times> jsstr option) list \<Rightarrow> tables \<Rightarrow> bool" where
  walked_start: "walked t [] t"
| walked_delete: "walked t ds t' \<Longrightarrow> top_block t' h x \<Longrightarrow> walked t (ds @ [(h, x)]) (block_removed h x t')"
| walked_halt: "walked t ds t' \<Longrightarrow> halts_only t' t'' \<Longrightarrow> walked t ds t''"

lemma top_block_halts: "halts_only t t' \<Longrightarrow> top_block t' h x = top_block t h x"
  by (simp add: top_block_def stored_heights_def stored_hash_def halts_only_parts)

definition confirmed :: "chain_node \<Rightarrow> nat \<Rightarrow> nat \<Rightarrow> jsstr option \<Rightarrow> bool" where
  "confirmed node a b x \<longleftrightarrow> (\<exists>k. a \<le> k \<and> k < b \<and> cn_header node k x = Header (Some (- 1)))"

lemma confirmed_later: "confirmed node a b x \<Longrightarrow> b \<le> c \<Longrightarrow> confirmed node a c x"
  unfolding confirmed_def by (meson less_le_trans)

section \<open>Round trips are only spent\<close>

definition fewer :: "'t session \<Rightarrow> 't session \<Rightarrow> bool" where
  "fewer s s' \<longleftrightarrow> length (db_fates s') \<le> length (db_fates s)"

interpretation fewer: step_relation fewer
  by unfold_locales (auto simp: fewer_def)

lemma fewer_query: "stays fewer (sql_query q)" and fewer_write: "stays fewer (sql_write w)"
  by (auto simp: stays_def fewer_def sql_query_def sql_write_def dest: next_fate_shorter
      split: prod.splits option.splits sum.splits)

lemma roll_back_fates [simp]: "db_fates (roll_back s) = db_fates s"
  by (simp add: roll_back_def split: option.split)

lemma fewer_end: "stays fewer endTransaction" and fewer_discard: "stays fewer discardStaleTransactionConnection"
  by (auto simp: stays_def fewer_def endTransaction_def discardStaleTransactionConnection_def
      dest!: next_fate_shorter split: prod.splits option.splits)

lemma fewer_commit: "stays fewer commitTransaction"
  unfolding stays_def
proof (intro allI impI)
  fix s :: "'t session" and r s' assume run: "commitTransaction s = (r, s')"
  show "fewer s s'"
  proof (cases "in_transaction s")
    case True
    obtain f s1 where n: "next_fate s = (f, s1)" by fastforce
    then have "fewer s s1" by (simp add: fewer_def next_fate_shorter)
    moreover have "fewer s1 s'" using run n True fewer_end
      by (auto simp: commitTransaction_def stays_def fewer_def split: option.splits prod.splits)
    ultimately show ?thesis by (rule fewer.transitive)
  qed (use run in \<open>simp add: commitTransaction_def fewer_def\<close>)
qed

lemma fewer_begin: "stays fewer beginTransaction"
proof -
  have "stays fewer (\<lambda>s. if in_transaction s then discardStaleTransactionConnection s else (Inr (), s))"
    using fewer_discard by (auto simp: stays_def fewer.reflexive)
  moreover have "stays fewer (\<lambda>s. case next_fate s of
          (Some e, s') \<Rightarrow> (Inl e, s')
        | (None, s') \<Rightarrow> (Inr (), s'\<lparr>db_saved := Some (db_tables s')\<rparr>))"
    by (auto simp: stays_def fewer_def dest!: next_fate_shorter split: prod.splits option.splits)
  ultimately show ?thesis unfolding beginTransaction_def by (rule fewer.stays_bind)
qed

lemma fewer_catch: "stays fewer m \<Longrightarrow> (\<And>e. stays fewer (h e)) \<Longrightarrow> stays fewer (db_catch m h)"
  unfolding stays_def db_catch_def by (fastforce simp: fewer_def split: prod.splits sum.splits dest: order_trans)

lemma fewer_update: "stays fewer (ledger_update f)"
  unfolding ledger_update_def by (rule fewer_write)

lemma fewer_rollback: "stays fewer (db_bind (\<lambda>s. if in_transaction s then endTransaction s else (Inr (), s)) (\<lambda>_. db_throw e))"
  using fewer_end by (intro fewer.stays_bind fewer.stays_throw) (auto simp: stays_def fewer.reflexive)

lemma fewer_delete: "stays fewer (deleteBlockByIndex h x)"
  unfolding deleteBlockByIndex_def restoreDispenserExtensions_def deleteBlockRows_def insertReorgEvent_def
  by (auto intro!: fewer.stays_bind fewer_catch fewer_begin fewer_update fewer_commit fewer_rollback
      fewer.stays_if fewer.stays_return fewer.stays_throw fewer_write split: option.splits)

section \<open>The invariant of a run\<close>

text \<open>\<open>w0\<close> is the state the run began in.\<close>

definition run_inv :: "reorg_config \<Rightarrow> chain_node \<Rightarrow> nat \<Rightarrow> reorg_run \<Rightarrow> reorg_run \<Rightarrow> bool" where
  "run_inv cfg node prior w0 w \<longleftrightarrow>
     idle w \<and> rw_tick w0 \<le> rw_tick w \<and> cache_unproven w
     \<and> (\<forall>b \<in> set (wk_deleted w). confirmed node (rw_tick w0) (rw_tick w) (snd b))
     \<and> walked (db_tables (rw_db w0)) (wk_deleted w) (db_tables (rw_db w))
     \<and> (wk_haltError w = None \<longrightarrow> length (wk_deleted w) \<le> safeDepthFor cfg - prior)
     \<and> length (wk_deleted w) \<le> 2 * safeDepthFor cfg - prior
     \<and> (wk_haltError w \<noteq> None \<longrightarrow> halted_rows w)"

lemma run_inv_quiet:
  assumes inv: "run_inv cfg node prior w0 w" and q: "quiet w w'"
  shows "run_inv cfg node prior w0 w'"
proof -
  have i: "idle w" using inv by (simp add: run_inv_def)
  with q have tables: "halts_only (db_tables (rw_db w)) (db_tables (rw_db w'))" by (simp add: quiet_def)
  have "walked (db_tables (rw_db w0)) (wk_deleted w') (db_tables (rw_db w'))"
    using walked_halt[OF _ tables] inv q by (simp add: run_inv_def quiet_def)
  moreover have "\<forall>b \<in> set (wk_deleted w'). confirmed node (rw_tick w0) (rw_tick w') (snd b)"
    using inv q by (auto simp: run_inv_def quiet_def intro: confirmed_later)
  moreover have "wk_haltError w' \<noteq> None \<longrightarrow> halted_rows w'"
    using inv q halts_only_halted[OF tables] i by (auto simp: run_inv_def quiet_def halted_rows_def)
  ultimately show ?thesis using inv q i by (auto simp: run_inv_def quiet_def)
qed

lemma triple_quiet:
  assumes "stays quiet m"
  shows "triple (run_inv cfg node prior w0) m (\<lambda>_. run_inv cfg node prior w0) (run_inv cfg node prior w0)"
  using assms run_inv_quiet by (fastforce simp: triple_def stays_def split: sum.splits)

text \<open>Facts a quiet operation cannot take away: the top block and what the node confirmed.\<close>

definition ready :: "reorg_config \<Rightarrow> chain_node \<Rightarrow> nat \<Rightarrow> reorg_run \<Rightarrow> nat \<Rightarrow> jsstr option \<Rightarrow> reorg_run \<Rightarrow> bool" where
  "ready cfg node prior w0 h x w \<longleftrightarrow>
     run_inv cfg node prior w0 w \<and> top_block (db_tables (rw_db w)) h x"

lemma ready_quiet:
  assumes "ready cfg node prior w0 h x w" "quiet w w'"
  shows "ready cfg node prior w0 h x w'"
proof -
  have "run_inv cfg node prior w0 w" "top_block (db_tables (rw_db w)) h x" using assms(1) by (simp_all add: ready_def)
  moreover from this have "halts_only (db_tables (rw_db w)) (db_tables (rw_db w'))"
    using assms(2) by (simp add: run_inv_def quiet_def)
  ultimately show ?thesis using run_inv_quiet assms(2) top_block_halts by (simp add: ready_def)
qed

lemma delete_effect:
  assumes "idle w" "try_db (deleteBlockByIndex h x) w = (r, w')"
  obtains (gone) s where "r = Inr (Some True)" "w' = w\<lparr>rw_db := s\<rparr>" "db_saved s = None"
      "db_tables s = block_removed h x (db_tables (rw_db w))"
    | (kept) s where "r = Inr None" "w' = w\<lparr>rw_db := s\<rparr>" "db_saved s = None" "db_tables s = db_tables (rw_db w)"
proof -
  obtain r1 s where run: "deleteBlockByIndex h x (rw_db w) = (r1, s)" by fastforce
  have "db_saved (rw_db w) = None" using assms(1) by (simp add: idle_def)
  from deleteBlockByIndex_atomic[OF run this] run assms(2) gone kept show thesis
    by (auto simp: try_db_def)
qed

lemma run_inv_deleted:
  assumes inv: "run_inv cfg node prior w0 w" and top: "top_block (db_tables (rw_db w)) h x"
    and proven: "confirmed node (rw_tick w0) (rw_tick w) x"
    and room: "wk_haltError w = None \<longrightarrow> length (wk_deleted w) < safeDepthFor cfg - prior"
      "length (wk_deleted w) < 2 * safeDepthFor cfg - prior"
    and s: "db_saved s = None" "db_tables s = block_removed h x (db_tables (rw_db w))"
  shows "run_inv cfg node prior w0 (note_deleted h x (w\<lparr>rw_db := s\<rparr>))"
proof -
  have "walked (db_tables (rw_db w0)) (wk_deleted w @ [(h, x)]) (db_tables s)"
    unfolding s(2) using inv top by (intro walked_delete) (simp_all add: run_inv_def)
  moreover have "halted_rows (w\<lparr>rw_db := s\<rparr>)" if "halted_rows w"
    using that by (simp add: halted_rows_def s(2))
  ultimately show ?thesis
    using inv proven room s(1)
    by (auto simp: run_inv_def note_deleted_def idle_def cache_unproven_def halted_rows_def)
qed

lemma prove_confirms:
  "proveReorgedAway node x w = (Inr Proven, w') \<Longrightarrow> confirmed node (rw_tick w) (rw_tick w') x"
  by (auto simp: proveReorgedAway_def db_bind_def asking_def db_return_def header_proof_def confirmed_def
      split: header_answer.splits option.splits if_splits)

lemma fork_proof_confirms:
  assumes "cache_unproven w" "proveForkReorgedAway node x tip w = (Inr Proven, w')"
  shows "confirmed node (rw_tick w) (rw_tick w') x"
proof -
  have "header_proof (cn_header node (Suc (rw_tick w)) x) = Proven \<and> rw_tick w' = Suc (Suc (rw_tick w))"
    using assms
    by (auto simp: proveForkReorgedAway_def Let_def db_bind_def asking_def get_run_def set_run_def db_return_def
        cache_unproven_def proveReorgedAway_def split: option.splits if_splits)
  then show ?thesis unfolding confirmed_def
    by (intro exI[of _ "Suc (rw_tick w)"])
      (auto simp: header_proof_def split: header_answer.splits option.splits if_splits)
qed

lemma require_confirms:
  assumes "cache_unproven w" "requireReorgProof node h x tip w = (Inr u, w')"
  shows "confirmed node (rw_tick w) (rw_tick w') x"
  using assms fork_proof_confirms[OF assms(1)]
  by (auto simp: requireReorgProof_def db_bind_Inr_iff db_return_def db_throw_def split: if_splits)

definition proven_ready ::
    "reorg_config \<Rightarrow> chain_node \<Rightarrow> nat \<Rightarrow> reorg_run \<Rightarrow> nat \<Rightarrow> jsstr option \<Rightarrow> reorg_run \<Rightarrow> bool" where
  "proven_ready cfg node prior w0 h x w \<longleftrightarrow>
     ready cfg node prior w0 h x w \<and> confirmed node (rw_tick w0) (rw_tick w) x"

lemma proven_ready_quiet:
  "proven_ready cfg node prior w0 h x w \<Longrightarrow> quiet w w' \<Longrightarrow> proven_ready cfg node prior w0 h x w'"
  unfolding proven_ready_def using ready_quiet by (auto simp: quiet_def intro: confirmed_later)

lemma triple_require:
  "triple (ready cfg node prior w0 h x) (requireReorgProof node hh x tip)
     (\<lambda>_. proven_ready cfg node prior w0 h x) (run_inv cfg node prior w0)"
proof (rule tripleI)
  fix w r w' assume w: "ready cfg node prior w0 h x w"
  {
    assume run: "requireReorgProof node hh x tip w = (Inr r, w')"
    then have q: "quiet w w'" using quiet_require by (auto simp: stays_def)
    have "confirmed node (rw_tick w) (rw_tick w') x"
      using require_confirms[OF _ run] w by (simp add: ready_def run_inv_def)
    then have "confirmed node (rw_tick w0) (rw_tick w') x"
      using w unfolding confirmed_def ready_def run_inv_def by (meson le_trans)
    with ready_quiet[OF w q] show "proven_ready cfg node prior w0 h x w'" by (simp add: proven_ready_def)
  }
next
  fix w e w' assume "ready cfg node prior w0 h x w" "requireReorgProof node hh x tip w = (Inl e, w')"
  then show "run_inv cfg node prior w0 w'"
    using quiet_require run_inv_quiet by (auto simp: stays_def ready_def)
qed

lemma triple_stable:
  assumes "stays quiet m" "\<And>w w'. P w \<Longrightarrow> quiet w w' \<Longrightarrow> P w'" "\<And>w. P w \<Longrightarrow> E w"
  shows "triple P m (\<lambda>_. P) E"
  by (rule tripleI) (use assms in \<open>auto simp: stays_def\<close>)

text \<open>The depth check leaves room for one more block, or a halt.\<close>

definition room_left :: "reorg_config \<Rightarrow> nat \<Rightarrow> reorg_run \<Rightarrow> bool" where
  "room_left cfg prior w \<longleftrightarrow> wk_haltError w \<noteq> None \<or> length (wk_deleted w) < safeDepthFor cfg - prior"

lemma assert_leaves_room: "assertWithinSafeDepth cfg node prior h w = (Inr u, w') \<Longrightarrow> room_left cfg prior w'"
  by (auto simp: assertWithinSafeDepth_def room_left_def raiseSafeDepthHalt_def db_bind_Inr_iff get_run_def
      set_run_def db_throw_def split: if_splits)

lemma triple_assert:
  "triple (proven_ready cfg node prior w0 h x) (assertWithinSafeDepth cfg node prior hh)
     (\<lambda>_ w. proven_ready cfg node prior w0 h x w \<and> room_left cfg prior w) (run_inv cfg node prior w0)"
proof (rule tripleI)
  fix w r w' assume w: "proven_ready cfg node prior w0 h x w"
  show "proven_ready cfg node prior w0 h x w' \<and> room_left cfg prior w'"
    if run: "assertWithinSafeDepth cfg node prior hh w = (Inr r, w')" for r
    using assert_leaves_room[OF run] proven_ready_quiet[OF w] quiet_assert run by (auto simp: stays_def)
next
  fix w e w' assume "proven_ready cfg node prior w0 h x w" "assertWithinSafeDepth cfg node prior hh w = (Inl e, w')"
  then show "run_inv cfg node prior w0 w'"
    using quiet_assert run_inv_quiet by (auto simp: stays_def proven_ready_def ready_def)
qed

lemma delete_kept_quiet:
  assumes "idle w" "try_db (deleteBlockByIndex h x) w = (Inr None, w')"
  shows "quiet w w'"
proof -
  have "length (db_fates (rw_db w')) \<le> length (db_fates (rw_db w))"
    using fewer_delete assms(2) by (auto simp: try_db_def stays_def fewer_def split: prod.splits sum.splits)
  with assms show ?thesis
    by (cases rule: delete_effect)
      (simp_all add: quiet_def cache_unproven_def idle_def halts_only_refl)
qed

lemma quiet_delete_failed:
  "stays quiet (db_bind (set_run (\<lambda>w. w\<lparr>wk_retryCount := wk_retryCount w + 1\<rparr>)) (\<lambda>_.
     db_bind (get_run wk_retryCount) (\<lambda>n.
       if 10 \<le> n
       then db_bind (haltReorg node (js ''verifyReorg: deleteBlockByIndex failed after 10 attempts ('' @ branch @ js '' branch)''))
              (\<lambda>_. db_throw DeleteFailed)
       else db_return ())))"
  by (auto intro!: quiet_shape quiet_haltReorg)

lemma triple_delete:
  "triple (\<lambda>w. proven_ready cfg node prior w0 h x w \<and> room_left cfg prior w)
     (unless_halted (delete_with_retry node branch h x))
     (\<lambda>_. run_inv cfg node prior w0) (run_inv cfg node prior w0)"
proof -
  have goal: "run_inv cfg node prior w0 w'"
    if w: "proven_ready cfg node prior w0 h x w" "room_left cfg prior w"
      and run: "unless_halted (delete_with_retry node branch h x) w = (r, w')" for w r w'
  proof (cases "wk_haltError w")
    case (Some e)
    with run w show ?thesis
      by (auto simp: unless_halted_def db_bind_def get_run_def db_return_def proven_ready_def ready_def)
  next
    case None
    have inv: "run_inv cfg node prior w0 w" "idle w" using w by (auto simp: proven_ready_def ready_def run_inv_def)
    obtain r1 w1 where d: "try_db (deleteBlockByIndex h x) w = (r1, w1)" by fastforce
    from inv(2) d show ?thesis
    proof (cases rule: delete_effect)
      case (gone s)
      have "run_inv cfg node prior w0 (note_deleted h x (w\<lparr>rw_db := s\<rparr>))"
        using w None gone inv
        by (intro run_inv_deleted) (auto simp: proven_ready_def ready_def room_left_def idle_def)
      moreover have "w' = (note_deleted h x (w\<lparr>rw_db := s\<rparr>))\<lparr>wk_retryCount := 0\<rparr>"
        using run None d gone(1,2)
        by (auto simp: unless_halted_def delete_with_retry_def db_bind_def get_run_def set_run_def note_deleted_def)
      ultimately show ?thesis
        by (simp add: run_inv_def idle_def cache_unproven_def halted_rows_def note_deleted_def)
    next
      case (kept s)
      have "quiet w w1"
        using delete_kept_quiet[OF inv(2)] d kept(1) by simp
      moreover have "quiet w1 w'"
        using quiet_delete_failed run None d kept(1)
        by (auto simp: unless_halted_def delete_with_retry_def db_bind_def get_run_def stays_def)
      ultimately show ?thesis using inv(1) quiet.transitive run_inv_quiet by blast
    qed
  qed
  then show ?thesis by (intro tripleI) auto
qed

section \<open>The finish of a halted walk\<close>

text \<open>Stored blocks at consecutive heights from the given one down.\<close>

fun column :: "tables \<Rightarrow> int \<Rightarrow> (nat \<times> jsstr option) list \<Rightarrow> bool" where
  "column t h [] \<longleftrightarrow> True"
| "column t h (b # bs) \<longleftrightarrow> int (fst b) = h \<and> stored_hash t (fst b) = Some (snd b) \<and> column t (h - 1) bs"

lemma column_append: "column t h (as @ bs) \<longleftrightarrow> column t h as \<and> column t (h - int (length as)) bs"
  by (induction as arbitrary: h) (auto simp: algebra_simps)

lemma stored_hash_removed: "k \<noteq> h \<Longrightarrow> stored_hash (block_removed h x t) k = stored_hash t k"
  by (simp add: stored_hash_def block_removed_def append_event_def undo_block_parts Let_def find_block_other
      split: option.split)

lemma stored_heights_removed: "stored_heights (block_removed h x t) = filter (\<lambda>k. k \<noteq> h) (stored_heights t)"
  by (simp add: stored_heights_def block_removed_def append_event_def undo_block_parts Let_def filter_map comp_def
      split: option.split)

lemma column_removed: "h < int k \<Longrightarrow> column (block_removed k x t) h bs = column t h bs"
  by (induction bs arbitrary: h) (auto simp: stored_hash_removed)

lemma stored_hash_height: "stored_hash t k = Some x \<Longrightarrow> k \<in> set (stored_heights t)"
  by (auto simp: stored_hash_def stored_heights_def find_Some_iff)

lemma highest_eq:
  "highest ns = int h \<longleftrightarrow> h \<in> set ns \<and> (\<forall>n \<in> set ns. n \<le> h)"
proof -
  have "fold max ns 0 \<in> insert 0 (set ns) \<and> (\<forall>n \<in> set ns. n \<le> fold max ns 0)" for ns :: "nat list"
  proof -
    have "fold max ns a \<in> insert a (set ns) \<and> a \<le> fold max ns a \<and> (\<forall>n \<in> set ns. n \<le> fold max ns a)" for a
      by (induction ns arbitrary: a) (auto simp: max_def dest: le_trans, fastforce+)
    then show ?thesis by blast
  qed
  from this[of ns] show ?thesis
  proof (cases "ns = []")
    case False
    then obtain x where "x \<in> set ns" by (meson list.set_sel(1))
    with \<open>fold max ns 0 \<in> _ \<and> _\<close> False show ?thesis
      by (auto simp: highest_def intro: le_antisym)
  qed (simp add: highest_def)
qed

lemma highest_below:
  assumes "highest ns = int h" "int m = int h - 1" "m \<in> set ns"
  shows "highest (filter (\<lambda>k. k \<noteq> h) ns) = int m"
proof -
  have "h = Suc m" using assms(2) by simp
  moreover have "\<forall>n \<in> set ns. n \<le> h" using assms(1) by (simp add: highest_eq)
  ultimately show ?thesis using assms(3) by (fastforce simp: highest_eq)
qed

definition plan ::
    "reorg_config \<Rightarrow> chain_node \<Rightarrow> nat \<Rightarrow> reorg_run \<Rightarrow> int \<Rightarrow> (nat \<times> jsstr option) list \<Rightarrow> reorg_run \<Rightarrow> bool" where
  "plan cfg node prior w0 h bs w \<longleftrightarrow>
     run_inv cfg node prior w0 w \<and> wk_haltError w \<noteq> None
     \<and> length (wk_deleted w) + length bs \<le> 2 * safeDepthFor cfg - prior
     \<and> (bs \<noteq> [] \<longrightarrow> highest (stored_heights (db_tables (rw_db w))) = h)
     \<and> column (db_tables (rw_db w)) h bs"

lemma column_halts: "halts_only t t' \<Longrightarrow> column t' h bs = column t h bs"
  by (induction bs arbitrary: h) (simp_all add: stored_hash_def halts_only_parts)

lemma plan_quiet:
  assumes "plan cfg node prior w0 h bs w" "quiet w w'"
  shows "plan cfg node prior w0 h bs w'"
proof -
  have w: "run_inv cfg node prior w0 w" using assms(1) by (simp add: plan_def)
  then have t: "halts_only (db_tables (rw_db w)) (db_tables (rw_db w'))"
    and e: "wk_haltError w \<noteq> None \<longrightarrow> wk_haltError w' \<noteq> None" and d: "wk_deleted w' = wk_deleted w"
    using assms(2) by (auto simp: quiet_def run_inv_def)
  have "stored_heights (db_tables (rw_db w')) = stored_heights (db_tables (rw_db w))"
    using t by (simp add: stored_heights_def halts_only_parts)
  with assms(1) e d run_inv_quiet[OF w assms(2)] column_halts[OF t] show ?thesis by (simp add: plan_def)
qed

lemma plan_deleted:
  assumes "plan cfg node prior w0 h (b # bs) w" "confirmed node (rw_tick w0) (rw_tick w) (snd b)"
    and s: "db_saved s = None" "db_tables s = block_removed (fst b) (snd b) (db_tables (rw_db w))"
  shows "plan cfg node prior w0 (h - 1) bs (note_deleted (fst b) (snd b) (w\<lparr>rw_db := s\<rparr>))"
proof -
  let ?t = "db_tables (rw_db w)" and ?w = "note_deleted (fst b) (snd b) (w\<lparr>rw_db := s\<rparr>)"
  have p: "run_inv cfg node prior w0 w" "wk_haltError w \<noteq> None" "int (fst b) = h"
      "length (wk_deleted w) + Suc (length bs) \<le> 2 * safeDepthFor cfg - prior"
      "highest (stored_heights ?t) = h" "stored_hash ?t (fst b) = Some (snd b)" "column ?t (h - 1) bs"
    using assms(1) by (auto simp: plan_def)
  have top: "top_block ?t (fst b) (snd b)" using p by (simp add: top_block_def)
  have inv: "run_inv cfg node prior w0 ?w"
    using p top assms(2) s by (intro run_inv_deleted) auto
  have tables: "db_tables (rw_db ?w) = block_removed (fst b) (snd b) ?t" by (simp add: note_deleted_def s)
  have "column (db_tables (rw_db ?w)) (h - 1) bs" using p(3,7) by (simp add: tables column_removed)
  moreover have "highest (stored_heights (db_tables (rw_db ?w))) = h - 1" if ne: "bs \<noteq> []"
  proof -
    obtain c cs where c: "bs = c # cs" using ne by (cases bs) auto
    then have c1: "int (fst c) = h - 1" "fst c \<in> set (stored_heights ?t)"
      using p(7) stored_hash_height by auto
    have "highest (filter (\<lambda>k. k \<noteq> fst b) (stored_heights ?t)) = int (fst c)"
      using p(3,5) c1 by (intro highest_below) simp_all
    then show ?thesis by (simp only: tables stored_heights_removed c1)
  qed
  ultimately show ?thesis using inv p(2,4) by (simp add: plan_def note_deleted_def)
qed

definition halted_inv :: "reorg_config \<Rightarrow> chain_node \<Rightarrow> nat \<Rightarrow> reorg_run \<Rightarrow> reorg_run \<Rightarrow> bool" where
  "halted_inv cfg node prior w0 w \<longleftrightarrow> run_inv cfg node prior w0 w \<and> wk_haltError w \<noteq> None"

lemma halted_inv_quiet:
  assumes "halted_inv cfg node prior w0 w" "quiet w w'"
  shows "halted_inv cfg node prior w0 w'"
proof -
  have inv: "run_inv cfg node prior w0 w" using assms(1) by (simp add: halted_inv_def)
  then have "idle w" by (simp add: run_inv_def)
  with run_inv_quiet[OF inv assms(2)] assms show ?thesis by (auto simp: halted_inv_def quiet_def)
qed

lemma triple_halted_block:
  "triple (\<lambda>w. plan cfg node prior w0 h (b # bs) w \<and> confirmed node (rw_tick w0) (rw_tick w) (snd b))
     (deleteHaltedBlock n b)
     (\<lambda>gone w. if gone then plan cfg node prior w0 (h - 1) bs w else halted_inv cfg node prior w0 w) (\<lambda>_. False)"
proof (induction n)
  case 0 show ?case by (auto intro!: triple_return simp: plan_def halted_inv_def)
next
  case (Suc n)
  show ?case
  proof (rule tripleI)
    fix w r w' assume w: "plan cfg node prior w0 h (b # bs) w \<and> confirmed node (rw_tick w0) (rw_tick w) (snd b)"
      and run: "deleteHaltedBlock (Suc n) b w = (Inr r, w')"
    have "idle w" using w by (simp add: plan_def run_inv_def)
    obtain r1 w1 where d: "try_db (deleteBlockByIndex (fst b) (snd b)) w = (r1, w1)" by fastforce
    show "if r then plan cfg node prior w0 (h - 1) bs w' else halted_inv cfg node prior w0 w'"
      using \<open>idle w\<close> d
    proof (cases rule: delete_effect)
      case (gone s)
      with run d plan_deleted[OF conjunct1[OF w] conjunct2[OF w] gone(3,4)] show ?thesis
        by (simp add: db_bind_def set_run_def db_return_def)
    next
      case (kept s)
      then have q: "quiet w w1" using delete_kept_quiet[OF \<open>idle w\<close>] d by simp
      then have "plan cfg node prior w0 h (b # bs) w1 \<and> confirmed node (rw_tick w0) (rw_tick w1) (snd b)"
        using w plan_quiet by (auto simp: quiet_def intro: confirmed_later)
      moreover have "deleteHaltedBlock n b w1 = (Inr r, w')" using run d kept(1) by (simp add: db_bind_def)
      ultimately show ?thesis using triple_Inr[OF Suc] by blast
    qed
  next
    fix w e w' assume w: "plan cfg node prior w0 h (b # bs) w \<and> confirmed node (rw_tick w0) (rw_tick w) (snd b)"
      and run: "deleteHaltedBlock (Suc n) b w = (Inl e, w')"
    have "idle w" using w by (simp add: plan_def run_inv_def)
    obtain r1 w1 where d: "try_db (deleteBlockByIndex (fst b) (snd b)) w = (r1, w1)" by fastforce
    show False
      using \<open>idle w\<close> d
    proof (cases rule: delete_effect)
      case (kept s)
      then have q: "quiet w w1" using delete_kept_quiet[OF \<open>idle w\<close>] d by simp
      then have "plan cfg node prior w0 h (b # bs) w1 \<and> confirmed node (rw_tick w0) (rw_tick w1) (snd b)"
        using w plan_quiet by (auto simp: quiet_def intro: confirmed_later)
      moreover have "deleteHaltedBlock n b w1 = (Inl e, w')" using run d kept(1) by (simp add: db_bind_def)
      ultimately show ?thesis using triple_Inl[OF Suc] by blast
    qed (use run d in \<open>simp add: db_bind_def set_run_def db_return_def\<close>)
  qed
qed

lemma triple_proven_blocks:
  "triple (plan cfg node prior w0 h bs) (deleteProvenBlocks node bs)
     (\<lambda>_. halted_inv cfg node prior w0) (run_inv cfg node prior w0)"
proof (induction bs arbitrary: h)
  case Nil show ?case by (auto intro!: triple_return simp: plan_def halted_inv_def)
next
  case (Cons b bs)
  let ?P = "plan cfg node prior w0"
  have prove: "triple (?P h (b # bs)) (proveReorgedAway node (snd b))
      (\<lambda>p w. ?P h (b # bs) w \<and> (p = Proven \<longrightarrow> confirmed node (rw_tick w0) (rw_tick w) (snd b)))
      (run_inv cfg node prior w0)"
  proof (rule tripleI)
    fix w p w' assume w: "?P h (b # bs) w" and run: "proveReorgedAway node (snd b) w = (Inr p, w')"
    then have "quiet w w'" using quiet_prove by (auto simp: stays_def)
    moreover have "p = Proven \<longrightarrow> confirmed node (rw_tick w0) (rw_tick w') (snd b)"
      using prove_confirms[of node "snd b" w w'] run w unfolding confirmed_def plan_def run_inv_def
      by (meson le_trans)
    ultimately show "?P h (b # bs) w' \<and> (p = Proven \<longrightarrow> confirmed node (rw_tick w0) (rw_tick w') (snd b))"
      using plan_quiet[OF w] by blast
  next
    fix w e w' assume "?P h (b # bs) w" "proveReorgedAway node (snd b) w = (Inl e, w')"
    then show "run_inv cfg node prior w0 w'" by (auto simp: proveReorgedAway_def db_bind_def asking_def db_return_def)
  qed
  have rest: "triple (\<lambda>w. if gone then ?P (h - 1) bs w else halted_inv cfg node prior w0 w)
      (if \<not> gone then db_return (Some (NotDeleted (int (fst b)))) else deleteProvenBlocks node bs)
      (\<lambda>_. halted_inv cfg node prior w0) (run_inv cfg node prior w0)" for gone
    using Cons[of "h - 1"] by (auto intro: triple_return)
  have body: "triple (\<lambda>w. ?P h (b # bs) w \<and> (p = Proven \<longrightarrow> confirmed node (rw_tick w0) (rw_tick w) (snd b)))
      (if p \<noteq> Proven then db_return (Some (NotProven (int (fst b)) p))
       else db_bind (deleteHaltedBlock 10 b) (\<lambda>gone.
            if \<not> gone then db_return (Some (NotDeleted (int (fst b)))) else deleteProvenBlocks node bs))
      (\<lambda>_. halted_inv cfg node prior w0) (run_inv cfg node prior w0)" for p
  proof (cases "p = Proven")
    case True
    have "triple (\<lambda>w. ?P h (b # bs) w \<and> confirmed node (rw_tick w0) (rw_tick w) (snd b)) (deleteHaltedBlock 10 b)
       (\<lambda>gone w. if gone then ?P (h - 1) bs w else halted_inv cfg node prior w0 w) (run_inv cfg node prior w0)"
      by (rule triple_weaken[OF triple_halted_block]) auto
    from triple_bind[OF this rest] True show ?thesis by simp
  qed (auto intro!: triple_return simp: plan_def halted_inv_def)
  show ?case unfolding deleteProvenBlocks.simps by (rule triple_bind[OF prove body])
qed

section \<open>What the readings say\<close>

lemma read_block_hash:
  "read_block h s = (Inr (Some b), s') \<Longrightarrow> 0 \<le> h \<and> stored_hash (db_tables s) (nat h) = Some (bv_hash b)"
  by (auto simp: read_block_def getBlockByIndex_def stored_hash_def dest!: retry_read_Inr[THEN sym] split: if_splits)

lemma try_read:
  assumes "reads_only m" "try_db m w = (r, w')"
  shows "db_tables (rw_db w') = db_tables (rw_db w) \<and> (\<forall>x. r = Inr (Some x) \<longrightarrow> (\<exists>s. m (rw_db w) = (Inr x, s)))
    \<and> (\<forall>e. r \<noteq> Inl e)"
  using assms unfolding reads_only_def try_db_def by (auto split: prod.splits sum.splits)

text \<open>The node gave this hash of a height.\<close>

definition answered :: "chain_node \<Rightarrow> nat \<Rightarrow> nat \<Rightarrow> int \<Rightarrow> jsstr \<Rightarrow> bool" where
  "answered node a b h x \<longleftrightarrow> (\<exists>k. a \<le> k \<and> k < b \<and> cn_hash node k h = HashText x)"

lemma answered_wider: "answered node a b h x \<Longrightarrow> a' \<le> a \<Longrightarrow> b \<le> b' \<Longrightarrow> answered node a' b' h x"
  unfolding answered_def by (meson le_trans less_le_trans)

lemma node_hash_answered:
  "readNodeBlockHash node h w = (Inr (Some x), w') \<Longrightarrow> answered node (rw_tick w) (rw_tick w') h x"
  by (auto simp: readNodeBlockHash_def db_bind_def asking_def db_return_def answered_def
      split: hash_answer.splits if_splits)

lemma node_hash_frame:
  "readNodeBlockHash node h w = (r, w') \<Longrightarrow> rw_db w' = rw_db w \<and> rw_tick w' = Suc (rw_tick w) \<and> (\<exists>x. r = Inr x)"
  by (auto simp: readNodeBlockHash_def db_bind_def asking_def db_return_def)

lemma node_hash_total:
  "\<exists>x v. readNodeBlockHash node h w = (Inr x, v)"
  "\<exists>x v. (if c then db_return None else readNodeBlockHash node h) w = (Inr x, v)"
  by (auto simp: readNodeBlockHash_def db_bind_def asking_def db_return_def)

lemma read_down_fork:
  assumes "read_down node tip storedTip lowest n h doomed w = (Inr (ForkPoint ds f), w')"
    "column (db_tables (rw_db w)) H doomed" "H - int (length doomed) = h"
  shows "db_tables (rw_db w') = db_tables (rw_db w) \<and> column (db_tables (rw_db w)) H ds
    \<and> length ds < length doomed + n \<and> f = H - int (length ds) \<and> 0 \<le> f
    \<and> (\<exists>x. stored_hash (db_tables (rw_db w)) (nat f) = Some (Some x) \<and> answered node (rw_tick w) (rw_tick w') f x)"
  using assms
proof (induction n arbitrary: h doomed w)
  case 0 then show ?case by (simp add: db_return_def)
next
  case (Suc n)
  let ?T = "db_tables (rw_db w)"
  obtain r1 w1 where rd: "try_db (read_block h) w = (r1, w1)" by fastforce
  note t1 = try_read[OF reads_operations(2) rd]
  from Suc.prems(1) rd t1 obtain b stored where r1: "r1 = Inr (Some (Some b))" and b: "bv_hash b = Some stored"
    by (auto simp: db_bind_def db_return_def Let_def split: sum.splits option.splits)
  have h: "0 \<le> h" "stored_hash ?T (nat h) = Some (Some stored)"
    using t1 r1 b read_block_hash by fastforce+
  let ?ds = "doomed @ [(nat h, Some stored)]"
  have col: "column ?T H ?ds" "H - int (length ?ds) = h - 1"
    using Suc.prems(2,3) h by (simp_all add: column_append)
  have tick: "rw_tick w \<le> rw_tick w1" using quiet_read[OF reads_operations(2)] rd by (auto simp: stays_def quiet_def)
  have step: ?case if "read_down node tip storedTip lowest n (h - 1) ?ds v = (Inr (ForkPoint ds f), w')"
      "db_tables (rw_db v) = ?T" "rw_tick w \<le> rw_tick v" for v
    using Suc.IH[OF that(1), unfolded that(2), OF col] that(3) by (auto intro: answered_wider)
  show ?case
  proof (cases "case tip of None \<Rightarrow> False | Some t \<Rightarrow> t < h")
    case True
    with Suc.prems(1) rd r1 b have "read_down node tip storedTip lowest n (h - 1) ?ds w1 = (Inr (ForkPoint ds f), w')"
      by (simp add: db_bind_def)
    then show ?thesis using step t1 tick by blast
  next
    case False
    obtain x2 w2 where n1: "readNodeBlockHash node h w1 = (Inr x2, w2)" using node_hash_total(1) by blast
    obtain x3 w3 where n2: "(if x2 = None then db_return None else readNodeBlockHash node h) w2 = (Inr x3, w3)"
      using node_hash_total(2) by blast
    note f1 = node_hash_frame[OF n1]
    have f3: "rw_db w3 = rw_db w2" "rw_tick w2 \<le> rw_tick w3"
      using n2 node_hash_frame[of node h w2] by (auto simp: db_return_def split: if_splits)
    have run: "(if x2 = None \<or> x3 = None then db_return (StopAt (HashUnread h))
        else if x2 \<noteq> x3 then db_return (StopAt (HashDisagrees h))
        else if x2 = Some stored then db_return (ForkPoint doomed h)
        else read_down node tip storedTip lowest n (h - 1) ?ds) w3 = (Inr (ForkPoint ds f), w')"
      using Suc.prems(1) rd r1 b False n1 n2 by (simp add: db_bind_def)
    show ?thesis
    proof (cases "x2 = Some stored \<and> x3 = Some stored")
      case True
      with run have "ds = doomed" "f = h" "w' = w3" by (auto simp: db_return_def)
      moreover have "answered node (rw_tick w) (rw_tick w3) h stored"
        using node_hash_answered[of node h w1 stored w2] n1 True tick f3(2) by (auto intro: answered_wider)
      ultimately show ?thesis using Suc.prems(2,3) h t1 f1 f3 by auto
    next
      case False
      with run have "read_down node tip storedTip lowest n (h - 1) ?ds w3 = (Inr (ForkPoint ds f), w')"
        by (auto simp: db_return_def split: if_splits)
      moreover have "db_tables (rw_db w3) = ?T" "rw_tick w \<le> rw_tick w3" using t1 f1 f3 tick by auto
      ultimately show ?thesis by (rule step)
    qed
  qed
qed

section \<open>One pass\<close>

lemma last_block_Inr: "getLastBlockIndex s = (Inr i, s') \<Longrightarrow> i = highest (stored_heights (db_tables s))"
  by (auto simp: getLastBlockIndex_def stored_heights_def dest: retry_read_Inr)

lemma read_last_block:
  assumes "readLastStoredBlock w = (r, w')"
  shows "(\<forall>e. r \<noteq> Inl e) \<and> db_tables (rw_db w') = db_tables (rw_db w)
    \<and> (\<forall>i b. r = Inr (Some (i, b)) \<longrightarrow> i = highest (stored_heights (db_tables (rw_db w))))
    \<and> (\<forall>i b. r = Inr (Some (i, Some b)) \<longrightarrow> 0 \<le> i \<and> top_block (db_tables (rw_db w)) (nat i) (bv_hash b))"
proof -
  let ?m = "db_bind getLastBlockIndex (\<lambda>i. db_bind (read_block i) (\<lambda>b. db_return (i, b)))"
  have ro: "reads_only ?m" by (intro reads_bind reads_operations reads_return)
  note t = try_read[OF ro assms[unfolded readLastStoredBlock_def]]
  have i: "i = highest (stored_heights (db_tables (rw_db w)))" if "?m (rw_db w) = (Inr (i, b), s)" for i b s
    using that by (auto simp: db_bind_Inr_iff db_return_def dest: last_block_Inr)
  moreover have "0 \<le> i \<and> stored_hash (db_tables (rw_db w)) (nat i) = Some (bv_hash b)"
    if run: "?m (rw_db w) = (Inr (i, Some b), s)" for i b s
  proof -
    obtain s1 where s1: "getLastBlockIndex (rw_db w) = (Inr i, s1)" "read_block i s1 = (Inr (Some b), s)"
      using run by (auto simp: db_bind_Inr_iff db_return_def)
    have "db_tables s1 = db_tables (rw_db w)"
      using reads_operations(1) s1(1) by (auto simp: reads_only_def)
    with read_block_hash[OF s1(2)] show ?thesis by simp
  qed
  ultimately show ?thesis using t by (fastforce simp: top_block_def)
qed

lemma halted_read_fork:
  assumes run: "readHaltedWalk cfg node tip budget w = (Inr (storedTip, ForkPoint ds f), w')"
  shows "db_tables (rw_db w') = db_tables (rw_db w) \<and> storedTip = highest (stored_heights (db_tables (rw_db w)))
    \<and> column (db_tables (rw_db w)) storedTip ds \<and> int (length ds) \<le> budget \<and> f = storedTip - int (length ds)
    \<and> (\<exists>x. stored_hash (db_tables (rw_db w)) (nat f) = Some (Some x) \<and> answered node (rw_tick w) (rw_tick w') f x)"
proof -
  obtain r1 w1 where rd: "try_db getLastBlockIndex w = (r1, w1)" by fastforce
  note t1 = try_read[OF reads_operations(1) rd]
  define lowest where "lowest = max (rc_start cfg) (storedTip - budget)"
  from run rd t1 have r1: "r1 = Inr (Some storedTip)"
    and rd2: "read_down node tip storedTip lowest (nat (storedTip - lowest + 1)) storedTip [] w1 = (Inr (ForkPoint ds f), w')"
    unfolding lowest_def
    by (auto simp: readHaltedWalk_def db_bind_def db_return_def Let_def split: sum.splits option.splits prod.splits)
  have top: "storedTip = highest (stored_heights (db_tables (rw_db w)))"
    using t1 r1 last_block_Inr by auto
  have tick: "rw_tick w \<le> rw_tick w1" using quiet_read[OF reads_operations(1)] rd by (auto simp: stays_def quiet_def)
  from read_down_fork[OF rd2, of storedTip] have d: "db_tables (rw_db w') = db_tables (rw_db w1)"
    "column (db_tables (rw_db w1)) storedTip ds" "length ds < nat (storedTip - lowest + 1)"
    "f = storedTip - int (length ds)"
    "\<exists>x. stored_hash (db_tables (rw_db w1)) (nat f) = Some (Some x) \<and> answered node (rw_tick w1) (rw_tick w') f x"
    by auto
  have "int (length ds) \<le> budget" using d(3) by (simp add: lowest_def)
  with d t1 top tick show ?thesis by (auto intro: answered_wider)
qed

lemma triple_finish_halted:
  "triple (halted_inv cfg node prior w0) (finishHaltedWalk cfg node prior)
     (\<lambda>_. halted_inv cfg node prior w0) (run_inv cfg node prior w0)"
proof -
  let ?I = "halted_inv cfg node prior w0"
  have stop: "?I w \<Longrightarrow> ?I (w\<lparr>wk_haltStop := x\<rparr>)" for w x
    by (simp add: halted_inv_def run_inv_def idle_def cache_unproven_def halted_rows_def)
  have run_of: "?I w \<Longrightarrow> run_inv cfg node prior w0 w" for w by (simp add: halted_inv_def)
  have goal: "case r of Inl _ \<Rightarrow> run_inv cfg node prior w0 w' | Inr _ \<Rightarrow> ?I w'" if w: "?I w" and run: "finishHaltedWalk cfg node prior w = (r, w')" for w r w'
  proof -
    let ?w = "w\<lparr>wk_haltStop := None\<rparr>"
    obtain r1 w1 where rd: "readHaltedWalk cfg node (wk_nodeTip w)
        (2 * int (safeDepthFor cfg) - int (prior + length (wk_deleted w))) ?w = (r1, w1)" by fastforce
    then have q: "quiet ?w w1" using quiet_halted_read by (auto simp: stays_def)
    then have w1: "?I w1" using halted_inv_quiet stop[OF w] by blast
    show ?thesis
    proof (cases "\<exists>storedTip ds f. r1 = Inr (storedTip, ForkPoint ds f)")
      case False
      with run rd w1 stop show ?thesis
        by (auto simp: finishHaltedWalk_def db_bind_def set_run_def get_run_def intro: run_of
            split: sum.splits prod.splits halted_read.splits)
    next
      case True
      then obtain storedTip ds f where r1: "r1 = Inr (storedTip, ForkPoint ds f)" by blast
      note fk = halted_read_fork[OF rd[unfolded r1]]
      have e: "wk_haltError w1 \<noteq> None" "wk_deleted w1 = wk_deleted w"
        using q w w1 by (auto simp: quiet_def halted_inv_def)
      have "length (wk_deleted w) \<le> 2 * safeDepthFor cfg - prior" using w by (simp add: halted_inv_def run_inv_def)
      moreover have "int (length ds) \<le> 2 * int (safeDepthFor cfg) - int (prior + length (wk_deleted w))"
        using fk by simp
      ultimately have "plan cfg node prior w0 storedTip ds w1"
        using w1 e fk by (auto simp: plan_def halted_inv_def)
      then have "case x of Inl _ \<Rightarrow> run_inv cfg node prior w0 v | Inr _ \<Rightarrow> ?I v"
        if "deleteProvenBlocks node ds w1 = (x, v)" for x v
        using triple_proven_blocks[of cfg node prior w0 storedTip ds] that by (auto simp: triple_def)
      with run rd r1 w1 stop show ?thesis
        by (auto simp: finishHaltedWalk_def db_bind_def set_run_def get_run_def
            split: sum.splits prod.splits option.splits if_splits)
    qed
  qed
  then show ?thesis unfolding triple_def by blast
qed

lemma triple_deletes:
  "triple (ready cfg node prior w0 h x) (deleteForkedBlock cfg node prior h x tip)
     (\<lambda>_. run_inv cfg node prior w0) (run_inv cfg node prior w0)"
  "triple (ready cfg node prior w0 h x) (deleteAboveTipBlock cfg node prior h x t)
     (\<lambda>_. run_inv cfg node prior w0) (run_inv cfg node prior w0)"
proof -
  let ?I = "run_inv cfg node prior w0"
  have delete: "triple (ready cfg node prior w0 h x)
      (db_bind (requireReorgProof node (int h) x tip) (\<lambda>_. db_bind (assertWithinSafeDepth cfg node prior (int h)) (\<lambda>_.
        unless_halted (delete_with_retry node branch h x)))) (\<lambda>_. ?I) ?I" for tip branch
    by (rule triple_bind[OF triple_require triple_bind[OF triple_assert triple_delete]])
  show "triple (ready cfg node prior w0 h x) (deleteForkedBlock cfg node prior h x tip) (\<lambda>_. ?I) ?I"
    unfolding deleteForkedBlock_def by (rule delete)
  have ready: "triple (ready cfg node prior w0 h x) (refuseOrHaltDeepGap cfg node prior (int h) x t)
      (\<lambda>_. ready cfg node prior w0 h x) ?I"
    by (rule triple_stable[OF quiet_gap ready_quiet]) (simp_all add: ready_def)
  have guarded: "triple (ready cfg node prior w0 h x)
      (unless_halted (db_bind (requireReorgProof node (int h) x tip) (\<lambda>_.
         db_bind (assertWithinSafeDepth cfg node prior (int h)) (\<lambda>_.
         unless_halted (delete_with_retry node branch h x))))) (\<lambda>_. ?I) ?I" for tip branch
    unfolding unless_halted_def[of "db_bind (requireReorgProof _ _ _ _) _"]
  proof (rule triple_bind[where R = "\<lambda>_. ready cfg node prior w0 h x"])
    show "triple (ready cfg node prior w0 h x) (get_run wk_haltError) (\<lambda>_. ready cfg node prior w0 h x) ?I"
      by (auto simp: triple_def get_run_def)
  qed (auto intro!: delete triple_return simp: ready_def)
  show "triple (ready cfg node prior w0 h x) (deleteAboveTipBlock cfg node prior h x t) (\<lambda>_. ?I) ?I"
    unfolding deleteAboveTipBlock_def by (rule triple_bind[OF ready guarded])
qed

text \<open>What the walk found when it stops without a halt.\<close>

definition reconciled :: "reorg_config \<Rightarrow> chain_node \<Rightarrow> nat \<Rightarrow> reorg_run \<Rightarrow> bool" where
  "reconciled cfg node a w \<longleftrightarrow>
     (\<forall>k \<in> set (stored_heights (db_tables (rw_db w))). int k < rc_start cfg)
     \<or> (\<exists>h x. top_block (db_tables (rw_db w)) h (Some x) \<and> answered node a (rw_tick w) (int h) x)"

definition step_post ::
    "reorg_config \<Rightarrow> chain_node \<Rightarrow> nat \<Rightarrow> reorg_run \<Rightarrow> bool \<Rightarrow> reorg_run \<Rightarrow> bool" where
  "step_post cfg node prior w0 goes_on w \<longleftrightarrow>
     run_inv cfg node prior w0 w \<and> (goes_on \<or> wk_haltError w \<noteq> None \<or> reconciled cfg node (rw_tick w0) w)"

lemma triple_compare:
  "triple (ready cfg node prior w0 h x) (compare_block cfg node prior h x tip)
     (step_post cfg node prior w0) (run_inv cfg node prior w0)"
proof -
  let ?I = "run_inv cfg node prior w0"
  have ask: "triple (ready cfg node prior w0 h x) (asking (\<lambda>k. cn_hash node k (int h)))
      (\<lambda>a w. ready cfg node prior w0 h x w \<and> (same_hash x a \<longrightarrow> reconciled cfg node (rw_tick w0) w)) ?I"
  proof (rule tripleI)
    fix w a w' assume w: "ready cfg node prior w0 h x w" and run: "asking (\<lambda>k. cn_hash node k (int h)) w = (Inr a, w')"
    then have "ready cfg node prior w0 h x w'" using ready_quiet quiet_ask by (fastforce simp: stays_def)
    moreover have "reconciled cfg node (rw_tick w0) w'" if same: "same_hash x a"
    proof -
      obtain y where y: "x = Some y" "a = HashText y" using same by (auto simp: same_hash_def split: option.splits hash_answer.splits)
      have "answered node (rw_tick w0) (rw_tick w') (int h) y"
        using run w y by (auto simp: answered_def asking_def ready_def run_inv_def)
      with \<open>ready cfg node prior w0 h x w'\<close> y show ?thesis by (auto simp: reconciled_def ready_def)
    qed
    ultimately show "ready cfg node prior w0 h x w' \<and> (same_hash x a \<longrightarrow> reconciled cfg node (rw_tick w0) w')" by blast
  qed (auto simp: asking_def)
  let ?R = "\<lambda>a w. ready cfg node prior w0 h x w \<and> (same_hash x a \<longrightarrow> reconciled cfg node (rw_tick w0) w)"
  have true: "triple P (db_bind m (\<lambda>_. db_return True)) (step_post cfg node prior w0) ?I"
    if "triple P m (\<lambda>_. ?I) ?I" for m :: "'a reorg" and P
    by (rule triple_bind[OF that]) (auto intro!: triple_return simp: step_post_def)
  have quiet_true: "triple (?R a) m (\<lambda>_. ?I) ?I" if "stays quiet m" for m :: "'a reorg" and a
    by (rule triple_weaken[OF triple_quiet[OF that]]) (simp_all add: ready_def)
  have refresh: "triple (?R a) (db_bind (refreshReorgTip cfg node tip) (\<lambda>tip.
      db_bind (set_run (\<lambda>w. w\<lparr>wk_nodeTip := tip\<rparr>)) (\<lambda>_. db_return True))) (step_post cfg node prior w0) ?I" for a
    unfolding db_bind_assoc [symmetric]
    by (rule true, rule quiet_true, intro quiet_shape quiet_refresh) simp
  have delete: "triple (?R a) (db_bind (deleteForkedBlock cfg node prior h x tip) (\<lambda>_. db_return True))
      (step_post cfg node prior w0) ?I" for a
    by (rule true, rule triple_weaken[OF triple_deletes(1)]) simp_all
  have same: "triple (?R a) (db_return False) (step_post cfg node prior w0) ?I" if "same_hash x a" for a
    by (rule triple_return) (use that in \<open>simp add: step_post_def ready_def\<close>)
  show ?thesis
    unfolding compare_block_def
    by (rule triple_bind[OF ask], intro triple_if refresh delete same, assumption)
qed

lemma last_block_exhausted:
  assumes "readLastStoredBlock w = (Inr (Some (i, None)), w')"
  shows "stored_heights (db_tables (rw_db w)) = []"
proof (rule ccontr)
  let ?t = "db_tables (rw_db w)"
  let ?m = "db_bind getLastBlockIndex (\<lambda>i. db_bind (read_block i) (\<lambda>b. db_return (i, b)))"
  assume ne: "stored_heights ?t \<noteq> []"
  then obtain k where k: "highest (stored_heights ?t) = int k" by (simp add: highest_def)
  have ro: "reads_only ?m" by (intro reads_bind reads_operations reads_return)
  from try_read[OF ro assms[unfolded readLastStoredBlock_def]]
  obtain s s1 where s: "getLastBlockIndex (rw_db w) = (Inr i, s1)" "read_block i s1 = (Inr None, s)"
    by (auto simp: db_bind_Inr_iff db_return_def)
  have "db_tables s1 = ?t" using reads_operations(1) s(1) by (auto simp: reads_only_def)
  moreover have "i = int k" using last_block_Inr[OF s(1)] k by simp
  ultimately have "find (\<lambda>r. b_index r = k) (l_blocks (tb_ledger ?t)) = None"
    using s(2) by (auto simp: read_block_def getBlockByIndex_def dest!: retry_read_Inr)
  then have "k \<notin> set (stored_heights ?t)" by (auto simp: find_None_iff stored_heights_def)
  then show False using k by (simp add: highest_eq)
qed

lemma triple_walk_step:
  "triple (run_inv cfg node prior w0) (walk_step cfg node prior) (step_post cfg node prior w0)
     (run_inv cfg node prior w0)"
proof -
  let ?I = "run_inv cfg node prior w0" and ?S = "step_post cfg node prior w0"
  have halted: "triple (halted_inv cfg node prior w0)
      (db_bind (finishHaltedWalk cfg node prior) (\<lambda>_. db_return False)) ?S ?I"
    by (rule triple_bind[OF triple_finish_halted])
      (auto intro!: triple_return simp: step_post_def halted_inv_def)
  have goal: "(case r of Inl _ \<Rightarrow> ?I w' | Inr b \<Rightarrow> ?S b w')" if w: "?I w" and run: "walk_step cfg node prior w = (r, w')" for w r w'
  proof (cases "wk_haltError w")
    case (Some e)
    then have "walk_step cfg node prior w = db_bind (finishHaltedWalk cfg node prior) (\<lambda>_. db_return False) w"
      by (simp add: walk_step_def db_bind_def[of "get_run _"] get_run_def)
    moreover have "halted_inv cfg node prior w0 w" using w Some by (simp add: halted_inv_def)
    ultimately show ?thesis using halted run unfolding triple_def by auto
  next
    case None
    obtain r1 w1 where rd: "readLastStoredBlock w = (r1, w1)" by fastforce
    note rb = read_last_block[OF rd]
    have q: "quiet w w1" using quiet_last rd by (auto simp: stays_def)
    then have w1: "?I w1" using run_inv_quiet w by blast
    have ready: "ready cfg node prior w0 (nat i) (bv_hash b) w1" if "r1 = Inr (Some (i, Some b))" for i b
    proof -
      have "top_block (db_tables (rw_db w)) (nat i) (bv_hash b)" using rb that by blast
      with w1 rb show ?thesis by (simp add: ready_def)
    qed
    consider "r1 = Inr None" | i where "r1 = Inr (Some (i, None))" | i b where "r1 = Inr (Some (i, Some b))"
      using rb by (cases r1) (auto, metis option.exhaust surj_pair)
    then show ?thesis
    proof cases
      case 1
      with run rd None w1 show ?thesis
        by (auto simp: walk_step_def db_bind_def get_run_def db_return_def step_post_def)
    next
      case (2 i)
      have "reconciled cfg node (rw_tick w0) w1" using last_block_exhausted[OF rd[unfolded 2]] rb by (simp add: reconciled_def)
      with 2 run rd None w1 show ?thesis
        by (auto simp: walk_step_def db_bind_def get_run_def db_return_def step_post_def)
    next
      case (3 i b)
      note rdy = ready[OF 3]
      have top: "highest (stored_heights (db_tables (rw_db w1))) = i" "0 \<le> i" using rb 3 by auto
      show ?thesis
      proof (cases "i < rc_start cfg")
        case True
        have "reconciled cfg node (rw_tick w0) w1"
          using top True highest_eq[of _ "nat i"] by (fastforce simp: reconciled_def)
        with 3 run rd None w1 True show ?thesis
          by (auto simp: walk_step_def db_bind_def get_run_def db_return_def step_post_def)
      next
        case False
        have cmp: "triple (ready cfg node prior w0 (nat i) (bv_hash b)) (compare_block cfg node prior (nat i) (bv_hash b) (wk_nodeTip w1)) ?S ?I"
          by (rule triple_compare)
        have del: "triple (ready cfg node prior w0 (nat i) (bv_hash b))
            (db_bind (deleteAboveTipBlock cfg node prior (nat i) (bv_hash b) t) (\<lambda>_. db_return True)) ?S ?I" for t
          by (rule triple_bind[OF triple_deletes(2)]) (auto intro!: triple_return simp: step_post_def)
        have tail: "walk_step cfg node prior w = (case wk_nodeTip w1 of
             Some t \<Rightarrow> if t < i then db_bind (deleteAboveTipBlock cfg node prior (nat i) (bv_hash b) t) (\<lambda>_. db_return True)
                 else compare_block cfg node prior (nat i) (bv_hash b) (wk_nodeTip w1)
           | None \<Rightarrow> compare_block cfg node prior (nat i) (bv_hash b) (wk_nodeTip w1)) w1"
          using 3 rd None False by (simp add: walk_step_def db_bind_def[of "get_run _"] db_bind_def[of readLastStoredBlock] get_run_def)
        have "triple (ready cfg node prior w0 (nat i) (bv_hash b)) (case wk_nodeTip w1 of
             Some t \<Rightarrow> if t < i then db_bind (deleteAboveTipBlock cfg node prior (nat i) (bv_hash b) t) (\<lambda>_. db_return True)
                 else compare_block cfg node prior (nat i) (bv_hash b) (wk_nodeTip w1)
           | None \<Rightarrow> compare_block cfg node prior (nat i) (bv_hash b) (wk_nodeTip w1)) ?S ?I"
          using cmp del by (cases "wk_nodeTip w1") simp_all
        with rdy run[unfolded tail] show ?thesis unfolding triple_def by blast
      qed
    qed
  qed
  then show ?thesis unfolding triple_def by blast
qed

section \<open>The whole run\<close>

lemma walkReorg_inv:
  assumes ret: "walkReorg cfg node prior w = Some (r, w')" and start: "run_inv cfg node prior w0 w"
  shows "run_inv cfg node prior w0 w'
    \<and> (\<forall>u. r = Inr u \<longrightarrow> wk_haltError w' \<noteq> None \<or> reconciled cfg node (rw_tick w0) w')"
proof -
  have "run_inv cfg node prior w0 w \<longrightarrow> run_inv cfg node prior w0 w'
      \<and> (\<forall>u. r = Inr u \<longrightarrow> wk_haltError w' \<noteq> None \<or> reconciled cfg node (rw_tick w0) w')"
  proof (rule walkReorg.raw_induct[where P = "\<lambda>cfg node prior w (r, w'). run_inv cfg node prior w0 w \<longrightarrow>
      run_inv cfg node prior w0 w' \<and> (\<forall>u. r = Inr u \<longrightarrow> wk_haltError w' \<noteq> None \<or> reconciled cfg node (rw_tick w0) w')",
      OF _ ret, unfolded prod.case])
    fix walk cfg node prior w res
    assume IH: "\<And>cfg node prior w x. walk cfg node prior w = Some x \<Longrightarrow> (case x of (r, w') \<Rightarrow>
        run_inv cfg node prior w0 w \<longrightarrow> run_inv cfg node prior w0 w'
        \<and> (\<forall>u. r = Inr u \<longrightarrow> wk_haltError w' \<noteq> None \<or> reconciled cfg node (rw_tick w0) w'))"
      and eq: "(case walk_step cfg node prior w of (Inl e, w') \<Rightarrow> Some (Inl e, w')
        | (Inr goes_on, w') \<Rightarrow> if goes_on then walk cfg node prior w' else Some (Inr (), w')) = Some res"
    show "case res of (r, w') \<Rightarrow> run_inv cfg node prior w0 w \<longrightarrow> run_inv cfg node prior w0 w'
        \<and> (\<forall>u. r = Inr u \<longrightarrow> wk_haltError w' \<noteq> None \<or> reconciled cfg node (rw_tick w0) w')"
    proof (cases "run_inv cfg node prior w0 w")
      case inv: True
      obtain r1 w1 where st: "walk_step cfg node prior w = (r1, w1)" by fastforce
      have post: "case r1 of Inl _ \<Rightarrow> run_inv cfg node prior w0 w1 | Inr b \<Rightarrow> step_post cfg node prior w0 b w1"
        using triple_walk_step inv st unfolding triple_def by blast
      show ?thesis
      proof (cases "r1 = Inr True")
        case True
        with post have "run_inv cfg node prior w0 w1" by (simp add: step_post_def)
        moreover have "walk cfg node prior w1 = Some res" using eq st True by simp
        ultimately show ?thesis using IH by (fastforce split: prod.splits)
      next
        case False
        with post eq st show ?thesis by (cases r1) (auto simp: step_post_def)
      qed
    qed (simp split: prod.split)
  qed
  with start show ?thesis by blast
qed

end
