(* ===== verification/Reorg_Termination.thy ===== *)
theory Reorg_Termination
  imports Reorg_Safety
begin

text \<open>
  The reorg walk returns.  A pass that goes on has deleted a block, used up one of the ten attempts at
  a delete, raised the halt, or lost at least one round trip to the database; only a node that keeps
  failing \<open>getblockhash\<close> at the stored tip can hold it, so the bound is for a node that answers there.
\<close>

section \<open>What does not touch the retry count\<close>

definition calm :: "reorg_run \<Rightarrow> reorg_run \<Rightarrow> bool" where
  "calm w w' \<longleftrightarrow> wk_retryCount w' = wk_retryCount w"

interpretation calm: step_relation calm
  by unfold_locales (simp_all add: calm_def)

lemma calm_ask: "stays calm (asking f)" and calm_get: "stays calm (get_run g)" and calm_try: "stays calm (try_db m)"
  by (auto simp: stays_def calm_def asking_def get_run_def try_db_def split: prod.splits sum.splits)

lemma calm_set: "(\<And>w. wk_retryCount (f w) = wk_retryCount w) \<Longrightarrow> stays calm (set_run f)"
  by (auto simp: stays_def calm_def set_run_def)

lemmas calm_shape = calm.stays_shape calm_ask calm_get calm_try calm_set

lemma calm_last: "stays calm readLastStoredBlock"
  unfolding readLastStoredBlock_def by (rule calm_try)

lemma calm_refresh: "stays calm (refreshReorgTip cfg node tip)"
proof -
  have tip: "stays calm (readReorgTip cfg node tip)" for tip
    unfolding readReorgTip_def verifyChainGenesis_def
    by (auto intro!: calm_shape split: info_answer.splits hash_answer.splits)
  have "stays calm (settle_reads n x (readReorgTip cfg node tip))" for n tip and x :: int
    by (induction n arbitrary: x) (auto intro!: calm_shape tip split: option.splits)
  then show ?thesis
    unfolding refreshReorgTip_def settleNodeReading_def
    by (auto intro!: calm_shape tip split: option.splits)
qed

lemma calm_raise: "stays calm (raiseSafeDepthHalt node msg)"
proof -
  have "stays calm (mark_attempts n node reason)" for n reason
    by (induction n) (auto intro!: calm_shape)
  then show ?thesis unfolding raiseSafeDepthHalt_def haltReorg_def by (auto intro!: calm_shape)
qed

lemma calm_require: "stays calm (requireReorgProof node h x tip)"
  unfolding requireReorgProof_def proveForkReorgedAway_def proveReorgedAway_def Let_def
  by (auto intro!: calm_shape split: option.splits)

lemma calm_gap: "stays calm (refuseOrHaltDeepGap cfg node prior h x tip)"
  unfolding refuseOrHaltDeepGap_def requireAboveTipForkProof_def Let_def
  by (auto intro!: calm_shape calm_require calm_raise split: option.splits hash_answer.splits)

lemma calm_assert: "stays calm (assertWithinSafeDepth cfg node prior h)"
  using calm_raise by (auto simp: assertWithinSafeDepth_def stays_def calm.reflexive split: if_splits)

section \<open>Calls only add up\<close>

definition later :: "reorg_run \<Rightarrow> reorg_run \<Rightarrow> bool" where
  "later w w' \<longleftrightarrow> rw_tick w \<le> rw_tick w'"

interpretation later: step_relation later
  by unfold_locales (simp_all add: later_def)

lemma later_quiet: "stays quiet m \<Longrightarrow> stays later m"
  by (auto simp: stays_def later_def quiet_def)

lemma later_delete: "stays later (unless_halted (delete_with_retry node branch h x))"
proof -
  have "stays later (try_db m)" for m :: "'b table_op"
    by (auto simp: stays_def later_def try_db_def split: prod.splits sum.splits)
  moreover have "stays later (set_run f)" if "\<And>w. rw_tick (f w) = rw_tick w" for f
    using that by (auto simp: stays_def later_def set_run_def)
  ultimately show ?thesis
    unfolding unless_halted_def delete_with_retry_def
    by (auto intro!: later.stays_shape later_quiet[OF quiet_get] later_quiet[OF quiet_haltReorg]
        simp: note_deleted_def split: option.splits)
qed

lemma later_deletes:
  "stays later (deleteForkedBlock cfg node prior h x tip)" "stays later (deleteAboveTipBlock cfg node prior h x t)"
proof -
  have checked: "stays later (db_bind (requireReorgProof node hh x tip) (\<lambda>_. db_bind (assertWithinSafeDepth cfg node prior hh)
      (\<lambda>_. unless_halted (delete_with_retry node branch h x))))" for hh tip branch
    by (intro later.stays_bind later_quiet[OF quiet_require] later_quiet[OF quiet_assert] later_delete)
  then show "stays later (deleteForkedBlock cfg node prior h x tip)" unfolding deleteForkedBlock_def .
  show "stays later (deleteAboveTipBlock cfg node prior h x t)"
    unfolding deleteAboveTipBlock_def unless_halted_def[of "db_bind (requireReorgProof _ _ _ _) _"]
    by (intro later.stays_bind later.stays_if later.stays_return later_quiet[OF quiet_gap] later_quiet[OF quiet_get] checked)
qed

section \<open>The measure\<close>

definition blocks_left :: "reorg_run \<Rightarrow> nat" where
  "blocks_left w = length (l_blocks (tb_ledger (db_tables (rw_db w))))"

definition work_left :: "reorg_run \<Rightarrow> nat" where
  "work_left w = length (db_fates (rw_db w)) + 11 * blocks_left w + (10 - wk_retryCount w)
     + (if wk_haltError w = None then 1 else 0)"

text \<open>At most as much work, and less if the halt was raised.\<close>

lemma quiet_work:
  assumes "quiet w w'" "calm w w'" "idle w" "wk_haltError w = None"
  shows "idle w'" "wk_haltError w' = None \<Longrightarrow> work_left w' \<le> work_left w" "wk_haltError w' \<noteq> None \<Longrightarrow> work_left w' < work_left w"
  using assms halts_only_parts(1)
  by (fastforce simp: quiet_def calm_def work_left_def blocks_left_def)+

lemma removed_shorter:
  assumes "top_block t h x"
  shows "length (l_blocks (tb_ledger (block_removed h y t))) < length (l_blocks (tb_ledger t))"
proof -
  obtain r where "r \<in> set (l_blocks (tb_ledger t))" "b_index r = h"
    using assms stored_hash_height[of t h x] by (auto simp: top_block_def stored_heights_def)
  then show ?thesis
    by (auto simp: block_removed_def append_event_def undo_block_parts Let_def intro: length_filter_less
        split: option.split)
qed

lemma delete_work:
  assumes idle: "idle w" and live: "wk_haltError w = None" and top: "top_block (db_tables (rw_db w)) h x"
    and run: "unless_halted (delete_with_retry node branch h x) w = (Inr u, w')"
  shows "work_left w' < work_left w"
proof -
  obtain r1 w1 where d: "try_db (deleteBlockByIndex h x) w = (r1, w1)" by fastforce
  have fates: "length (db_fates (rw_db w1)) \<le> length (db_fates (rw_db w))"
    using fewer_delete d by (auto simp: try_db_def stays_def fewer_def split: prod.splits sum.splits)
  from idle d show ?thesis
  proof (cases rule: delete_effect)
    case (gone s)
    with run live d have "w' = note_deleted h x (w\<lparr>rw_db := s, wk_retryCount := 0\<rparr>)"
      by (auto simp: unless_halted_def delete_with_retry_def db_bind_def get_run_def set_run_def)
    then show ?thesis
      using removed_shorter[OF top, of x] fates gone live
      by (simp add: work_left_def blocks_left_def note_deleted_def)
  next
    case (kept s)
    with run live d have "\<not> 10 \<le> wk_retryCount w + 1 \<and> w' = w1\<lparr>wk_retryCount := wk_retryCount w + 1\<rparr>"
      by (auto simp: unless_halted_def delete_with_retry_def db_bind_def get_run_def set_run_def db_return_def
          db_throw_def split: if_splits prod.splits sum.splits)
    then have "10 - wk_retryCount w' < 10 - wk_retryCount w" "rw_db w' = s" "wk_haltError w' = None"
      using kept live by auto
    with fates kept live show ?thesis unfolding work_left_def blocks_left_def by simp
  qed
qed

text \<open>The deleting branches, from the readings on.\<close>

lemma below_work:
  assumes quiet: "stays quiet m" and calm: "stays calm m"
    and w: "idle w" "wk_haltError w = None" "top_block (db_tables (rw_db w)) h x"
    and rest: "\<And>u v. m w = (Inr u, v) \<Longrightarrow> idle v \<Longrightarrow> top_block (db_tables (rw_db v)) h x \<Longrightarrow>
      wk_haltError v = None \<Longrightarrow> f u v = (Inr r, w') \<Longrightarrow> work_left w' < work_left v"
    and halted: "\<And>u v. wk_haltError v \<noteq> None \<Longrightarrow> f u v = (Inr r, w') \<Longrightarrow> work_left w' = work_left v"
    and run: "db_bind m f w = (Inr r, w')"
  shows "work_left w' < work_left w"
proof -
  obtain u v where m: "m w = (Inr u, v)" "f u v = (Inr r, w')" using run by (auto simp: db_bind_Inr_iff)
  have q: "quiet w v" "calm w v" using quiet calm m(1) by (auto simp: stays_def)
  note work = quiet_work[OF q w(1,2)]
  have t: "halts_only (db_tables (rw_db w)) (db_tables (rw_db v))" using q(1) w(1) by (simp add: quiet_def)
  have top: "top_block (db_tables (rw_db v)) h x" using w(3) top_block_halts[OF t] by simp
  show ?thesis
  proof (cases "wk_haltError v = None")
    case True
    with rest[OF m(1) work(1) top True m(2)] work(2) show ?thesis by simp
  next
    case False
    with work(3) halted[OF False m(2)] show ?thesis by simp
  qed
qed

lemma halted_skips:
  "wk_haltError v \<noteq> None \<Longrightarrow> unless_halted m v = (Inr u, v') \<Longrightarrow> v' = v"
  by (auto simp: unless_halted_def db_bind_def get_run_def db_return_def)

lemma assert_halted: "wk_haltError v \<noteq> None \<Longrightarrow> assertWithinSafeDepth cfg node prior h v = (Inr (), v)"
  by (auto simp: assertWithinSafeDepth_def)

lemma checked_delete_work:
  assumes w: "idle w" "wk_haltError w = None" "top_block (db_tables (rw_db w)) h x"
    and run: "db_bind (assertWithinSafeDepth cfg node prior hh) (\<lambda>_. unless_halted (delete_with_retry node branch h x)) w = (Inr u, w')"
  shows "work_left w' < work_left w"
proof (rule below_work[OF quiet_assert calm_assert w _ _ run])
  show "work_left w' = work_left v"
    if "wk_haltError v \<noteq> None" "unless_halted (delete_with_retry node branch h x) v = (Inr u, w')" for v
    using halted_skips[OF that] by simp
qed (rule delete_work)

lemma forked_delete_work:
  assumes w: "idle w" "wk_haltError w = None" "top_block (db_tables (rw_db w)) h x"
    and run: "db_bind (requireReorgProof node hh x tip) (\<lambda>_. db_bind (assertWithinSafeDepth cfg node prior hh)
       (\<lambda>_. unless_halted (delete_with_retry node branch h x))) w = (Inr u, w')"
  shows "work_left w' < work_left w"
proof (rule below_work[OF quiet_require calm_require w _ _ run])
  show "work_left w' = work_left v"
    if "wk_haltError v \<noteq> None" "db_bind (assertWithinSafeDepth cfg node prior hh)
       (\<lambda>_. unless_halted (delete_with_retry node branch h x)) v = (Inr u, w')" for v
    using that assert_halted[OF that(1), of cfg node prior hh]
    by (auto simp: db_bind_def dest!: halted_skips[OF that(1)])
qed (rule checked_delete_work)

lemma above_tip_delete_work:
  assumes w: "idle w" "wk_haltError w = None" "top_block (db_tables (rw_db w)) h x"
    and run: "deleteAboveTipBlock cfg node prior h x t w = (Inr u, w')"
  shows "work_left w' < work_left w"
proof (rule below_work[OF quiet_gap calm_gap w _ _ run[unfolded deleteAboveTipBlock_def]])
  fix v
  let ?m = "db_bind (requireReorgProof node (int h) x (Some t)) (\<lambda>_.
        db_bind (assertWithinSafeDepth cfg node prior (int h)) (\<lambda>_.
        unless_halted (delete_with_retry node (js ''above-tip'') h x)))"
  show "work_left w' = work_left v" if "wk_haltError v \<noteq> None" "unless_halted ?m v = (Inr u, w')"
    using halted_skips[OF that] by simp
  show "work_left w' < work_left v"
    if "idle v" "top_block (db_tables (rw_db v)) h x" "wk_haltError v = None" "unless_halted ?m v = (Inr u, w')"
  proof -
    have "?m v = (Inr u, w')" using that(3,4) by (simp add: unless_halted_def[of ?m] db_bind_def[of "get_run _"] get_run_def)
    then show ?thesis by (rule forked_delete_work[OF that(1,3,2)])
  qed
qed

section \<open>The walk returns\<close>

lemma spent_read:
  "retry_read (Suc n) q s = (Inl e, s') \<Longrightarrow> length (db_fates s') < length (db_fates s)"
proof (induction n arbitrary: s)
  case 0
  then show ?case
    by (auto simp: db_catch_def db_throw_def sql_query_def next_fate_def split: prod.splits sum.splits list.splits option.splits)
next
  case (Suc n)
  obtain r s1 where q: "sql_query q s = (r, s1)" by fastforce
  then have "length (db_fates s1) \<le> length (db_fates s)" using reads_query by (auto simp: reads_only_def)
  moreover have "retry_read (Suc n) q s1 = (Inl e, s')"
    using Suc.prems q unfolding retry_read.simps(2)[of "Suc n"]
    by (auto simp: db_catch_def simp del: retry_read.simps split: sum.splits)
  ultimately show ?case using Suc.IH by fastforce
qed

lemma spent_last_block:
  assumes "readLastStoredBlock w = (Inr None, w')"
  shows "length (db_fates (rw_db w')) < length (db_fates (rw_db w))"
proof -
  let ?m = "db_bind getLastBlockIndex (\<lambda>i. db_bind (read_block i) (\<lambda>b. db_return (i, b)))"
  obtain e s where run: "?m (rw_db w) = (Inl e, s)" "w' = w\<lparr>rw_db := s\<rparr>"
    using assms by (auto simp: readLastStoredBlock_def try_db_def split: prod.splits sum.splits)
  have five: "MAX_ATTEMPTS = Suc 4" by (simp add: MAX_ATTEMPTS_def)
  have first: "length (db_fates t) < length (db_fates (rw_db w))" if "getLastBlockIndex (rw_db w) = (Inl x, t)" for x t
    using that spent_read unfolding getLastBlockIndex_def five by blast
  have second: "length (db_fates t) < length (db_fates v)" if "read_block i v = (Inl x, t)" for i v x t
    using that unfolding read_block_def getBlockByIndex_def five by (cases "i < 0") (simp_all only: if_True if_False spent_read)
  have reads: "length (db_fates t) \<le> length (db_fates (rw_db w))" if "getLastBlockIndex (rw_db w) = (Inr x, t)" for x t
    using that reads_operations(1) by (auto simp: reads_only_def)
  from run(1) show ?thesis unfolding run(2)
    by (auto simp: db_bind_def db_return_def split: prod.splits sum.splits dest: first second reads)
      (meson less_le_trans reads second)
qed

text \<open>The node answers \<open>getblockhash\<close> from its call number \<open>K\<close> on.\<close>

definition answers_from :: "chain_node \<Rightarrow> nat \<Rightarrow> bool" where
  "answers_from node K \<longleftrightarrow> (\<forall>k h. K \<le> k \<longrightarrow> cn_hash node k h \<noteq> HashFailed)"

definition run_left :: "nat \<Rightarrow> reorg_run \<Rightarrow> nat" where
  "run_left K w = work_left w + (K - rw_tick w)"

lemma compare_work:
  assumes w: "idle w" "wk_haltError w = None" "top_block (db_tables (rw_db w)) h x"
    and node: "answers_from node K"
    and run: "compare_block cfg node prior h x tip w = (Inr True, w')"
  shows "run_left K w' < run_left K w"
proof -
  let ?v = "w\<lparr>rw_tick := Suc (rw_tick w)\<rparr>"
  have v: "idle ?v" "wk_haltError ?v = None" "top_block (db_tables (rw_db ?v)) h x" "work_left ?v = work_left w"
    using w by (simp_all add: idle_def work_left_def blocks_left_def)
  show ?thesis
  proof (cases "cn_hash node (rw_tick w) (int h) = HashFailed")
    case True
    with node have K: "rw_tick w < K" by (meson answers_from_def not_le)
    obtain t u where m: "refreshReorgTip cfg node tip ?v = (Inr t, u)" "w' = u\<lparr>wk_nodeTip := t\<rparr>"
      using run True by (auto simp: compare_block_def db_bind_def[of "asking _"] asking_def db_bind_Inr_iff set_run_def db_return_def)
    have q: "quiet ?v u" "calm ?v u" using quiet_refresh calm_refresh m(1) by (auto simp: stays_def)
    have "work_left u \<le> work_left ?v"
      using quiet_work(2)[OF q v(1,2)] quiet_work(3)[OF q v(1,2)] by (cases "wk_haltError u = None") auto
    moreover have "Suc (rw_tick w) \<le> rw_tick u" using q(1) by (simp add: quiet_def)
    moreover have "work_left w' = work_left u" "rw_tick w' = rw_tick u" by (simp_all add: m(2) work_left_def blocks_left_def)
    ultimately show ?thesis using K v(4) by (simp add: run_left_def)
  next
    case False
    then obtain u where d: "deleteForkedBlock cfg node prior h x tip ?v = (Inr u, w')"
      using run by (auto simp: compare_block_def db_bind_def[of "asking _"] asking_def db_bind_Inr_iff db_return_def split: if_splits)
    have "work_left w' < work_left ?v"
      using forked_delete_work[OF v(1-3)] d unfolding deleteForkedBlock_def by blast
    moreover have "rw_tick w \<le> rw_tick w'" using later_deletes(1) d by (fastforce simp: stays_def later_def)
    ultimately show ?thesis using v(4) by (simp add: run_left_def)
  qed
qed

lemma step_work:
  assumes inv: "run_inv cfg node prior w0 w" and node: "answers_from node K"
    and run: "walk_step cfg node prior w = (Inr True, w')"
  shows "run_left K w' < run_left K w"
proof -
  have idle: "idle w" using inv by (simp add: run_inv_def)
  have live: "wk_haltError w = None"
    using run by (auto simp: walk_step_def db_bind_def[of "get_run _"] get_run_def db_bind_def[of "finishHaltedWalk _ _ _"]
        db_return_def split: if_splits prod.splits sum.splits)
  obtain r1 w1 where rd: "readLastStoredBlock w = (r1, w1)" by fastforce
  note rb = read_last_block[OF rd]
  have q: "quiet w w1" "calm w w1"
    using quiet_last calm_last rd by (auto simp: stays_def)
  note work = quiet_work[OF q idle live]
  have w1: "wk_haltError w1 = None" "rw_tick w1 = rw_tick w"
    using rd live by (auto simp: readLastStoredBlock_def try_db_def split: prod.splits sum.splits)
  show ?thesis
  proof (cases "r1 = Inr None")
    case True
    have "length (db_fates (rw_db w1)) < length (db_fates (rw_db w))" "w' = w1"
      using spent_last_block rd True run live
      by (auto simp: walk_step_def db_bind_def get_run_def db_return_def)
    moreover have "blocks_left w1 = blocks_left w" using rb by (simp add: blocks_left_def)
    ultimately show ?thesis using q(2) live w1 by (simp add: run_left_def work_left_def calm_def)
  next
    case False
    then obtain i b where r1: "r1 = Inr (Some (i, Some b))"
      and tail: "(case wk_nodeTip w1 of
          Some t \<Rightarrow> if t < i then db_bind (deleteAboveTipBlock cfg node prior (nat i) (bv_hash b) t) (\<lambda>_. db_return True)
              else compare_block cfg node prior (nat i) (bv_hash b) (wk_nodeTip w1)
        | None \<Rightarrow> compare_block cfg node prior (nat i) (bv_hash b) (wk_nodeTip w1)) w1 = (Inr True, w')"
      using run rd live rb
      by (auto simp: walk_step_def db_bind_def[of "get_run _"] db_bind_def[of readLastStoredBlock] get_run_def
          db_return_def split: sum.splits option.splits prod.splits if_splits)
    have top: "top_block (db_tables (rw_db w1)) (nat i) (bv_hash b)" using rb r1 by auto
    have above: "run_left K w' < run_left K w1"
      if run: "db_bind (deleteAboveTipBlock cfg node prior (nat i) (bv_hash b) t) (\<lambda>_. db_return True) w1 = (Inr True, w')" for t
    proof -
      obtain u where "deleteAboveTipBlock cfg node prior (nat i) (bv_hash b) t w1 = (Inr u, w')"
        using run by (auto simp: db_bind_Inr_iff db_return_def)
      moreover from this have "rw_tick w1 \<le> rw_tick w'" using later_deletes(2) by (fastforce simp: stays_def later_def)
      ultimately show ?thesis using above_tip_delete_work[OF work(1) w1(1) top] by (fastforce simp: run_left_def)
    qed
    have "run_left K w' < run_left K w1"
      using tail compare_work[OF work(1) w1(1) top node] above by (auto split: option.splits if_splits)
    with work(2)[OF w1(1)] w1(2) show ?thesis by (simp add: run_left_def)
  qed
qed

lemma walkReorg_returns:
  assumes "run_inv cfg node prior w0 w" and node: "answers_from node K"
  shows "\<exists>res. walkReorg cfg node prior w = Some res"
  using assms(1)
proof (induction "run_left K w" arbitrary: w rule: less_induct)
  case less
  obtain r w1 where st: "walk_step cfg node prior w = (r, w1)" by fastforce
  show ?case
  proof (cases "r = Inr True")
    case True
    have "step_post cfg node prior w0 True w1"
      using triple_walk_step less.prems st True unfolding triple_def by fastforce
    then have "run_inv cfg node prior w0 w1" by (simp add: step_post_def)
    moreover have "run_left K w1 < run_left K w" using step_work[OF less.prems node] st True by simp
    ultimately have "\<exists>res. walkReorg cfg node prior w1 = Some res" using less.hyps by blast
    with st True show ?thesis by (subst walkReorg.simps) simp
  next
    case False
    with st show ?thesis by (subst walkReorg.simps) (cases r; auto)
  qed
qed

end
