(* ===== verification/Reorg_Result.thy ===== *)
theory Reorg_Result
  imports Reorg_Termination
begin

text \<open>
  A whole run of \<open>verifyReorg\<close>: what its entry reads and refuses, the invariant at its end, the count
  of rolled-back blocks over runs, and the ledger it leaves as one the chain of blocks went through.
\<close>

section \<open>The entry\<close>

definition prior_depth :: "tables \<Rightarrow> nat option" where
  "prior_depth t = map_option length (heights_above (highest (stored_heights t)) (marker_rows (tb_events t)))"

lemma count_Inr:
  assumes "countReorgDeletesAboveTip s = (Inr n, s')"
  shows "prior_depth (db_tables s) = Some n"
proof -
  obtain tip s1 rows s2 where a: "getLastBlockIndex s = (Inr tip, s1)"
      "sql_query (\<lambda>t. marker_rows (tb_events t)) s1 = (Inr rows, s2)"
      "(case heights_above tip rows of None \<Rightarrow> db_throw (0 :: errno) | Some hs \<Rightarrow> db_return (length hs)) s2 = (Inr n, s')"
    using assms unfolding countReorgDeletesAboveTip_def db_bind_Inr_iff by blast
  have "db_tables s1 = db_tables s" using reads_operations(1) a(1) by (auto simp: reads_only_def)
  then have "rows = marker_rows (tb_events (db_tables s))" using sql_query_Inr[OF a(2)] by simp
  with a(3) last_block_Inr[OF a(1)] show ?thesis
    by (auto simp: prior_depth_def db_return_def db_throw_def split: option.splits)
qed

definition still :: "reorg_run \<Rightarrow> reorg_run \<Rightarrow> bool" where
  "still w w' \<longleftrightarrow> quiet w w' \<and> db_tables (rw_db w') = db_tables (rw_db w) \<and> wk_haltError w' = wk_haltError w"

interpretation still: step_relation still
  by unfold_locales (auto simp: still_def quiet.reflexive intro: quiet.transitive)

lemma still_ask: "stays still (asking f)"
  using quiet_ask[of f] by (auto simp: stays_def still_def asking_def)

lemma still_read:
  assumes "reads_only m"
  shows "stays still (try_db m)"
  unfolding stays_def
proof (intro allI impI)
  fix w r w' assume run: "try_db m w = (r, w')"
  have "wk_haltError w' = wk_haltError w" using run by (auto simp: try_db_def split: prod.splits sum.splits)
  with try_read[OF assms run] quiet_read[OF assms] run show "still w w'" by (simp add: still_def stays_def)
qed

lemma still_prior: "stays still (readPriorRollbackDepth n)"
  by (induction n) (auto intro!: still.stays_shape still_read reads_operations split: option.splits)

lemma prior_Inr: "readPriorRollbackDepth n w = (Inr d, w') \<Longrightarrow> prior_depth (db_tables (rw_db w)) = Some d"
proof (induction n arbitrary: w)
  case (Suc n)
  obtain r w1 where c: "try_db countReorgDeletesAboveTip w = (r, w1)" by fastforce
  note t = try_read[OF reads_operations(5) c]
  from Suc.prems c t consider "r = Inr (Some d)" | "r = Inr None" "readPriorRollbackDepth n w1 = (Inr d, w')"
    by (cases r) (auto simp: db_bind_def db_return_def split: option.splits)
  then show ?case
  proof cases
    case 1 with t count_Inr show ?thesis by blast
  next
    case 2 with Suc.IH[OF 2(2)] t show ?thesis by simp
  qed
qed (simp add: db_throw_def)

lemma still_refuse: "stays still (refuseHaltedRollback node)"
proof -
  have "stays still (set_run (\<lambda>w. w\<lparr>rw_reorgHalted := True, rw_reorgHaltCheckedAt := now\<rparr>))" for now
    using quiet_set[of "\<lambda>w. w\<lparr>rw_reorgHalted := True, rw_reorgHaltCheckedAt := now\<rparr>"]
    by (auto simp: stays_def still_def set_run_def)
  then show ?thesis unfolding refuseHaltedRollback_def by (auto intro!: still.stays_shape still_ask)
qed

lemma refuse_throws: "\<exists>w'. refuseHaltedRollback node w = (Inl HaltedRefusal, w')"
  by (simp add: refuseHaltedRollback_def db_bind_def asking_def set_run_def db_throw_def)

lemma entry_result:
  assumes run: "reorg_entry node w = (r, w')"
  shows "still w w'"
    "\<And>d. r = Inr d \<Longrightarrow> \<not> halted_rows w \<and> prior_depth (db_tables (rw_db w)) = Some d"
    "halted_rows w \<Longrightarrow> \<exists>e. r = Inl e \<and> (e = HaltedRefusal \<or> (\<exists>n. e = HaltUnread n))"
proof -
  let ?read = "\<lambda>w. case isReorgHalted (rw_db w) of
      (Inl e, s) \<Rightarrow> (Inl (HaltUnread e), w\<lparr>rw_db := s\<rparr>) | (Inr h, s) \<Rightarrow> (Inr h, w\<lparr>rw_db := s\<rparr>)"
  obtain r1 s1 where i: "isReorgHalted (rw_db w) = (r1, s1)" by fastforce
  have "still w (w\<lparr>rw_db := s1\<rparr>)"
    using reads_operations(4) i
    by (auto simp: reads_only_def still_def quiet_def cache_unproven_def idle_def halts_only_refl)
  note st = this
  have all: "still w w' \<and> (\<forall>d. r = Inr d \<longrightarrow> \<not> halted_rows w \<and> prior_depth (db_tables (rw_db w)) = Some d)
      \<and> (halted_rows w \<longrightarrow> (\<exists>e. r = Inl e \<and> (e = HaltedRefusal \<or> (\<exists>n. e = HaltUnread n))))"
  proof (cases r1)
    case (Inl e)
    with run i st show ?thesis by (auto simp: reorg_entry_def db_bind_def)
  next
    case (Inr h)
    then have h: "h = halted_rows w" using isReorgHalted_Inr[of "rw_db w" h s1] i by (simp add: halted_rows_def)
    have same: "db_tables s1 = db_tables (rw_db w)" using isReorgHalted_Inr[of "rw_db w" h s1] i Inr by simp
    show ?thesis
    proof (cases h)
      case True
      obtain w2 where r2: "refuseHaltedRollback node (w\<lparr>rw_db := s1\<rparr>) = (Inl HaltedRefusal, w2)"
        using refuse_throws by blast
      have "still w w2" using still_refuse r2 by (intro still.transitive[OF st]) (auto simp: stays_def)
      with run i Inr True h r2 show ?thesis by (auto simp: reorg_entry_def db_bind_def)
    next
      case False
      then have p: "readPriorRollbackDepth 3 (w\<lparr>rw_db := s1\<rparr>) = (r, w')"
        using run i Inr by (simp add: reorg_entry_def db_bind_def db_return_def del: readPriorRollbackDepth.simps)
      have "still w w'" using still_prior p by (intro still.transitive[OF st]) (auto simp: stays_def)
      with False h prior_Inr[of 3 "w\<lparr>rw_db := s1\<rparr>" _ w'] p same show ?thesis by auto
    qed
  qed
  show "still w w'" using all by blast
  show "\<And>d. r = Inr d \<Longrightarrow> \<not> halted_rows w \<and> prior_depth (db_tables (rw_db w)) = Some d" using all by blast
  show "halted_rows w \<Longrightarrow> \<exists>e. r = Inl e \<and> (e = HaltedRefusal \<or> (\<exists>n. e = HaltUnread n))" using all by blast
qed

section \<open>The run\<close>

text \<open>The walk's variables as a run begins.\<close>

definition begun :: "int option \<Rightarrow> reorg_run \<Rightarrow> reorg_run" where
  "begun tip w = w\<lparr>wk_nodeTip := tip, wk_retryCount := 0, wk_deleted := [], wk_haltError := None, wk_haltStop := None\<rparr>"

lemma begun_parts [simp]:
  "rw_db (begun tip w) = rw_db w" "rw_tick (begun tip w) = rw_tick w" "wk_deleted (begun tip w) = []"
  "wk_haltError (begun tip w) = None" "idle (begun tip w) = idle w" "cache_unproven (begun tip w) = cache_unproven w"
  "halted_rows (begun tip w) = halted_rows w"
  by (simp_all add: begun_def idle_def cache_unproven_def halted_rows_def)

lemma run_inv_begun [simp]: "run_inv cfg node prior (begun tip w0) w = run_inv cfg node prior w0 w"
  by (simp add: run_inv_def)

lemma run_inv_start: "idle w \<Longrightarrow> cache_unproven w \<Longrightarrow> run_inv cfg node prior w (begun tip w)"
  by (simp add: run_inv_def walked_start)

lemma verifyReorg_begun:
  "verifyReorg cfg node tip w =
     (case reorg_entry node (begun tip w) of
        (Inl e, w') \<Rightarrow> Some (Inl e, w')
      | (Inr prior, w') \<Rightarrow>
          (case walkReorg cfg node prior w' of
             None \<Rightarrow> None
           | Some (Inl e, w'') \<Rightarrow> Some (Inl e, w'')
           | Some (Inr _, w'') \<Rightarrow> Some (db_bind finishReorgRun (\<lambda>_. db_return True) w'')))"
  unfolding verifyReorg_def begun_def Let_def by (rule HOL.refl)

lemma finish_keeps:
  assumes "db_bind finishReorgRun (\<lambda>_. db_return True) w = (r, w')"
  shows "run_inv cfg node prior w0 w' = run_inv cfg node prior w0 w" "wk_haltError w' = wk_haltError w"
    "rw_db w' = rw_db w" "rw_tick w' = rw_tick w" "wk_deleted w' = wk_deleted w"
    "\<And>b. r = Inr b \<Longrightarrow> b \<and> wk_haltError w = None"
proof -
  have w': "w' = w \<or> w' = w\<lparr>rw_reorgCount := rw_reorgCount w + 1, rw_lastReorgDepth := Some (length (wk_deleted w))\<rparr>"
    using assms by (auto simp: db_bind_def finishReorgRun_def db_return_def split: option.splits if_splits)
  then show "run_inv cfg node prior w0 w' = run_inv cfg node prior w0 w" "wk_haltError w' = wk_haltError w"
    "rw_db w' = rw_db w" "rw_tick w' = rw_tick w" "wk_deleted w' = wk_deleted w"
    by (elim disjE; simp add: run_inv_def idle_def cache_unproven_def halted_rows_def)+
  show "\<And>b. r = Inr b \<Longrightarrow> b \<and> wk_haltError w = None"
    using assms by (auto simp: db_bind_def finishReorgRun_def db_return_def split: option.splits if_splits)
qed

lemma verifyReorg_run:
  assumes run: "verifyReorg cfg node tip w0 = Some (r, w')" and start: "idle w0" "cache_unproven w0"
  shows "\<exists>prior. run_inv cfg node prior w0 w'
    \<and> (prior_depth (db_tables (rw_db w0)) = Some prior \<and> \<not> halted_rows w0
       \<or> (\<exists>e. r = Inl e) \<and> wk_deleted w' = [] \<and> db_tables (rw_db w') = db_tables (rw_db w0) \<and> wk_haltError w' = None)
    \<and> (\<forall>b. r = Inr b \<longrightarrow> b \<and> wk_haltError w' = None \<and> reconciled cfg node (rw_tick w0) w')"
proof -
  obtain r1 w1 where e: "reorg_entry node (begun tip w0) = (r1, w1)" by fastforce
  note er = entry_result[OF e]
  have inv: "run_inv cfg node prior w0 w1" for prior
    by (rule run_inv_quiet[OF run_inv_start[OF start, of cfg node prior tip]]) (use er(1) in \<open>simp add: still_def\<close>)
  show ?thesis
  proof (cases r1)
    case (Inl err)
    with run e have "r = Inl err" "w' = w1" by (simp_all add: verifyReorg_begun)
    moreover have "wk_deleted w1 = []" "db_tables (rw_db w1) = db_tables (rw_db w0)" "wk_haltError w1 = None"
      using er(1) by (simp_all add: still_def quiet_def)
    ultimately show ?thesis using inv by auto
  next
    case (Inr prior)
    have prior: "prior_depth (db_tables (rw_db w0)) = Some prior" "\<not> halted_rows w0" using er(2)[OF Inr] by simp_all
    obtain r2 w2 where wk: "walkReorg cfg node prior w1 = Some (r2, w2)"
      using run e Inr by (auto simp: verifyReorg_begun split: option.splits)
    note wi = walkReorg_inv[OF wk inv]
    have tick: "rw_tick w0 \<le> rw_tick w1" using er(1) by (simp add: still_def quiet_def)
    show ?thesis
    proof (cases r2)
      case (Inl err)
      with run e Inr wk have "r = Inl err" "w' = w2" by (simp_all add: verifyReorg_begun)
      with wi prior show ?thesis by auto
    next
      case (Inr u)
      then have fin: "db_bind finishReorgRun (\<lambda>_. db_return True) w2 = (r, w')"
        using run e \<open>r1 = Inr prior\<close> wk by (simp add: verifyReorg_begun)
      note f = finish_keeps[OF fin]
      have "reconciled cfg node (rw_tick w0) w'" if "wk_haltError w2 = None"
        using wi Inr that f(3,4) by (auto simp: reconciled_def)
      with f wi prior show ?thesis by (intro exI[of _ prior]) auto
    qed
  qed
qed

section \<open>The depth over runs\<close>

text \<open>
  Blocks at consecutive heights from \<open>a\<close> on, no marker below them, and heights and hashes whose
  markers read back.
\<close>

definition solid :: "nat \<Rightarrow> tables \<Rightarrow> bool" where
  "solid a t \<longleftrightarrow>
     (\<exists>b \<le> 2 ^ 53. set (stored_heights t) = {a..<b})
     \<and> well_marked (tb_events t) \<and> (\<forall>m \<in> marked (tb_events t). a \<le> m)
     \<and> (\<forall>h x. stored_hash t h = Some (Some x) \<longrightarrow> plain_text x)"

definition depth :: "tables \<Rightarrow> nat" where
  "depth t = card (rolled_back (highest (stored_heights t)) (tb_events t))"

lemma finite_marked: "finite (marked evs)"
proof (rule finite_subset)
  show "marked evs \<subseteq> (\<lambda>r. nat \<lfloor>the_elem (set (the (marker_heights r)))\<rfloor>) ` set evs"
    by (auto simp: marked_def image_iff) (metis floor_of_nat list.simps(15) nat_int option.sel set_empty the_elem_eq empty_set)
qed simp

lemma marked_append: "marked (evs @ evs') = marked evs \<union> marked evs'"
  by (auto simp: marked_def)

lemma marked_halts: "\<forall>e \<in> set evs. ev_code e = js ''REORG_HALT'' \<Longrightarrow> marked evs = {} \<and> well_marked evs"
  by (auto simp: marked_def well_marked_def)

lemma well_marked_append: "well_marked (evs @ evs') \<longleftrightarrow> well_marked evs \<and> well_marked evs'"
  by (auto simp: well_marked_def)

lemma reorg_event_marked:
  assumes "plain_text x" "h < 2 ^ 53"
  shows "marked [reorg_event h x] = {h}" "well_marked [reorg_event h x]"
  using assms reorg_event_height[OF assms] by (auto simp: marked_def well_marked_def reorg_event_def)

lemma solid_halts:
  assumes "halts_only t t'"
  shows "solid a t' = solid a t" "depth t' = depth t" "rolled_back tip (tb_events t') = rolled_back tip (tb_events t)"
proof -
  obtain evs where t': "t' = t\<lparr>tb_events := tb_events t @ evs\<rparr>" "\<forall>e \<in> set evs. ev_code e = js ''REORG_HALT''"
    using assms by (auto simp: halts_only_def)
  show "solid a t' = solid a t" "depth t' = depth t" "rolled_back tip (tb_events t') = rolled_back tip (tb_events t)"
    using marked_halts[OF t'(2)] t'(1)
    by (simp_all add: solid_def depth_def rolled_back_def marked_append well_marked_append stored_heights_def stored_hash_def)
qed

lemma removed_events:
  assumes "case x of None \<Rightarrow> True | Some s \<Rightarrow> plain_text s" "h < 2 ^ 53"
  shows "marked (tb_events (block_removed h x t)) \<subseteq> insert h (marked (tb_events t))"
    "well_marked (tb_events t) \<Longrightarrow> well_marked (tb_events (block_removed h x t))"
  using assms reorg_event_marked
  by (auto simp: block_removed_def append_event_def Let_def marked_append well_marked_append split: option.splits)

lemma solid_removed:
  assumes solid: "solid a t" and top: "top_block t h x"
  shows "solid a (block_removed h x t)"
    "rolled_back (highest (stored_heights (block_removed h x t))) (tb_events (block_removed h x t))
       \<subseteq> insert h (rolled_back (highest (stored_heights t)) (tb_events t))"
proof -
  let ?t = "block_removed h x t"
  obtain b where b: "set (stored_heights t) = {a..<b}" "b \<le> 2 ^ 53" using solid by (auto simp: solid_def)
  have "h \<in> {a..<b}" "\<forall>n \<in> {a..<b}. n \<le> h" using top b(1) by (auto simp: top_block_def highest_eq)
  then have h: "b = Suc h" "a \<le> h" by (auto, metis atLeastLessThan_iff le_antisym less_Suc_eq_le Suc_le_eq nat_less_le not_less le_SucI)
  have small: "h < 2 ^ 53" using h b(2) by simp
  have plain: "case x of None \<Rightarrow> True | Some s \<Rightarrow> plain_text s"
    using solid top by (auto simp: solid_def top_block_def split: option.split)
  note ev = removed_events[OF plain small, of t]
  have heights: "set (stored_heights ?t) = {a..<h}" using b(1) h by (auto simp: stored_heights_removed)
  have hashes: "plain_text s" if "stored_hash ?t k = Some (Some s)" for k s
  proof -
    have "k \<noteq> h" using stored_hash_height[OF that] heights by auto
    with that solid show ?thesis by (auto simp: stored_hash_removed solid_def)
  qed
  show "solid a ?t"
    unfolding solid_def using heights small ev solid h(2) hashes by (auto simp: solid_def intro!: exI[of _ h])
  show "rolled_back (highest (stored_heights ?t)) (tb_events ?t)
      \<subseteq> insert h (rolled_back (highest (stored_heights t)) (tb_events t))"
  proof
    fix m assume m: "m \<in> rolled_back (highest (stored_heights ?t)) (tb_events ?t)"
    then have low: "a \<le> m" "highest (stored_heights ?t) < int m" using \<open>solid a ?t\<close> by (auto simp: rolled_back_def solid_def)
    have "h \<le> m"
    proof (cases "a = h")
      case False
      then have "highest (stored_heights ?t) = int (h - 1)" unfolding highest_eq heights using h(2) by auto
      with low show ?thesis by simp
    qed (use low in simp)
    with m ev(1) top show "m \<in> insert h (rolled_back (highest (stored_heights t)) (tb_events t))"
      by (auto simp: rolled_back_def top_block_def)
  qed
qed

lemma walked_depth:
  assumes "walked t ds t'" "solid a t"
  shows "solid a t' \<and> rolled_back (highest (stored_heights t')) (tb_events t')
    \<subseteq> set (map fst ds) \<union> rolled_back (highest (stored_heights t)) (tb_events t)"
  using assms
proof (induction rule: walked.induct)
  case (walked_delete t ds t' h x)
  with solid_removed[of a t' h x] show ?case by auto
next
  case (walked_halt t ds t' t'')
  have "stored_heights t'' = stored_heights t'" using walked_halt.hyps(2) by (simp add: stored_heights_def halts_only_parts)
  with walked_halt solid_halts[OF walked_halt.hyps(2)] show ?case by simp
qed simp

lemma depth_walked:
  assumes "walked t ds t'" "solid a t"
  shows "depth t' \<le> length ds + depth t"
proof -
  let ?old = "rolled_back (highest (stored_heights t)) (tb_events t)"
  have "finite ?old" using finite_marked by (simp add: rolled_back_def)
  then have "depth t' \<le> card (set (map fst ds) \<union> ?old)"
    using walked_depth[OF assms] by (auto simp: depth_def intro!: card_mono)
  also have "\<dots> \<le> card (set (map fst ds)) + card ?old" by (rule card_Un_le)
  also have "\<dots> \<le> length ds + depth t" using card_length[of "map fst ds"] by (simp add: depth_def)
  finally show ?thesis .
qed

definition few_markers :: "tables \<Rightarrow> bool" where
  "few_markers t \<longleftrightarrow> length (filter (\<lambda>r. ev_code r = js ''REORG'') (tb_events t)) \<le> SCAN_LIMIT"

lemma prior_is_depth: "solid a t \<Longrightarrow> few_markers t \<Longrightarrow> prior_depth t = Some (depth t)"
  using count_is_depth[of "tb_events t" "highest (stored_heights t)"]
  by (auto simp: solid_def few_markers_def prior_depth_def depth_def)

lemma depth_bounded:
  assumes run: "verifyReorg cfg node tip w0 = Some (r, w')" and start: "idle w0" "cache_unproven w0"
    and t: "solid a (db_tables (rw_db w0))" "few_markers (db_tables (rw_db w0))"
  shows "solid a (db_tables (rw_db w'))"
    "depth (db_tables (rw_db w0)) \<le> 2 * safeDepthFor cfg \<Longrightarrow> depth (db_tables (rw_db w')) \<le> 2 * safeDepthFor cfg"
    "wk_haltError w' = None \<Longrightarrow> depth (db_tables (rw_db w0)) \<le> safeDepthFor cfg
       \<Longrightarrow> depth (db_tables (rw_db w')) \<le> safeDepthFor cfg"
proof -
  obtain prior where inv: "run_inv cfg node prior w0 w'"
    and p: "prior_depth (db_tables (rw_db w0)) = Some prior \<or> wk_deleted w' = []"
    using verifyReorg_run[OF run start] by blast
  have walked: "walked (db_tables (rw_db w0)) (wk_deleted w') (db_tables (rw_db w'))" using inv by (simp add: run_inv_def)
  show "solid a (db_tables (rw_db w'))" using walked_depth[OF walked t(1)] by blast
  note d = depth_walked[OF walked t(1)]
  show "depth (db_tables (rw_db w0)) \<le> 2 * safeDepthFor cfg \<Longrightarrow> depth (db_tables (rw_db w')) \<le> 2 * safeDepthFor cfg"
    "wk_haltError w' = None \<Longrightarrow> depth (db_tables (rw_db w0)) \<le> safeDepthFor cfg
       \<Longrightarrow> depth (db_tables (rw_db w')) \<le> safeDepthFor cfg"
    using d p prior_is_depth[OF t] inv by (auto simp: run_inv_def)
qed

section \<open>The ledger a run leaves\<close>

lemma chain_snoc:
  "block_chain step h (Suc n) s s'' \<longleftrightarrow> (\<exists>s'. block_chain step h n s s' \<and> (step (h + n))\<^sup>*\<^sup>* s' s'')"
proof (induction n arbitrary: h s)
  case (Suc n)
  have "block_chain step h (Suc (Suc n)) s s'' = (\<exists>m. (step h)\<^sup>*\<^sup>* s m \<and> block_chain step (Suc h) (Suc n) m s'')"
    by (rule block_chain.simps(2))
  then show ?case unfolding Suc.IH by auto
qed auto

lemma chain_sound: "sound_below h s \<Longrightarrow> block_chain ledger_step h n s s' \<Longrightarrow> sound_below (h + n) s'"
proof (induction n arbitrary: h s)
  case (Suc n)
  then obtain m where m: "(ledger_step h)\<^sup>*\<^sup>* s m" "block_chain ledger_step (Suc h) n m s'" by auto
  have "sound_below (Suc h) m" using ledger_log.steps_undo[OF m(1) sound_below_Suc[OF Suc.prems(1)]] by simp
  from Suc.IH[OF this m(2)] show ?case by simp
qed simp

lemma walked_rewinds:
  assumes "walked t ds t'" and base: "sound_below a base" "block_chain ledger_step a n base (tb_ledger t)"
    and held: "{a..<a + n} \<subseteq> set (stored_heights t)" and "length ds \<le> n"
  shows "block_chain ledger_step a (n - length ds) base (tb_ledger t')
    \<and> block_chain ledger_step (a + (n - length ds)) (length ds) (tb_ledger t') (tb_ledger t)
    \<and> {a..<a + (n - length ds)} \<subseteq> set (stored_heights t')"
  using assms
proof (induction rule: walked.induct)
  case (walked_delete t ds t' h x)
  define i where "i = n - Suc (length ds)"
  have i: "n - length ds = Suc i" using walked_delete.prems(4) by (simp add: i_def)
  have IH: "block_chain ledger_step a (Suc i) base (tb_ledger t')"
      "block_chain ledger_step (a + Suc i) (length ds) (tb_ledger t') (tb_ledger t)"
      "{a..<a + Suc i} \<subseteq> set (stored_heights t')"
    using walked_delete.IH walked_delete.prems i by auto
  obtain m where m: "block_chain ledger_step a i base m" "(ledger_step (a + i))\<^sup>*\<^sup>* m (tb_ledger t')"
    using iffD1[OF chain_snoc IH(1)] by blast
  have low: "sound_below (a + Suc i) (tb_ledger t')" by (rule chain_sound[OF walked_delete.prems(1) IH(1)])
  have "\<forall>k \<in> set (stored_heights t'). k < a + Suc i"
    using low by (auto simp: sound_below_def below_height_def stored_heights_def)
  moreover have "a + i \<in> set (stored_heights t')" using IH(3) by auto
  moreover have "h \<in> set (stored_heights t')" "\<forall>k \<in> set (stored_heights t'). k \<le> h"
    using walked_delete.hyps(2) by (simp_all add: top_block_def highest_eq)
  ultimately have h: "h = a + i" by (metis add_Suc_right le_antisym less_Suc_eq_le)
  have gone: "tb_ledger (block_removed h x t') = m"
    using ledger_log.block_undone[OF chain_sound[OF walked_delete.prems(1) m(1)] m(2)]
    by (simp add: h block_removed_def append_event_def Let_def split: option.split)
  have "{a..<a + i} \<subseteq> set (stored_heights (block_removed h x t'))"
    using IH(3) h by (auto simp: stored_heights_removed)
  moreover have "block_chain ledger_step (a + i) (Suc (length ds)) m (tb_ledger t)" using m(2) IH(2) by auto
  ultimately show ?case using gone m(1) by (simp add: i_def)
next
  case (walked_halt t ds t' t'')
  then show ?case by (simp add: stored_heights_def halts_only_parts)
qed simp

section \<open>What a run takes away\<close>

lemma walked_missing:
  assumes "walked t ds t'"
  shows "(\<forall>k \<in> set (stored_heights t'). k \<in> set (stored_heights t) \<and> stored_hash t' k = stored_hash t k)
    \<and> (\<forall>k \<in> set (stored_heights t). k \<notin> set (stored_heights t') \<longrightarrow> (\<exists>x. (k, x) \<in> set ds \<and> stored_hash t k = Some x))"
  using assms
proof (induction rule: walked.induct)
  case (walked_delete t ds t' h x)
  have h: "stored_hash t' h = Some x" "h \<in> set (stored_heights t')"
    using walked_delete.hyps(2) by (auto simp: top_block_def highest_eq)
  show ?case
    using walked_delete.IH h by (fastforce simp: stored_heights_removed stored_hash_removed)
next
  case (walked_halt t ds t' t'')
  have "stored_heights t'' = stored_heights t'" "stored_hash t'' = stored_hash t'"
    using walked_halt.hyps(2) by (auto simp: stored_heights_def stored_hash_def halts_only_parts)
  with walked_halt.IH show ?case by simp
qed auto

lemma missing_confirmed:
  assumes "run_inv cfg node prior w0 w" "k \<in> set (stored_heights (db_tables (rw_db w0)))"
    and "k \<notin> set (stored_heights (db_tables (rw_db w)))"
  shows "\<exists>x. stored_hash (db_tables (rw_db w0)) k = Some x \<and> confirmed node (rw_tick w0) (rw_tick w) x"
  using walked_missing[of "db_tables (rw_db w0)" "wk_deleted w" "db_tables (rw_db w)"] assms
  unfolding run_inv_def by fastforce

section \<open>Halting and returning\<close>

lemma halted_run_refused:
  assumes run: "verifyReorg cfg node tip w = Some (r, w')" and halted: "halted_rows w" and idle: "idle w"
  shows "(\<exists>e. r = Inl e \<and> (e = HaltedRefusal \<or> (\<exists>n. e = HaltUnread n)))
    \<and> wk_deleted w' = [] \<and> db_tables (rw_db w') = db_tables (rw_db w)"
proof -
  obtain r1 w1 where e: "reorg_entry node (begun tip w) = (r1, w1)" by fastforce
  note er = entry_result[OF e]
  obtain err where r1: "r1 = Inl err" "err = HaltedRefusal \<or> (\<exists>n. err = HaltUnread n)" using er(3) halted by auto
  with run e have "r = Inl err" "w' = w1" by (simp_all add: verifyReorg_begun)
  with r1 er(1) show ?thesis by (auto simp: still_def quiet_def)
qed

lemma verifyReorg_returns:
  assumes start: "idle w" "cache_unproven w" and node: "answers_from node K"
  shows "\<exists>res. verifyReorg cfg node tip w = Some res"
proof -
  obtain r1 w1 where e: "reorg_entry node (begun tip w) = (r1, w1)" by fastforce
  have inv: "run_inv cfg node prior w w1" for prior
    by (rule run_inv_quiet[OF run_inv_start[OF start, of cfg node prior tip]])
      (use entry_result(1)[OF e] in \<open>simp add: still_def\<close>)
  show ?thesis
  proof (cases r1)
    case (Inr prior)
    obtain res where "walkReorg cfg node prior w1 = Some res" using walkReorg_returns[OF inv node] by blast
    with e Inr show ?thesis by (auto simp: verifyReorg_begun split: prod.splits sum.splits)
  qed (use e in \<open>simp add: verifyReorg_begun\<close>)
qed

end
