(* ===== verification/Ingest_Safety.thy ===== *)
theory Ingest_Safety
  imports Block_Store Op_Logic
begin

text \<open>
  What a block leaves behind.  While a block is being stored its transaction stays open and the ledger
  differs from the one it began with by writes of that block alone; every directive that asks for a
  rollback, and every escaping throw, comes after the transaction was undone.  Each step of the ingest
  is a triple between these two situations; the last lemma is that for a whole transaction.
\<close>

section \<open>The two situations\<close>

text \<open>Inside: a transaction begun at \<open>T\<close>, with writes of block \<open>h\<close> only.\<close>

definition logged :: "tables \<Rightarrow> nat \<Rightarrow> tables session \<Rightarrow> bool" where
  "logged T h s \<longleftrightarrow> opened T s \<and> (ledger_step h)\<^sup>*\<^sup>* (tb_ledger T) (session_ledger s)"

definition going :: "tables \<Rightarrow> nat \<Rightarrow> int \<Rightarrow> world \<Rightarrow> bool" where
  "going T h q w \<longleftrightarrow> logged T h (w_db w) \<and> lp_blocksQuantity (w_loop w) = q"

text \<open>Inside, with the row of the transaction at the cursor written.\<close>

definition going_tx :: "tables \<Rightarrow> nat \<Rightarrow> int \<Rightarrow> world \<Rightarrow> bool" where
  "going_tx T h q w \<longleftrightarrow>
     going T h q w \<and> nat (lp_lastTx (w_loop w)) \<in> block_txs h (session_ledger (w_db w))"

text \<open>After a rollback.\<close>

definition over :: "tables \<Rightarrow> world \<Rightarrow> bool" where
  "over T w \<longleftrightarrow> ended T (w_db w)"

text \<open>A step that keeps \<open>P\<close>, or asks for the rollback that has happened.\<close>

definition safe_to :: "(world \<Rightarrow> bool) \<Rightarrow> tables \<Rightarrow> directive ingest \<Rightarrow> (world \<Rightarrow> bool) \<Rightarrow> bool" where
  "safe_to P T m P' \<longleftrightarrow> triple P m (\<lambda>d. if d = RollbackBlock then over T else P') (over T)"

named_theorems safe_intros

lemma safe_return [safe_intros]: "d \<noteq> RollbackBlock \<Longrightarrow> safe_to P T (db_return d) P"
  by (simp add: safe_to_def triple_return)

lemma safe_over_return: "safe_to (over T) T (db_return RollbackBlock) P"
  by (simp add: safe_to_def triple_return)

lemma safe_and_then [safe_intros]:
  "safe_to P T m R \<Longrightarrow> safe_to R T k P' \<Longrightarrow> safe_to P T (and_then m k) P'"
  unfolding safe_to_def and_then_def
  by (rule triple_bind) (auto intro: triple_return split: if_splits)

lemma safe_for_each [safe_intros]: "(\<And>x. safe_to P T (f x) P) \<Longrightarrow> safe_to P T (for_each f xs) P"
proof (induction xs)
  case (Cons x xs)
  have "safe_to P T (and_then (f x) (for_each f xs)) P"
    by (rule safe_and_then[where R = P]) (use Cons in auto)
  then show ?case by (simp add: and_then_def)
qed (simp add: safe_return)

lemma safe_bind: "triple P m R (over T) \<Longrightarrow> (\<And>x. safe_to (R x) T (f x) P') \<Longrightarrow> safe_to P T (db_bind m f) P'"
  unfolding safe_to_def by (rule triple_bind)

lemma triple_modify: "(\<And>w. P w \<Longrightarrow> Q (f w)) \<Longrightarrow> triple P (modify f) (\<lambda>_. Q) E"
  by (auto simp: triple_def modify_def)

lemma triple_asks: "triple P (asks f) (\<lambda>x w. P w \<and> x = f w) E"
  by (auto simp: triple_def asks_def)

lemma safe_modify: "(\<And>w. P w \<Longrightarrow> R (f w)) \<Longrightarrow> safe_to R T (k ()) P' \<Longrightarrow> safe_to P T (db_bind (modify f) k) P'"
  by (rule safe_bind[OF triple_modify]) auto

lemma safe_asks: "(\<And>x. safe_to P T (k x) P') \<Longrightarrow> safe_to P T (db_bind (asks f) k) P'"
proof (rule safe_bind[OF triple_asks])
  fix x
  assume "\<And>x. safe_to P T (k x) P'"
  then show "safe_to (\<lambda>w. P w \<and> x = f w) T (k x) P'"
    unfolding safe_to_def by (rule triple_weaken) auto
qed

lemma triple_on_db:
  assumes "triple P m Q E"
  shows "triple (\<lambda>w. P (w_db w) \<and> F (w_loop w)) (on_db m) (\<lambda>x w. Q x (w_db w) \<and> F (w_loop w))
    (\<lambda>w. E (w_db w) \<and> F (w_loop w))"
  using assms unfolding triple_def on_db_def by (fastforce split: prod.splits sum.splits)

text \<open>Neither situation looks at the counters or the marks.\<close>

lemma situation_update [simp]:
  "going T h q (w\<lparr>w_stats := st\<rparr>) = going T h q w" "going T h q (w\<lparr>w_marks := mk\<rparr>) = going T h q w"
  "going T h q (w\<lparr>w_open := os\<rparr>) = going T h q w"
  "going_tx T h q (w\<lparr>w_stats := st\<rparr>) = going_tx T h q w" "going_tx T h q (w\<lparr>w_marks := mk\<rparr>) = going_tx T h q w"
  "going_tx T h q (w\<lparr>w_open := os\<rparr>) = going_tx T h q w"
  "over T (w\<lparr>w_stats := st\<rparr>) = over T w" "over T (w\<lparr>w_marks := mk\<rparr>) = over T w"
  "over T (w\<lparr>w_loop := lp\<rparr>) = over T w"
  by (simp_all add: going_def going_tx_def over_def)

lemma going_loop:
  "lp_blocksQuantity lp = lp_blocksQuantity (w_loop w) \<Longrightarrow> going T h q (w\<lparr>w_loop := lp\<rparr>) = going T h q w"
  by (simp add: going_def)

lemma going_tx_going: "going_tx T h q w \<Longrightarrow> going T h q w"
  by (simp add: going_tx_def)

section \<open>Database operations inside a block\<close>

lemma block_txs_step: "ledger_step h l l' \<Longrightarrow> block_txs h l \<subseteq> block_txs h l'"
  by (erule ledger_stepE)
    (auto simp: block_txs_def add_block_def add_tx_def add_output_def add_dispenser_def soft_expire_def
      extend_rows_def record_undo_def split: if_splits)

lemma logged_step: "logged T h s \<Longrightarrow> opened T s' \<Longrightarrow> ledger_step h (session_ledger s) (session_ledger s') \<Longrightarrow> logged T h s'"
  unfolding logged_def by (auto intro: rtranclp.rtrancl_into_rtrancl)

lemma guarded_logged:
  assumes g: "guards R m"
    and step: "\<And>s a s'. m s = (Inr a, s') \<Longrightarrow> \<not> R a \<Longrightarrow> G (session_ledger s) \<Longrightarrow>
      ledger_step h (session_ledger s) (session_ledger s') \<or> session_ledger s' = session_ledger s"
  shows "triple (\<lambda>s. logged T h s \<and> G (session_ledger s)) m (\<lambda>a s. if R a then ended T s else logged T h s) (ended T)"
proof (rule tripleI, goal_cases)
  case (1 s a s')
  then have "if R a then ended T s' else opened T s'"
    using triple_Inr[OF guardsD[OF g]] by (fastforce simp: logged_def)
  with 1 step[of s a s'] show ?case by (auto simp: logged_def)
next
  case (2 s e s')
  then show ?case using triple_Inl[OF guardsD[OF g]] by (fastforce simp: logged_def)
qed

lemma guarded_logged_tx:
  assumes g: "guards R m"
    and step: "\<And>s a s'. m s = (Inr a, s') \<Longrightarrow> \<not> R a \<Longrightarrow> i \<in> block_txs h (session_ledger s) \<Longrightarrow>
      ledger_step h (session_ledger s) (session_ledger s') \<or> session_ledger s' = session_ledger s"
  shows "triple (\<lambda>s. logged T h s \<and> i \<in> block_txs h (session_ledger s)) m
    (\<lambda>a s. if R a then ended T s else logged T h s \<and> i \<in> block_txs h (session_ledger s)) (ended T)"
proof (rule tripleI, goal_cases)
  case (1 s a s')
  have "triple (\<lambda>s. logged T h s \<and> i \<in> block_txs h (session_ledger s)) m
      (\<lambda>a s. if R a then ended T s else logged T h s) (ended T)"
    by (rule guarded_logged[OF g step])
  from triple_Inr[OF this 1] have "if R a then ended T s' else logged T h s'" .
  moreover have "i \<in> block_txs h (session_ledger s')" if "\<not> R a"
    using step[OF 1(2) that] 1(1) block_txs_step by auto
  ultimately show ?case by simp
next
  case (2 s e s')
  then show ?case using triple_Inl[OF guardsD[OF g]] by (fastforce simp: logged_def)
qed

lemma on_db_going:
  assumes "guards R m" "\<And>s a s'. m s = (Inr a, s') \<Longrightarrow> \<not> R a \<Longrightarrow>
      ledger_step h (session_ledger s) (session_ledger s') \<or> session_ledger s' = session_ledger s"
  shows "triple (going T h q) (on_db m) (\<lambda>a. if R a then over T else going T h q) (over T)"
  by (rule triple_weaken[OF triple_on_db[OF guarded_logged[where G = "\<lambda>_. True" and h = h], of R m T
        "\<lambda>lp. lp_blocksQuantity lp = q"]])
    (use assms in \<open>auto simp: going_def over_def\<close>)

lemma on_db_going_tx:
  assumes "guards R m" "\<And>s a s'. m s = (Inr a, s') \<Longrightarrow> \<not> R a \<Longrightarrow> i \<in> block_txs h (session_ledger s) \<Longrightarrow>
      ledger_step h (session_ledger s) (session_ledger s') \<or> session_ledger s' = session_ledger s"
  shows "triple (\<lambda>w. going_tx T h q w \<and> i = nat (lp_lastTx (w_loop w))) (on_db m)
    (\<lambda>a. if R a then over T else going_tx T h q) (over T)"
  by (rule triple_weaken[OF triple_on_db[OF guarded_logged_tx[of R m i h T],
        of "\<lambda>lp. lp_blocksQuantity lp = q \<and> i = nat (lp_lastTx lp)"]])
    (use assms in \<open>auto simp: going_def going_tx_def over_def\<close>)

lemma not_failed: "a \<noteq> Failed \<Longrightarrow> a \<noteq> PoisonRow \<Longrightarrow> a = Stored \<or> a = Duplicated"
  by (cases a) auto

lemma answersD: "answers Q m \<Longrightarrow> m s = (Inr a, s') \<Longrightarrow> Q a"
  by (auto simp: answers_def)

lemma insert_answers:
  "answers (\<lambda>a. a \<noteq> PoisonRow) (insertTransactionOutput collate out)"
  "answers (\<lambda>a. a \<noteq> PoisonRow) (insertDispenser collate od)"
  "answers (\<lambda>a. a \<noteq> PoisonRow) (deleteOpenDispensers h m)"
  "answers (\<lambda>a. a \<noteq> PoisonRow) (insertBlock collate b)"
  "answers (\<lambda>a. a \<noteq> PoisonRow) (extendEditedDispenser collate h src e)"
  unfolding answers_def insertTransactionOutput_def insertDispenser_def deleteOpenDispensers_def insertBlock_def
    extendEditedDispenser_def
  by (auto simp: db_catch_def db_bind_def db_return_def duplicate_or_failed_def dest: fail_with_answer
      split: prod.splits sum.splits if_splits)

lemma duplicate_no_poison: "duplicate_or_failed e t \<noteq> (Inr PoisonRow, t')"
  by (auto simp: duplicate_or_failed_def db_return_def dest: fail_with_answer split: if_splits)

lemma insertEvent_ledger:
  assumes "insertEvent code json t s = (Inr a, s')" "a \<noteq> Failed"
  shows "session_ledger s' = session_ledger s"
proof -
  have keep: "keeps_ledger (sql_write (\<lambda>t. Inr (append_event \<lparr>ev_time = t', ev_code = code, ev_data = json\<rparr> t)))"
    for t' by (auto simp: append_event_def intro!: keeps_ledger_intros)
  have w: "writes (sql_write (\<lambda>t. Inr (append_event \<lparr>ev_time = t', ev_code = code, ev_data = json\<rparr> t))) (\<lambda>l l'. l' = l)"
    for t' using keep[of t'] by (auto simp: writes_def keeps_ledger_def split: sum.splits)
  have "a \<noteq> PoisonRow"
    using assms(1) by (auto simp: insertEvent_def db_catch_def db_bind_def db_return_def duplicate_no_poison
        split: prod.splits sum.splits)
  then have a: "a = Stored \<or> a = Duplicated"
    using assms(2) by (cases a) auto
  from insert_answer[OF w assms(1)[unfolded insertEvent_def] _ a] show ?thesis
    using duplicate_handler by blast
qed

section \<open>Parsing inside a block\<close>

lemma safe_event:
  "safe_to (going T h q) T (insertParseErrorEvent now height i hash msg) (going T h q)"
  unfolding insertParseErrorEvent_def
proof (rule safe_bind[OF on_db_going[where R = "\<lambda>a. a = Failed"]])
  show "guards (\<lambda>a. a = Failed) (insertEvent (js ''PARSE_ERROR'') json t)" for json t
    by (rule guards_operations)
  show "safe_to (if r = Failed then over T else going T h q) T
      (db_return (if r = Failed then RollbackBlock else NextTx)) (going T h q)" for r
    by (simp add: safe_return safe_over_return)
qed (auto dest: insertEvent_ledger)

lemma safe_count: "safe_to (going T h q) T (k ()) P' \<Longrightarrow> safe_to (going T h q) T (db_bind parse_error_counted k) P'"
  unfolding parse_error_counted_def by (rule safe_modify) simp_all

lemma safe_note: "safe_to (going T h q) T (k ()) P' \<Longrightarrow> safe_to (going T h q) T (db_bind (noteQuarantine i x) k) P'"
  unfolding noteQuarantine_def by (rule safe_modify) simp_all

lemma safe_ladder: "safe_to P T (k ()) P' \<Longrightarrow> (\<And>w mk. P w \<Longrightarrow> P (w\<lparr>w_marks := mk\<rparr>)) \<Longrightarrow>
    safe_to P T (db_bind (noteLadderStep n) k) P'"
  unfolding noteLadderStep_def
  by (rule safe_bind[where R = "\<lambda>_. P"]) (auto intro: triple_if triple_modify triple_return)

text \<open>After a directive: a rollback is passed on, anything else goes on from \<open>P\<close>.\<close>

lemma safe_directive:
  assumes "safe_to P T m P" "safe_to P T k P'"
  shows "safe_to P T (db_bind m (\<lambda>d. if d = RollbackBlock then db_return RollbackBlock else k)) P'"
  using safe_and_then[OF assms] by (simp add: and_then_def)

lemma safe_skip: "safe_to (going T h q) T (skipQuarantinedTransaction now height tx i) (going T h q)"
  unfolding skipQuarantinedTransaction_def
  by (intro safe_count safe_directive safe_event safe_note safe_return) simp

lemma triple_end_world: "triple (going T h q) (on_db endTransaction) (\<lambda>_. over T) (over T)"
  by (rule triple_weaken[OF triple_on_db[OF triple_end, of T "\<lambda>_. True"]])
    (auto simp: going_def logged_def over_def)

lemma safe_end: "safe_to (going T h q) T end_and_rollback P"
  unfolding end_and_rollback_def by (rule safe_bind[OF triple_end_world]) (rule safe_over_return)

lemma triple_count_parse: "triple (going T h q) (count_parse_attempt key) (\<lambda>_. going T h q) E"
  by (auto simp: triple_def count_parse_attempt_def going_def split: prod.splits)

lemma triple_count_insert: "triple (over T) (count_insert_attempt key) (\<lambda>_. over T) E"
  by (auto simp: triple_def count_insert_attempt_def over_def split: prod.splits)

lemma safe_failure: "safe_to (going T h q) T (handleParseFailure env e now height hash i key) (going T h q)"
proof -
  have quarantine: "safe_to (going T h q) T (db_bind (modify (\<lambda>w. w\<lparr>w_loop := (w_loop w)
      \<lparr>lp_parseQuarantine := insert key (lp_parseQuarantine (w_loop w))\<rparr>\<rparr>)) (\<lambda>_. db_return NextTx)) (going T h q)"
    by (rule safe_modify[where R = "going T h q"]) (simp_all add: going_def safe_return)
  have attempt: "safe_to (going T h q) T (db_bind (count_parse_attempt key) (\<lambda>attempt.
      db_bind (noteLadderStep attempt) (\<lambda>_.
        if attempt \<le> TX_PARSE_MAX_RETRIES then end_and_rollback
        else db_bind parse_error_counted (\<lambda>_.
          db_bind (insertParseErrorEvent now height i hash (ie_message env e)) (\<lambda>d.
          if d = RollbackBlock then db_return RollbackBlock
          else db_bind (noteQuarantine height hash) (\<lambda>_.
            db_bind (modify (\<lambda>w. w\<lparr>w_loop := (w_loop w)
                \<lparr>lp_parseQuarantine := insert key (lp_parseQuarantine (w_loop w))\<rparr>\<rparr>)) (\<lambda>_.
            db_return NextTx))))))) (going T h q)"
  proof (rule safe_bind[OF triple_count_parse], rule safe_ladder)
    fix attempt :: nat
    show "safe_to (going T h q) T (if attempt \<le> TX_PARSE_MAX_RETRIES then end_and_rollback
        else db_bind parse_error_counted (\<lambda>_.
          db_bind (insertParseErrorEvent now height i hash (ie_message env e)) (\<lambda>d.
          if d = RollbackBlock then db_return RollbackBlock
          else db_bind (noteQuarantine height hash) (\<lambda>_.
            db_bind (modify (\<lambda>w. w\<lparr>w_loop := (w_loop w)
                \<lparr>lp_parseQuarantine := insert key (lp_parseQuarantine (w_loop w))\<rparr>\<rparr>)) (\<lambda>_.
            db_return NextTx))))) (going T h q)"
      by (auto intro!: safe_end safe_count safe_directive safe_event safe_note quarantine)
  qed simp
  show ?thesis
    unfolding handleParseFailure_def
    by (auto intro!: safe_end safe_asks safe_event attempt)
qed

lemma keeps_ledger_has: "keeps_ledger (hasPubkey n)"
  by (auto simp: hasPubkey_def intro!: keeps_ledger_intros)

lemma keeps_drop: "keeps_ledger m \<Longrightarrow> drop_errno m z = (r, z') \<Longrightarrow> opened T z \<and> session_ledger z = l \<Longrightarrow>
    opened T z' \<and> session_ledger z' = l"
  by (auto simp: keeps_ledger_def drop_errno_def opened_def split: prod.splits sum.splits)

text \<open>The public-key capture writes beside the ledger.\<close>

lemma pubkey_keeps: "pubkey_db_keeps (\<lambda>z. opened T z \<and> session_ledger z = l) (session_pubkey_db collate)"
  unfolding pubkey_db_keeps_def session_pubkey_db_def pubkey_db.select_convs
  using keeps_drop[OF keeps_ledger_index(1), where T = T and l = l]
    keeps_drop[OF keeps_ledger_has, where T = T and l = l]
    keeps_drop[OF keeps_ledger_index(5), where T = T and l = l]
  by (intro conjI allI impI) metis+

lemma triple_parse: "triple (going T h q) (run_parse env height tx) (\<lambda>_. going T h q) E"
proof (rule tripleI, goal_cases)
  case (1 w r w')
  let ?st = "decoder_stats.extend (w_stats w) (w_db w)"
  obtain a st' where run: "parseTransaction (ie_cfg env) (ie_chain env) (\<lambda>a. a \<in> w_open w)
      (session_pubkey_db (ie_collate env)) False (Some (int height)) tx ?st = (a, st')" by fastforce
  have w': "w' = w\<lparr>w_stats := decoder_stats.truncate st', w_db := decoder_stats.more st'\<rparr>"
    using 1(2) by (simp add: run_parse_def run)
  have "decoder_stats.more ?st = w_db w" by (simp add: decoder_stats.defs)
  then have "opened T (decoder_stats.more st') \<and> session_ledger (decoder_stats.more st') = session_ledger (w_db w)"
    using rpc_counted_parse[OF pubkey_keeps[of T "session_ledger (w_db w)" "ie_collate env"]] run 1(1)
    unfolding rpc_counted_def by (fastforce simp: going_def logged_def)
  then show ?case using 1(1) by (simp add: w' going_def logged_def)
qed (auto simp: run_parse_def split: prod.splits)

lemma triple_parse_transaction:
  "triple (going T h q) (parseBlockTransaction env now height tx i key)
     (\<lambda>r. case r of Inl d \<Rightarrow> if d = RollbackBlock then over T else going T h q | Inr _ \<Rightarrow> going T h q) (over T)"
  unfolding parseBlockTransaction_def
proof (rule triple_bind[OF triple_parse], goal_cases)
  case (1 x)
  let ?Q = "\<lambda>r. case r of Inl d \<Rightarrow> if d = RollbackBlock then over T else going T h q | Inr _ \<Rightarrow> going T h q"
  have "triple (going T h q) (db_bind (handleParseFailure env e now height (Some (tx_id tx)) i key)
      (\<lambda>d. db_return (Inl d))) ?Q (over T)" for e
    by (rule triple_bind[OF safe_failure[unfolded safe_to_def]]) (simp add: triple_return)
  then show ?case by (cases x) (simp_all add: triple_return)
qed

section \<open>Writing a transaction\<close>

lemma insertTransaction_Stored:
  assumes "insertTransaction collate tx s = (Inr Stored, s')"
  shows "ti_index tx \<in> block_txs (ti_block tx) (session_ledger s')"
proof -
  have "db_bind (insertTransactionRow collate tx) (\<lambda>_. db_return Stored) s = (Inr Stored, s')"
    using assms by (auto simp: insertTransaction_def db_catch_def db_return_def dest: fail_with_answer
        split: prod.splits sum.splits if_splits)
  then obtain r where r: "t_index r = ti_index tx" "t_block r = ti_block tx"
      "add_tx r (session_ledger s) = Inr (session_ledger s')"
    using writes_return[OF insertTransactionRow_writes, of collate tx Stored] by (fastforce simp: writes_def)
  from r(3) have "session_ledger s' = (session_ledger s)\<lparr>l_txs := l_txs (session_ledger s) @ [r]\<rparr>"
    by (elim add_txE)
  with r(1,2) show ?thesis by (auto simp: block_txs_def intro!: image_eqI[where x = r])
qed

lemma insert_logged:
  assumes i: "ti_index tx = i" "ti_block tx = h"
  shows "triple (logged T h) (insertTransaction collate tx)
    (\<lambda>a s. if a = Failed \<or> a = PoisonRow then ended T s
           else logged T h s \<and> (a = Stored \<longrightarrow> i \<in> block_txs h (session_ledger s))) (ended T)"
proof (rule tripleI, goal_cases)
  case (1 s a s')
  have "triple (\<lambda>s. logged T h s \<and> True) (insertTransaction collate tx)
      (\<lambda>a s. if a = Failed \<or> a = PoisonRow then ended T s else logged T h s) (ended T)"
    by (rule guarded_logged[OF guards_operations(3)])
      (use insertTransaction_step not_failed i in \<open>blast intro: ledger_step.tx\<close>)
  from triple_Inr[OF this _ 1(2)] 1 i insertTransaction_Stored show ?case by auto
next
  case (2 s e s')
  then show ?case using triple_Inl[OF guardsD[OF guards_operations(3)]] by (fastforce simp: logged_def)
qed

lemma triple_insert:
  "ti_index tx = i \<Longrightarrow> ti_block tx = h \<Longrightarrow>
   triple (\<lambda>w. going T h q w \<and> i = nat (lp_lastTx (w_loop w))) (on_db (insertTransaction collate tx))
    (\<lambda>a. if a = Failed \<or> a = PoisonRow then over T
         else (\<lambda>w. going T h q w \<and> (a = Stored \<longrightarrow> going_tx T h q w))) (over T)"
  by (rule triple_weaken[OF triple_on_db[OF insert_logged[where i = i and h = h],
        where F = "\<lambda>lp. lp_blocksQuantity lp = q \<and> i = nat (lp_lastTx lp)"]])
    (auto simp: going_def going_tx_def over_def)

lemma safe_from: "safe_to P' T m Q \<Longrightarrow> (\<And>w. P w \<Longrightarrow> P' w) \<Longrightarrow> safe_to P T m Q"
  unfolding safe_to_def by (erule triple_weaken) auto

lemma triple_from: "triple P' m Q E \<Longrightarrow> (\<And>s. P s \<Longrightarrow> P' s) \<Longrightarrow> triple P m Q E"
  by (erule triple_weaken) auto

lemma safe_poison: "safe_to (over T) T (db_bind (count_insert_attempt key) (\<lambda>attempt.
      db_bind (noteLadderStep attempt) (\<lambda>_.
      db_bind (if TX_PARSE_MAX_RETRIES < attempt
               then modify (\<lambda>w. w\<lparr>w_loop := (w_loop w)
                 \<lparr>lp_insertQuarantine := insert key (lp_insertQuarantine (w_loop w))\<rparr>\<rparr>)
               else db_return ()) (\<lambda>_. db_return RollbackBlock)))) P"
proof (rule safe_bind[OF triple_count_insert], rule safe_ladder)
  show "safe_to (over T) T (db_bind (if TX_PARSE_MAX_RETRIES < n
      then modify (\<lambda>w. w\<lparr>w_loop := (w_loop w)\<lparr>lp_insertQuarantine := insert key (lp_insertQuarantine (w_loop w))\<rparr>\<rparr>)
      else db_return ()) (\<lambda>_. db_return RollbackBlock)) P" for n :: nat
    by (rule safe_bind[where R = "\<lambda>_. over T"])
      (auto intro: triple_if triple_modify triple_return safe_over_return)
qed simp

lemma safe_row: "safe_to (going T h q) T (insertIngestedRow env r hash h stored key) (going_tx T h q)"
  unfolding insertIngestedRow_def current_tx_def
proof (rule safe_bind[OF triple_asks], rule safe_bind[OF triple_insert], goal_cases)
  case (3 i a)
  have "safe_to (going T h q) T end_and_rollback (going_tx T h q)" by (rule safe_end)
  then have "safe_to (\<lambda>w. going T h q w \<and> (Duplicated = Stored \<longrightarrow> going_tx T h q w)) T end_and_rollback (going_tx T h q)"
    by (rule safe_from) simp
  moreover have "safe_to (\<lambda>w. going T h q w \<and> (Stored = Stored \<longrightarrow> going_tx T h q w)) T
      (db_return Finished) (going_tx T h q)"
    by (rule safe_from[OF safe_return]) simp_all
  ultimately show ?case
    using safe_poison[of T key "going_tx T h q"] safe_over_return by (cases a) simp_all
qed simp_all

lemma safe_end_tx: "safe_to (going_tx T h q) T end_and_rollback P"
  by (rule safe_from[OF safe_end]) (rule going_tx_going)

lemma safe_current_tx:
  assumes "\<And>i. safe_to (\<lambda>w. going_tx T h q w \<and> i = nat (lp_lastTx (w_loop w))) T (k i) P"
  shows "safe_to (going_tx T h q) T (db_bind current_tx k) P"
  unfolding current_tx_def by (rule safe_bind[OF triple_asks assms])

lemma safe_output: "safe_to (going_tx T h q) T (store_output env out) (going_tx T h q)"
  unfolding store_output_def
proof (rule safe_current_tx, rule safe_bind[OF on_db_going_tx[where R = "\<lambda>a. a = Failed"]], goal_cases)
  case (1 i)
  show ?case by (rule guards_operations)
next
  case (2 i s a s')
  then have "a = Stored \<or> a = Duplicated"
    using answersD[OF insert_answers(1) 2(1)] by (cases a) auto
  from insertTransactionOutput_step[OF 2(1) this] 2(3) show ?case by (auto intro: ledger_step.out)
next
  case (3 i a)
  then show ?case
    using safe_end_tx[of T h q] safe_over_return by (cases a) (simp_all add: safe_return)
qed

section \<open>Oracle fees and payments\<close>

lemma guards_oracles:
  "guards (\<lambda>a. a = None) (getOpenDispenserOracleAddressesBySource collate src)"
  "guards (\<lambda>a. a = None) (getOpenDispenserOracleAddressBySource collate src)"
  unfolding getOpenDispenserOracleAddressesBySource_def getOpenDispenserOracleAddressBySource_def Let_def
  by (auto intro!: guards_shape keeps_ledger_basic[THEN keeps_saved_ledger])

lemma oracles_ledger:
  "getOpenDispenserOracleAddressesBySource collate src s = (Inr (Some a), s') \<Longrightarrow> session_ledger s' = session_ledger s"
  "getOpenDispenserOracleAddressBySource collate src s = (Inr (Some b), s') \<Longrightarrow> session_ledger s' = session_ledger s"
  unfolding getOpenDispenserOracleAddressesBySource_def getOpenDispenserOracleAddressBySource_def
  by (auto simp: db_catch_def db_bind_def db_return_def dest: sql_query_keeps fail_with_answer
      split: prod.splits sum.splits)

text \<open>A read that answers \<^const>\<open>None\<close> only after the rollback, and otherwise keeps \<open>J\<close>.\<close>

definition reads :: "('t session \<Rightarrow> bool) \<Rightarrow> 't \<Rightarrow> ('t session, 'a option) op \<Rightarrow> bool" where
  "reads J T m \<longleftrightarrow> triple J m (\<lambda>a. if a = None then ended T else J) (ended T)"

definition in_block :: "tables \<Rightarrow> nat \<Rightarrow> nat \<Rightarrow> tables session \<Rightarrow> bool" where
  "in_block T h i s \<longleftrightarrow> logged T h s \<and> i \<in> block_txs h (session_ledger s)"

lemma guarded_reads:
  assumes "guards (\<lambda>a. a = None) m" "\<And>s a s'. m s = (Inr (Some a), s') \<Longrightarrow> session_ledger s' = session_ledger s"
  shows "reads (in_block T h i) T m"
proof -
  have "triple (\<lambda>s. logged T h s \<and> i \<in> block_txs h (session_ledger s)) m
      (\<lambda>a s. if a = None then ended T s else logged T h s \<and> i \<in> block_txs h (session_ledger s)) (ended T)"
    by (rule guarded_logged_tx) (use assms in auto)
  then show ?thesis
    unfolding reads_def in_block_def by (rule triple_weaken) (auto simp: in_block_def)
qed

lemma reads_map: "reads J T m \<Longrightarrow> reads J T (db_bind m (\<lambda>a. db_return (map_option f a)))"
  unfolding reads_def by (rule triple_bind) (auto intro: triple_return)

lemma oracle_reads:
  "reads (in_block T h i) T (db_oracleSet (session_oracle_db collate) src)"
  "reads (in_block T h i) T (db_oracleOne (session_oracle_db collate) src)"
  unfolding session_oracle_db_def oracle_db.select_convs
  by (intro reads_map guarded_reads guards_oracles; erule oracles_ledger)+

text \<open>The same over the pair of the error counter and the session.\<close>

definition counted_reads :: "('t session \<Rightarrow> bool) \<Rightarrow> 't \<Rightarrow> (nat \<times> 't session, 'a option) op \<Rightarrow> bool" where
  "counted_reads J T m \<longleftrightarrow>
     triple (\<lambda>st. J (snd st)) m (\<lambda>a st. if a = None then ended T (snd st) else J (snd st)) (\<lambda>st. ended T (snd st))"

lemma counted_read: "reads J T m \<Longrightarrow> counted_reads J T (oracle_read m)"
  unfolding reads_def counted_reads_def oracle_read_def triple_def
  by (auto split: prod.splits sum.splits if_splits) (metis option.distinct(1))+

lemma counted_bind:
  assumes "counted_reads J T m" "\<And>x. counted_reads J T (f (Some x))"
    "triple (\<lambda>st. ended T (snd st)) (f None) (\<lambda>a st. a = None \<and> ended T (snd st)) (\<lambda>st. ended T (snd st))"
  shows "counted_reads J T (db_bind m f)"
  unfolding counted_reads_def
proof (rule triple_bind[OF assms(1)[unfolded counted_reads_def]], goal_cases)
  case (1 x)
  show ?case
  proof (cases x)
    case None
    then show ?thesis using assms(3) by (auto elim: triple_weaken)
  next
    case (Some y)
    then show ?thesis using assms(2)[of y] by (simp add: counted_reads_def)
  qed
qed

lemma counted_return: "counted_reads J T (db_return (Some x))"
  by (simp add: counted_reads_def triple_return)

lemma counted_error: "counted_reads J T (db_bind count_oracle_error (\<lambda>_. db_return (Some x)))"
  unfolding counted_reads_def
  by (rule triple_bind[where R = "\<lambda>_ st. J (snd st)"])
    (auto simp: triple_def count_oracle_error_def db_return_def)

lemma counted_map: "counted_reads J T m \<Longrightarrow> counted_reads J T (db_bind m (\<lambda>a. db_return (map_option f a)))"
  by (rule counted_bind) (auto intro: counted_return triple_return)

lemma counted_resolve:
  assumes "\<And>src. reads J T (db_oracleSet db src)" "\<And>src. reads J T (db_oracleOne db src)"
  shows "counted_reads J T (resolveOracleFeeAddresses cfg db c source t)"
  unfolding resolveOracleFeeAddresses_def Let_def
  by (auto intro!: counted_return counted_error counted_map counted_read assms split: option.split)

lemma counted_loop:
  assumes "\<And>src. reads J T (db_oracleSet db src)" "\<And>src. reads J T (db_oracleOne db src)"
  shows "counted_reads J T (resolve_oracle_loop cfg db source t cs known as)"
proof (induction cs arbitrary: known as)
  case (Cons c cs)
  have "counted_reads J T (db_bind (resolveOracleFeeAddresses cfg db c source t) (\<lambda>found.
      case found of None \<Rightarrow> db_return None
      | Some found \<Rightarrow> resolve_oracle_loop cfg db source t cs known' (as @ found)))" for known'
    by (rule counted_bind) (use counted_resolve[OF assms] Cons in \<open>auto intro: triple_return\<close>)
  with Cons show ?case by (simp add: Let_def)
qed (simp add: counted_return)

lemma triple_oracles:
  "triple (going_tx T h q) (run_oracles env cs source now) (\<lambda>a. if a = None then over T else going_tx T h q) (over T)"
proof -
  have run: "counted_reads (in_block T h i) T
      (resolveOracleFeeAddressesForCommands (ie_cfg env) (session_oracle_db (ie_collate env)) cs source now)" for i
    unfolding resolveOracleFeeAddressesForCommands_def by (rule counted_loop) (rule oracle_reads)+
  show ?thesis
    unfolding triple_def run_oracles_def
  proof (intro allI impI, goal_cases)
    case (1 w r w')
    then have "in_block T h (nat (lp_lastTx (w_loop w))) (w_db w)"
      by (simp add: going_tx_def going_def in_block_def)
    moreover obtain a n s where a: "resolveOracleFeeAddressesForCommands (ie_cfg env)
        (session_oracle_db (ie_collate env)) cs source now (parseErrors (w_stats w), w_db w) = (a, n, s)"
      by (metis prod_cases3)
    ultimately have "case a of Inl _ \<Rightarrow> ended T s
        | Inr x \<Rightarrow> if x = None then ended T s else in_block T h (nat (lp_lastTx (w_loop w))) s"
      using run[of "nat (lp_lastTx (w_loop w))"] unfolding counted_reads_def triple_def
      by (fastforce split: sum.splits)
    moreover have "r = a" "w' = w\<lparr>w_stats := (w_stats w)\<lparr>parseErrors := n\<rparr>, w_db := s\<rparr>"
      using 1(2) by (simp_all add: a)
    ultimately show ?case
      using 1(1) by (auto simp: going_tx_def going_def in_block_def over_def split: sum.splits)
  qed
qed

lemma triple_payments:
  "triple (going_tx T h q) (capturePaymentOutputs env now r data)
     (\<lambda>c. if c = None then over T else going_tx T h q) (over T)"
proof -
  have outputs: "triple (going_tx T h q) (db_bind (for_each (store_output env) outs)
      (\<lambda>d. db_return (if d = RollbackBlock then None else Some cs)))
      (\<lambda>c. if c = None then over T else going_tx T h q) (over T)" for outs and cs :: "jsstr list"
    by (rule triple_bind[OF safe_for_each[OF safe_output, unfolded safe_to_def]]) (auto intro: triple_return)
  have found: "triple (if found = None then over T else going_tx T h q) (case found of
        None \<Rightarrow> db_return None
      | Some oracles \<Rightarrow>
          if p oracles then db_bind (for_each (store_output env) (outs oracles))
                 (\<lambda>d. db_return (if d = RollbackBlock then None else Some cs))
          else db_return (Some cs))
      (\<lambda>c. if c = None then over T else going_tx T h q) (over T)"
    for found :: "jsstr list option" and p outs and cs :: "jsstr list"
    by (cases found) (auto intro!: triple_if outputs triple_return)
  show ?thesis
    unfolding capturePaymentOutputs_def Let_def by (rule triple_bind[OF triple_oracles found])
qed

section \<open>Registrations and edits\<close>

lemma safe_register: "safe_to (going_tx T h q) T (registerDispenser env reg) (going_tx T h q)"
  unfolding registerDispenser_def
proof (rule safe_current_tx, rule safe_bind[OF on_db_going_tx[where R = "\<lambda>a. a = Failed"]], goal_cases)
  case (1 i)
  show ?case by (rule guards_operations)
next
  case (2 i s a s')
  then have "a = Stored \<or> a = Duplicated"
    using answersD[OF insert_answers(2) 2(1)] by (cases a) auto
  from insertDispenser_step[OF 2(1) this] 2(3) show ?case by (auto intro: ledger_step.dispenser)
next
  case (3 i a)
  have "safe_to (going_tx T h q) T (db_bind (modify (\<lambda>w. w\<lparr>w_open := insert x (w_open w)\<rparr>))
      (\<lambda>_. db_return Finished)) (going_tx T h q)" for x
    by (rule safe_modify[where R = "going_tx T h q"]) (simp_all add: safe_return)
  then show ?case by (auto intro: safe_return safe_over_return)
qed

lemma extend_logged:
  "triple (in_block T h i) (extendEditedDispenser collate h src e)
     (\<lambda>a. if a = Failed then ended T else in_block T h i) (ended T)"
proof -
  have "triple (\<lambda>s. logged T h s \<and> i \<in> block_txs h (session_ledger s)) (extendEditedDispenser collate h src e)
      (\<lambda>a s. if a = Failed then ended T s else logged T h s \<and> i \<in> block_txs h (session_ledger s)) (ended T)"
  proof (rule guarded_logged_tx[OF guards_edit])
    fix s a s'
    assume run: "extendEditedDispenser collate h src e s = (Inr a, s')" and "a \<noteq> Failed"
    then have "a = Stored \<or> a = Duplicated"
      using answersD[OF insert_answers(5) run] by (cases a) auto
    from extendEditedDispenser_step[OF run this]
    show "ledger_step h (session_ledger s) (session_ledger s') \<or> session_ledger s' = session_ledger s"
      by (auto intro: ledger_step.edit)
  qed
  then show ?thesis by (rule triple_weaken) (auto simp: in_block_def)
qed

lemma going_tx_in_block:
  "going_tx T h q w \<longleftrightarrow> in_block T h (nat (lp_lastTx (w_loop w))) (w_db w) \<and> lp_blocksQuantity (w_loop w) = q"
  by (auto simp: going_tx_def going_def in_block_def)

lemma on_db_frame: "on_db m w = (r, w') \<Longrightarrow> \<exists>s. m (w_db w) = (r, s) \<and> w' = w\<lparr>w_db := s\<rparr>"
  by (auto simp: on_db_def split: prod.splits)

text \<open>An operation on the session that keeps a block's rows, on the world.\<close>

lemma on_db_in_block:
  assumes "\<And>i. triple (in_block T h i) m (\<lambda>a. if R a then ended T else in_block T h i) (ended T)"
  shows "triple (going_tx T h q) (on_db m) (\<lambda>a. if R a then over T else going_tx T h q) (over T)"
proof (rule tripleI, goal_cases)
  case (1 w a w')
  then obtain s where "m (w_db w) = (Inr a, s)" "w' = w\<lparr>w_db := s\<rparr>" by (auto dest: on_db_frame)
  with triple_Inr[OF assms] 1(1) show ?case by (fastforce simp: going_tx_in_block over_def)
next
  case (2 w e w')
  then obtain s where "m (w_db w) = (Inl e, s)" "w' = w\<lparr>w_db := s\<rparr>" by (auto dest: on_db_frame)
  with triple_Inl[OF assms] 2(1) show ?case by (fastforce simp: going_tx_in_block over_def)
qed

lemma safe_mirror: "safe_to (going_tx T h q) T (mirror_edit env now h prefix src command) (going_tx T h q)"
proof -
  have "safe_to (going_tx T h q) T (db_bind (on_db (extendEditedDispenser (ie_collate env) h s e))
      (\<lambda>r. db_return (if r = Failed then RollbackBlock else Finished))) (going_tx T h q)" for s e
    by (rule safe_bind[OF on_db_in_block[OF extend_logged]]) (auto intro: safe_return safe_over_return)
  then show ?thesis
    unfolding mirror_edit_def by (auto intro: safe_return split: option.split)
qed

lemma keeps_ledger_ids: "keeps_ledger (address_ids collate as known)"
  by (induction collate as known rule: address_ids.induct) (auto intro!: keeps_ledger_intros)

lemma collapse_triple:
  "triple (in_block T h i) (collapse_registrations env now cs) (\<lambda>_. in_block T h i) (in_block T h i)"
proof -
  have "keeps_ledger (collapse_registrations env now cs)"
    unfolding collapse_registrations_def Let_def by (auto intro!: keeps_ledger_intros keeps_ledger_ids)
  then show ?thesis
    unfolding keeps_ledger_def triple_def in_block_def logged_def opened_def by (fastforce split: sum.splits)
qed

lemma triple_collapse:
  "triple (going_tx T h q) (db_catch
       (db_bind (on_db (collapse_registrations env now cs)) (\<lambda>regs. db_return (Some regs)))
       (\<lambda>_. db_bind (on_db endTransaction) (\<lambda>_. db_return None)))
     (\<lambda>a. if a = None then over T else going_tx T h q) (over T)"
proof (rule triple_catch)
  have "triple (going_tx T h q) (on_db (collapse_registrations env now cs)) (\<lambda>_. going_tx T h q) (going_tx T h q)"
  proof (rule tripleI, goal_cases)
    case (1 w a w')
    then obtain s where "collapse_registrations env now cs (w_db w) = (Inr a, s)" "w' = w\<lparr>w_db := s\<rparr>"
      by (auto dest: on_db_frame)
    with triple_Inr[OF collapse_triple] 1(1) show ?case by (fastforce simp: going_tx_in_block)
  next
    case (2 w e w')
    then obtain s where "collapse_registrations env now cs (w_db w) = (Inl e, s)" "w' = w\<lparr>w_db := s\<rparr>"
      by (auto dest: on_db_frame)
    with triple_Inl[OF collapse_triple] 2(1) show ?case by (fastforce simp: going_tx_in_block)
  qed
  then show "triple (going_tx T h q)
      (db_bind (on_db (collapse_registrations env now cs)) (\<lambda>regs. db_return (Some regs)))
      (\<lambda>a. if a = None then over T else going_tx T h q) (going_tx T h q)"
    by (rule triple_bind) (auto intro: triple_return)
  show "triple (going_tx T h q) (db_bind (on_db endTransaction) (\<lambda>_. db_return None))
      (\<lambda>a. if a = None then over T else going_tx T h q) (over T)" for e :: errno
    by (rule triple_bind[OF triple_from[OF triple_end_world]]) (auto intro: triple_return going_tx_going)
qed

lemma safe_registrations:
  "safe_to (going_tx T h q) T (register_dispensers env now h r commands) (going_tx T h q)"
proof -
  let ?k = "\<lambda>regs :: registration list option. case regs of None \<Rightarrow> db_return RollbackBlock
    | Some registrations \<Rightarrow> and_then (for_each (registerDispenser env) registrations)
        (for_each (mirror_edit env now h (dispenserCommandPrefixFor (ie_cfg env) now) (pr_source r)) commands)"
  have "safe_to (going_tx T h q) T (db_bind (db_catch
       (db_bind (on_db (collapse_registrations env now cs)) (\<lambda>regs. db_return (Some regs)))
       (\<lambda>_. db_bind (on_db endTransaction) (\<lambda>_. db_return None))) ?k) (going_tx T h q)" for cs
  proof (rule safe_bind[OF triple_collapse])
    fix regs :: "registration list option"
    show "safe_to (if regs = None then over T else going_tx T h q) T (?k regs) (going_tx T h q)"
      using safe_and_then[OF safe_for_each[OF safe_register] safe_for_each[OF safe_mirror]]
      by (cases regs) (simp_all add: safe_over_return)
  qed
  then show ?thesis
    unfolding register_dispensers_def Let_def
    by (auto intro!: safe_asks safe_modify[where R = "going_tx T h q"])
qed

section \<open>One transaction\<close>

lemma safe_persist: "safe_to (going T h q) T (persistTransaction env now h r hash stored key) (going_tx T h q)"
proof -
  have "safe_to (going_tx T h q) T (db_bind (capturePaymentOutputs env now r (st_data stored)) (\<lambda>commands.
      case commands of None \<Rightarrow> db_return RollbackBlock
      | Some cs \<Rightarrow> register_dispensers env now h r cs)) (going_tx T h q)"
    by (rule safe_bind[OF triple_payments])
      (auto intro: safe_over_return safe_registrations split: option.split)
  then show ?thesis
    unfolding persistTransaction_def storeDispenseOutput_def
    by (intro safe_and_then[OF safe_row] safe_and_then[OF safe_for_each[OF safe_output]])
qed

lemma safe_into: "safe_to P T m (going_tx T h q) \<Longrightarrow> safe_to P T m (going T h q)"
  unfolding safe_to_def by (erule triple_weaken) (auto intro: going_tx_going split: if_splits)

lemma triple_build: "triple (going T h q) (build_stored r) (\<lambda>_. going T h q) E"
  by (auto simp: triple_def build_stored_def split: prod.splits)

lemma safe_ingest: "safe_to (going T h q) T (ingestTransaction env now h hash tx i) (going T h q)"
proof -
  let ?key = "quarantineKey h hash i"
  have stored: "safe_to (going T h q) T (db_bind take_tx_index (\<lambda>_. db_bind (build_stored r) (\<lambda>stored.
      if st_skip stored then db_return NextTx
      else persistTransaction env now h r (tx_id tx) stored ?key))) (going T h q)" for r
    unfolding take_tx_index_def
    by (rule safe_modify[where R = "going T h q"], simp add: going_def, rule safe_bind[OF triple_build])
      (auto intro: safe_return safe_into safe_persist)
  have parsed: "safe_to (case p of Inl d \<Rightarrow> if d = RollbackBlock then over T else going T h q | Inr _ \<Rightarrow> going T h q) T
      (case p of
         Inl d \<Rightarrow> db_return d
       | Inr None \<Rightarrow> db_return Finished
       | Inr (Some r) \<Rightarrow>
           if hasStorableContent (Some r)
           then db_bind take_tx_index (\<lambda>_. db_bind (build_stored r) (\<lambda>stored.
                  if st_skip stored then db_return NextTx
                  else persistTransaction env now h r (tx_id tx) stored ?key))
           else if pr_data r \<noteq> [] \<and> pr_source r = None
           then db_bind parse_error_counted (\<lambda>_. db_return Finished)
           else db_return Finished) (going T h q)" for p
  proof (cases p)
    case (Inl d)
    then show ?thesis by (simp add: safe_return safe_over_return)
  next
    case (Inr x)
    then show ?thesis
      by (cases x) (auto intro: safe_return stored safe_count)
  qed
  have "safe_to (going T h q) T (db_bind (parseBlockTransaction env now h tx i ?key) (\<lambda>p. case p of
         Inl d \<Rightarrow> db_return d
       | Inr None \<Rightarrow> db_return Finished
       | Inr (Some r) \<Rightarrow>
           if hasStorableContent (Some r)
           then db_bind take_tx_index (\<lambda>_. db_bind (build_stored r) (\<lambda>stored.
                  if st_skip stored then db_return NextTx
                  else persistTransaction env now h r (tx_id tx) stored ?key))
           else if pr_data r \<noteq> [] \<and> pr_source r = None
           then db_bind parse_error_counted (\<lambda>_. db_return Finished)
           else db_return Finished)) (going T h q)"
    by (rule safe_bind[OF triple_parse_transaction parsed])
  then show ?thesis
    unfolding ingestTransaction_def Let_def by (auto intro!: safe_asks safe_skip)
qed

end
