(* ===== verification/Block_Outcome.thy ===== *)
theory Block_Outcome
  imports Ingest_Safety
begin

text \<open>
  The outcome of a block: its transactions and the expiry inside the open transaction, the commit with
  the purge that follows, and \<open>storeBlock\<close> as a whole.  A block that does not finish leaves the tables
  it began with; one that finishes leaves writes of its own height and a purge, which deleting the
  block takes back.
\<close>

section \<open>The block\<close>

lemma safe_transactions: "safe_to (going T h q) T (ingest_transactions env now h hash i txs) (going T h q)"
proof (induction txs arbitrary: i)
  case (Cons tx txs)
  have count: "safe_to (going T h q) T (db_bind (modify (\<lambda>w. w\<lparr>w_loop := (w_loop w)
      \<lparr>lp_outputCount := lp_outputCount (w_loop w) + length (tx_outs tx)\<rparr>\<rparr>))
      (\<lambda>_. ingest_transactions env now h hash (Suc i) txs)) (going T h q)"
    by (rule safe_modify[where R = "going T h q"]) (simp_all add: going_def[of T h q] Cons.IH)
  show ?case
    unfolding ingest_transactions.simps
  proof (rule safe_bind[OF safe_ingest[unfolded safe_to_def]])
    fix d
    show "safe_to (if d = RollbackBlock then over T else going T h q) T
      (case d of RollbackBlock \<Rightarrow> db_return RollbackBlock
       | NextTx \<Rightarrow> ingest_transactions env now h hash (Suc i) txs
       | Finished \<Rightarrow> db_bind (modify (\<lambda>w. w\<lparr>w_loop := (w_loop w)
           \<lparr>lp_outputCount := lp_outputCount (w_loop w) + length (tx_outs tx)\<rparr>\<rparr>))
           (\<lambda>_. ingest_transactions env now h hash (Suc i) txs)) (going T h q)"
      using count Cons.IH by (cases d) (simp_all add: safe_over_return)
  qed
qed (simp add: safe_return)

text \<open>
  The expiry asks for a rollback on any answer but \<open>true\<close>, so it may leave the transaction to the
  next begin, which discards it.
\<close>

definition undone :: "tables \<Rightarrow> world \<Rightarrow> bool" where
  "undone T w \<longleftrightarrow> db_tables (roll_back (w_db w)) = T"

definition reverts_to :: "(world \<Rightarrow> bool) \<Rightarrow> tables \<Rightarrow> directive ingest \<Rightarrow> (world \<Rightarrow> bool) \<Rightarrow> bool" where
  "reverts_to P T m P' \<longleftrightarrow> triple P m (\<lambda>d. if d = RollbackBlock then undone T else P') (over T)"

lemma over_undone: "over T w \<Longrightarrow> undone T w"
  by (simp add: over_def undone_def ended_def roll_back_def)

lemma going_undone: "going T h q w \<Longrightarrow> undone T w"
  by (simp add: going_def logged_def opened_def undone_def roll_back_def)

lemma safe_reverts: "safe_to P T m P' \<Longrightarrow> reverts_to P T m P'"
  unfolding safe_to_def reverts_to_def by (erule triple_weaken) (auto intro: over_undone split: if_splits)

lemma reverts_and_then:
  "reverts_to P T m R \<Longrightarrow> reverts_to R T k P' \<Longrightarrow> reverts_to P T (and_then m k) P'"
  unfolding reverts_to_def and_then_def
  by (rule triple_bind) (auto intro: triple_return split: if_splits)

lemma reverts_bind: "triple P m R (over T) \<Longrightarrow> (\<And>x. reverts_to (R x) T (f x) P') \<Longrightarrow> reverts_to P T (db_bind m f) P'"
  unfolding reverts_to_def by (rule triple_bind)

lemma reverts_modify: "(\<And>w. P w \<Longrightarrow> R (f w)) \<Longrightarrow> reverts_to R T (k ()) P' \<Longrightarrow> reverts_to P T (db_bind (modify f) k) P'"
  by (rule reverts_bind[OF triple_modify]) auto

lemma reverts_expire: "reverts_to (going T h q) T (expire_dispensers h now) (going T h q)"
  unfolding expire_dispensers_def
proof (rule reverts_bind[OF on_db_going[where R = "\<lambda>a. a = Failed"]], goal_cases)
  case 1
  show ?case by (rule guards_operations)
next
  case (2 s a s')
  then have "a = Stored \<or> a = Duplicated"
    using answersD[OF insert_answers(3) 2(1)] by (cases a) auto
  from deleteOpenDispensers_step[OF 2(1) this] show ?case by (auto intro: ledger_step.expire)
next
  case (3 r)
  then show ?case
    by (auto simp: reverts_to_def intro!: triple_return intro: going_undone over_undone)
qed

section \<open>Commit\<close>

text \<open>
  After the commit: the writes of the block alone, from the ledger it began with, and then the purge,
  whole or cut short.
\<close>

definition purge_variants :: "int \<Rightarrow> int option \<Rightarrow> ledger \<Rightarrow> ledger set" where
  "purge_variants safeHeight f l =
     (if safeHeight < 0 then {l}
      else {l, purge_dispensers (nat safeHeight) f l,
            purge_undo (nat safeHeight) (purge_dispensers (nat safeHeight) f l)})"

definition committed :: "tables \<Rightarrow> nat \<Rightarrow> int \<Rightarrow> int option \<Rightarrow> world \<Rightarrow> bool" where
  "committed T h safeHeight f w \<longleftrightarrow>
     db_saved (w_db w) = None
     \<and> (\<exists>l. (ledger_step h)\<^sup>*\<^sup>* (tb_ledger T) l \<and> session_ledger (w_db w) \<in> purge_variants safeHeight f l)"

definition purge_height :: "store_env \<Rightarrow> nat \<Rightarrow> int" where
  "purge_height env h = int h - int (if se_safeDepth env = 0 then DISPENSER_EXPIRE_SAFE_DEPTH else se_safeDepth env)"

definition after_block :: "store_env \<Rightarrow> tables \<Rightarrow> nat \<Rightarrow> js_time \<Rightarrow> world \<Rightarrow> bool" where
  "after_block env T h now = committed T h (purge_height env h) (purgeGraceFloor (store_network env) now)"

text \<open>What a block's directive means.\<close>

fun outcome :: "store_env \<Rightarrow> tables \<Rightarrow> nat \<Rightarrow> js_time \<Rightarrow> directive \<Rightarrow> world \<Rightarrow> bool" where
  "outcome env T h now RollbackBlock = undone T"
| "outcome env T h now NextTx = over T"
| "outcome env T h now Finished = after_block env T h now"

lemma triple_commit_world:
  "triple (going T h q) (on_db commitTransaction) (\<lambda>c. if c then
       (\<lambda>w. db_saved (w_db w) = None \<and> (ledger_step h)\<^sup>*\<^sup>* (tb_ledger T) (session_ledger (w_db w))) else over T) (over T)"
proof (rule tripleI, goal_cases)
  case (1 w c w')
  then obtain s where s: "commitTransaction (w_db w) = (Inr c, s)" "w' = w\<lparr>w_db := s\<rparr>" by (auto dest: on_db_frame)
  from triple_Inr[OF triple_commit[of T "db_tables (w_db w)"] _ s(1)] 1(1) s(2) show ?case
    by (auto simp: going_def logged_def over_def ended_def split: if_splits)
next
  case (2 w e w')
  then obtain s where s: "commitTransaction (w_db w) = (Inl e, s)" by (auto dest: on_db_frame)
  from triple_Inl[OF triple_commit[of T "db_tables (w_db w)"] _ s] 2(1) show ?case
    by (auto simp: going_def logged_def)
qed

lemma retry_read_keeps: "retry_read n f s = (r, s') \<Longrightarrow> db_tables s' = db_tables s \<and> db_saved s' = db_saved s"
  by (induction n arbitrary: s)
    (auto simp: db_throw_def db_catch_def dest: sql_query_keeps split: prod.splits sum.splits)

lemma triple_read_over: "triple (over T) (on_db (retry_read n f)) (\<lambda>_. over T) (over T)"
  by (rule tripleI) (auto simp: over_def ended_def dest!: on_db_frame retry_read_keeps)

lemma triple_reset: "triple (over T) (reset_cursors start) (\<lambda>_. over T) (over T)"
  unfolding reset_cursors_def getLastBlockIndex_def getLastTxIndex_def
  by (intro triple_bind[OF triple_read_over] triple_bind[OF triple_modify[where Q = "over T"]] triple_modify)
    (simp_all add: over_def)

lemma triple_retry: "triple (over T) (retryFailedCommit env) (\<lambda>d w. d = NextTx \<and> over T w) (over T)"
  unfolding retryFailedCommit_def reset_counters_def
  by (intro triple_bind[OF triple_reset] triple_bind[OF triple_modify[where Q = "over T"]] triple_return) simp_all


lemma purge_outside:
  assumes "purgeExpiredDispensers safeHeight f s = (r, s')" "db_saved s = None"
  shows "db_saved s' = None \<and> session_ledger s' \<in> purge_variants safeHeight f (session_ledger s) \<and> (\<exists>b. r = Inr b)"
  using assms
  by (auto simp: purgeExpiredDispensers_def purge_variants_def db_return_def db_catch_def db_bind_def fail_with_def
      in_transaction_def dest!: ledger_update_result split: if_splits prod.splits sum.splits)

lemma triple_purge:
  "triple (\<lambda>w. db_saved (w_db w) = None \<and> (ledger_step h)\<^sup>*\<^sup>* (tb_ledger T) (session_ledger (w_db w)))
     (purgeExpiredAfterCommit env h now) (\<lambda>_. after_block env T h now) (\<lambda>_. False)"
  unfolding purgeExpiredAfterCommit_def Let_def
proof (rule triple_bind[where R = "\<lambda>_. after_block env T h now"], goal_cases)
  case 1
  show ?case
    by (rule tripleI)
      (auto simp: after_block_def committed_def purge_height_def dest!: on_db_frame purge_outside)
next
  case (2 x)
  then show ?case
    by (auto intro!: triple_return triple_modify simp: after_block_def committed_def)
qed

lemma triple_batch:
  "triple (going T h q) (commitBlockBatch env h now)
     (\<lambda>d w. d \<noteq> RollbackBlock \<and> outcome env T h now d w) (over T)"
  unfolding commitBlockBatch_def
proof (rule triple_bind[OF triple_commit_world], goal_cases)
  case (1 c)
  let ?kept = "\<lambda>w. db_saved (w_db w) = None \<and> (ledger_step h)\<^sup>*\<^sup>* (tb_ledger T) (session_ledger (w_db w))"
  have "triple ?kept (db_bind (modify (\<lambda>w. w\<lparr>w_loop := clearQuarantineState (w_loop w)\<rparr>)) (\<lambda>_.
      db_bind (purgeExpiredAfterCommit env h now) (\<lambda>_.
      db_bind (modify (\<lambda>w. w\<lparr>w_loop := (resetBatchCounters (w_loop w))\<lparr>lp_blocksQuantity := - 1\<rparr>\<rparr>)) (\<lambda>_.
      db_return Finished)))) (\<lambda>d w. d = Finished \<and> after_block env T h now w) (over T)"
    by (intro triple_bind[OF triple_modify[where Q = ?kept]]
        triple_bind[OF triple_weaken[OF triple_purge, where Q = "\<lambda>_. after_block env T h now"]]
        triple_bind[OF triple_modify[where Q = "after_block env T h now"]] triple_return)
      (simp_all add: after_block_def committed_def)
  then have kept: "triple ?kept (db_bind (modify (\<lambda>w. w\<lparr>w_loop := clearQuarantineState (w_loop w)\<rparr>)) (\<lambda>_.
      db_bind (purgeExpiredAfterCommit env h now) (\<lambda>_.
      db_bind (modify (\<lambda>w. w\<lparr>w_loop := (resetBatchCounters (w_loop w))\<lparr>lp_blocksQuantity := - 1\<rparr>\<rparr>)) (\<lambda>_.
      db_return Finished)))) (\<lambda>d w. d \<noteq> RollbackBlock \<and> outcome env T h now d w) (over T)"
    by (rule triple_weaken) auto
  have retry: "triple (over T) (retryFailedCommit env) (\<lambda>d w. d \<noteq> RollbackBlock \<and> outcome env T h now d w) (over T)"
    by (rule triple_weaken[OF triple_retry]) auto
  show ?case using kept retry by (cases c) simp_all
qed

lemma triple_advance: "triple (after_block env T h now) (advance h) (outcome env T h now) (over T)"
  unfolding advance_def
  by (rule triple_bind[OF triple_modify[where Q = "after_block env T h now"]])
    (auto intro: triple_return simp: after_block_def committed_def)

lemma triple_finish:
  "triple (going T h 0) (finishBlock env now h hash txs expireAtEnd) (outcome env T h now) (over T)"
proof -
  let ?commit = "db_bind (asks (\<lambda>w. lp_blocksQuantity (w_loop w) = DB_TRANSACTION_BLOCKS_QUANTITY - 1
      \<or> int h = dm_nodeTip (w_marks w))) (\<lambda>full. if full
        then db_bind (commitBlockBatch env h now) (\<lambda>d. if d = NextTx then db_return NextTx else advance h)
        else advance h)"
  have batch: "triple (going T h 0) (db_bind (commitBlockBatch env h now)
      (\<lambda>d. if d = NextTx then db_return NextTx else advance h)) (outcome env T h now) (over T)"
  proof (rule triple_bind[OF triple_batch])
    fix d
    show "triple (\<lambda>w. d \<noteq> RollbackBlock \<and> outcome env T h now d w)
        (if d = NextTx then db_return NextTx else advance h) (outcome env T h now) (over T)"
      by (cases d) (simp_all add: triple_false triple_return triple_advance)
  qed
  have commit: "triple (going T h 0) ?commit (outcome env T h now) (over T)"
  proof (rule triple_bind[OF triple_asks])
    fix full :: bool
    show "triple (\<lambda>w. going T h 0 w \<and> full = (lp_blocksQuantity (w_loop w) = DB_TRANSACTION_BLOCKS_QUANTITY - 1
        \<or> int h = dm_nodeTip (w_marks w))) (if full
        then db_bind (commitBlockBatch env h now) (\<lambda>d. if d = NextTx then db_return NextTx else advance h)
        else advance h) (outcome env T h now) (over T)"
      by (cases full)
        (auto simp: going_def DB_TRANSACTION_BLOCKS_QUANTITY_def intro: triple_from[OF batch] triple_from[OF triple_false])
  qed
  have tail: "triple (going T h 0) (db_bind (modify (\<lambda>w. w\<lparr>w_loop := (w_loop w)
        \<lparr>lp_transactionsCount := lp_transactionsCount (w_loop w) + length txs\<rparr>\<rparr>)) (\<lambda>_.
      and_then (if expireAtEnd then expire_dispensers h now else db_return Finished) ?commit))
      (outcome env T h now) (over T)"
  proof (rule triple_bind[OF triple_modify[where Q = "going T h 0"]])
    have "reverts_to (going T h 0) T (if expireAtEnd then expire_dispensers h now else db_return Finished) (going T h 0)"
      by (simp add: reverts_expire safe_reverts safe_return)
    then show "triple (going T h 0) (and_then (if expireAtEnd then expire_dispensers h now else db_return Finished) ?commit)
        (outcome env T h now) (over T)"
      unfolding and_then_def reverts_to_def
    proof (rule triple_bind)
      fix d
      show "triple ((if d = RollbackBlock then undone T else going T h 0))
          (if d = RollbackBlock then db_return RollbackBlock else ?commit) (outcome env T h now) (over T)"
        using commit by (cases "d = RollbackBlock") (simp_all only: triple_return outcome.simps if_True if_False simp_thms)
    qed
  qed (simp add: going_def)
  show ?thesis
    unfolding finishBlock_def
  proof (rule triple_bind[OF triple_modify[where Q = "going T h 0"]])
    show "triple (going T h 0) (and_then (ingest_transactions (as_ingest env) now h hash 0 txs)
        (db_bind (modify (\<lambda>w. w\<lparr>w_loop := (w_loop w)
            \<lparr>lp_transactionsCount := lp_transactionsCount (w_loop w) + length txs\<rparr>\<rparr>)) (\<lambda>_.
          and_then (if expireAtEnd then expire_dispensers h now else db_return Finished) ?commit)))
        (outcome env T h now) (over T)"
      unfolding and_then_def[of "ingest_transactions _ _ _ _ _ _"]
    proof (rule triple_bind[OF safe_transactions[unfolded safe_to_def]])
      fix d
      have "triple (over T) (db_return RollbackBlock) (outcome env T h now) (over T)"
        by (rule triple_return) (simp add: over_undone)
      with tail show "triple (if d = RollbackBlock then over T else going T h 0)
          (if d = RollbackBlock then db_return RollbackBlock else db_bind (modify (\<lambda>w. w\<lparr>w_loop := (w_loop w)
            \<lparr>lp_transactionsCount := lp_transactionsCount (w_loop w) + length txs\<rparr>\<rparr>)) (\<lambda>_.
          and_then (if expireAtEnd then expire_dispensers h now else db_return Finished) ?commit))
          (outcome env T h now) (over T)"
        by (cases "d = RollbackBlock") simp_all
    qed
  qed (simp add: going_def)
qed

section \<open>Storing a block\<close>

text \<open>A read that neither throws nor writes.\<close>

lemma attempt_keeps:
  assumes "triple P m (\<lambda>_. P) P"
  shows "triple P (attempt m) (\<lambda>_. P) E"
  unfolding attempt_def
  by (rule triple_catch[where E' = P], rule triple_bind[OF assms]) (auto intro: triple_return)

lemma retry_read_logged: "triple (logged T h) (retry_read n f) (\<lambda>_. logged T h) (logged T h)"
  by (rule tripleI) (auto simp: logged_def opened_def dest!: retry_read_keeps)

lemma fetch_logged: "triple (logged T h) (fetchBlockTimes height wanted) (\<lambda>_. logged T h) E"
proof (induction height wanted rule: fetchBlockTimes.induct)
  case (2 height wanted)
  have "triple (logged T h) (case b of None \<Rightarrow> db_return None | Some None \<Rightarrow> db_return (Some [])
      | Some (Some b) \<Rightarrow> db_bind (fetchBlockTimes height (wanted - 1)) (\<lambda>rest.
          db_return (map_option ((#) (stored_time b)) rest))) (\<lambda>_. logged T h) E"
    if "wanted \<noteq> 0" for b :: "block_view option option"
    using 2 that by (auto intro!: triple_return triple_bind split: option.split)
  note read = triple_bind[OF attempt_keeps[OF retry_read_logged] this]
  show ?case
    unfolding fetchBlockTimes.simps getBlockByIndex_def by (intro triple_if triple_return read)
qed (simp add: triple_return)

lemma context_logged:
  "triple (logged T h) (resolveBlockTimeContext net block height)
     (\<lambda>c. if c = None then ended T else logged T h) (ended T)"
proof -
  let ?raw = "Num (int (bk_timestamp block))"
  have fetched: "triple (logged T h) (if 0 < history_wanted net ?raw then fetchBlockTimes height (history_wanted net ?raw)
      else db_return (Some [])) (\<lambda>_. logged T h) (ended T)"
    by (auto intro: triple_return fetch_logged)
  have ending: "triple (logged T h) (db_bind endTransaction (\<lambda>_. db_return None))
      (\<lambda>c. if c = None then ended T else logged T h) (ended T)"
    by (rule triple_bind[OF triple_from[OF triple_end]]) (auto intro: triple_return simp: logged_def)
  have "triple (logged T h) (case fetched of
        None \<Rightarrow> db_bind endTransaction (\<lambda>_. db_return None)
      | Some previous \<Rightarrow> db_return (Some
          (createBlockTimeContext net ?raw (Some (take MEDIAN_TIME_SPAN previous)),
           (case previous of [] \<Rightarrow> Null | t # ts \<Rightarrow> protocolTime net t (Some ts)))))
      (\<lambda>c. if c = None then ended T else logged T h) (ended T)" for fetched
    using ending by (cases fetched) (simp_all add: triple_return)
  then show ?thesis
    unfolding resolveBlockTimeContext_def Let_def by (rule triple_bind[OF fetched])
qed

lemma record_logged:
  "triple (logged T h) (insertBlockRecord collate ctx h hash prev) (\<lambda>b. if b then logged T h else ended T) (ended T)"
proof -
  have insert: "triple (\<lambda>s. logged T h s \<and> True) (insertBlock collate bi)
      (\<lambda>a s. if a = Failed then ended T s else logged T h s) (ended T)" if "bi_index bi = h" for bi
  proof (rule guarded_logged[OF guards_operations(2)])
    fix s a s'
    assume run: "insertBlock collate bi s = (Inr a, s')" and "a \<noteq> Failed"
    then have "a = Stored \<or> a = Duplicated"
      using answersD[OF insert_answers(4) run] by (cases a) auto
    from insertBlock_step[OF run this] that
    show "ledger_step h (session_ledger s) (session_ledger s') \<or> session_ledger s' = session_ledger s"
      by (auto intro: ledger_step.block)
  qed
  show ?thesis
    unfolding insertBlockRecord_def
    by (rule triple_bind[OF triple_from[OF insert]]) (auto intro: triple_return)
qed

lemma on_db_world:
  assumes "triple (logged T h) m (\<lambda>a. if R a then logged T h else ended T) (ended T)"
  shows "triple (going T h q) (on_db m) (\<lambda>a. if R a then going T h q else over T) (over T)"
  by (rule triple_weaken[OF triple_on_db[OF assms, where F = "\<lambda>lp. lp_blocksQuantity lp = q"]])
    (auto simp: going_def over_def split: if_splits)

lemma safe_open: "safe_to (going T h q) T (loadOpenDispenserAddresses net now parent) (going T h q)"
proof -
  have "keeps_ledger (getAllOpenDispenserAddresses fl)" for fl
    unfolding getAllOpenDispenserAddresses_def by (intro keeps_ledger_intros)
  then have "triple (going T h q) (on_db (getAllOpenDispenserAddresses fl)) (\<lambda>_. going T h q) (over T)" for fl
  proof (intro tripleI, goal_cases)
    case (1 w x w')
    then show ?case
      by (auto dest!: on_db_frame simp: going_def logged_def opened_def keeps_ledger_def)
  qed (auto simp: getAllOpenDispenserAddresses_def db_catch_def db_return_def dest!: on_db_frame split: prod.splits sum.splits)
  then show ?thesis
    unfolding loadOpenDispenserAddresses_def
    by (rule safe_bind)
      (auto intro: safe_end safe_modify[where R = "going T h q"] safe_return split: option.split)
qed

text \<open>The outcome of a block stored from no open transaction.\<close>

lemma triple_store:
  "triple (\<lambda>w. ended T (w_db w) \<and> lp_blocksQuantity (w_loop w) = 0) (storeBlock env block h hash prev)
     (\<lambda>d w. \<exists>now. outcome env T h now d w) (over T)"
proof -
  let ?Q = "\<lambda>d w. \<exists>now. outcome env T h now d w" and ?net = "store_network env"
  let ?body = "\<lambda>ctx parent. let now = ctx_protocolBlockTime ctx; e = isDispenserExpiryRealignActive ?net now
      in and_then (expireDispensersAtBlockStart now h e)
         (and_then (loadOpenDispenserAddresses ?net now parent)
           (finishBlock env now h hash (bk_transactions block) e))"
  have rollback: "triple (over T) (db_return RollbackBlock) ?Q (over T)"
    by (rule triple_return) (simp add: over_undone)
  have then_finish: "triple (going T h 0) (and_then m k) ?Q (over T)"
    if "reverts_to (going T h 0) T m (going T h 0)" "triple (going T h 0) k ?Q (over T)" for m k
    unfolding and_then_def
  proof (rule triple_bind[OF that(1)[unfolded reverts_to_def]])
    fix d
    have "triple (undone T) (db_return RollbackBlock) ?Q (over T)"
      by (rule triple_return) simp
    with that(2) show "triple (if d = RollbackBlock then undone T else going T h 0)
        (if d = RollbackBlock then db_return RollbackBlock else k) ?Q (over T)"
      by (cases "d = RollbackBlock") simp_all
  qed
  have finish: "triple (going T h 0) (finishBlock env now h hash txs e) ?Q (over T)" for now txs e
    by (rule triple_weaken[OF triple_finish]) auto
  have start: "reverts_to (going T h 0) T (if e then db_return Finished else expire_dispensers h now) (going T h 0)"
    for e now by (simp add: reverts_expire safe_reverts safe_return)
  have body: "triple (going T h 0) (?body ctx parent) ?Q (over T)" for ctx parent
    unfolding Let_def expireDispensersAtBlockStart_def
    by (intro then_finish[OF start] then_finish[OF safe_reverts[OF safe_open]] finish)
  have recorded: "triple (going T h 0) (db_bind (on_db (insertBlockRecord (ie_collate env) ctx h hash prev))
      (\<lambda>inserted. if \<not> inserted then db_return RollbackBlock else ?body ctx parent)) ?Q (over T)" for ctx parent
  proof (rule triple_bind[OF on_db_world[OF record_logged]])
    fix b
    show "triple (if b then going T h 0 else over T)
        (if \<not> b then db_return RollbackBlock else ?body ctx parent) ?Q (over T)"
      using body rollback by (cases b) simp_all
  qed
  have timed: "triple (going T h 0) (db_bind (on_db (resolveBlockTimeContext ?net block h)) (\<lambda>context.
      case context of None \<Rightarrow> db_return RollbackBlock
      | Some (ctx, parent) \<Rightarrow> db_bind (on_db (insertBlockRecord (ie_collate env) ctx h hash prev))
          (\<lambda>inserted. if \<not> inserted then db_return RollbackBlock else ?body ctx parent))) ?Q (over T)"
  proof (rule triple_bind[OF on_db_world[where R = "\<lambda>c. c \<noteq> None"]])
    show "triple (logged T h) (resolveBlockTimeContext ?net block h)
        (\<lambda>c. if c \<noteq> None then logged T h else ended T) (ended T)"
      by (rule triple_weaken[OF context_logged]) (auto split: if_splits)
    show "triple (if c \<noteq> None then going T h 0 else over T) (case c of None \<Rightarrow> db_return RollbackBlock
      | Some (ctx, parent) \<Rightarrow> db_bind (on_db (insertBlockRecord (ie_collate env) ctx h hash prev))
          (\<lambda>inserted. if \<not> inserted then db_return RollbackBlock else ?body ctx parent)) ?Q (over T)" for c
      using recorded rollback by (cases c) (simp_all split: prod.split)
  qed
  have begin_block: "triple (\<lambda>w. ended T (w_db w) \<and> lp_blocksQuantity (w_loop w) = 0)
      (on_db beginTransaction) (\<lambda>_. going T h 0) (over T)"
    by (rule triple_weaken[OF triple_on_db[OF triple_begin, where F = "\<lambda>lp. lp_blocksQuantity lp = 0"]])
      (auto simp: going_def logged_def over_def)
  show ?thesis
    unfolding storeBlock_def
  proof (rule triple_bind[OF triple_asks])
    fix first :: bool
    show "triple (\<lambda>w. (ended T (w_db w) \<and> lp_blocksQuantity (w_loop w) = 0)
          \<and> first = (lp_blocksQuantity (w_loop w) = 0))
        (db_bind (if first then on_db beginTransaction else db_return ()) (\<lambda>_.
         db_bind (on_db (resolveBlockTimeContext ?net block h)) (\<lambda>context. case context of
           None \<Rightarrow> db_return RollbackBlock
         | Some (ctx, parent) \<Rightarrow> db_bind (on_db (insertBlockRecord (ie_collate env) ctx h hash prev))
             (\<lambda>inserted. if \<not> inserted then db_return RollbackBlock else ?body ctx parent)))) ?Q (over T)"
    proof (cases first)
      case True
      then show ?thesis
        using triple_bind[OF triple_from[OF begin_block] timed] by simp
    next
      case False
      then show ?thesis by (auto intro: triple_from[OF triple_false])
    qed
  qed
qed

section \<open>What deleting the block takes back\<close>

lemma undo_purge_dispensers:
  assumes "ledger_wf l" "k < h"
  shows "undo_block h (purge_dispensers k f l) = purge_dispensers k f (undo_block h l)"
proof (rule ledger_eqI)
  let ?p = "purge_dispensers k f l"
  have ids: "block_txs h ?p = block_txs h l" by (simp add: block_txs_def purge_dispensers_def)
  have "filter (\<lambda>d. \<not> purged (undo_block h l) k f (undo_dispenser h (l_undo l) d))
          (filter (\<lambda>d. d_tx d \<notin> block_txs h l) (l_dispensers l))
      = filter (\<lambda>d. \<not> purged l k f d) (filter (\<lambda>d. d_tx d \<notin> block_txs h l) (l_dispensers l))"
    by (rule filter_cong) (use purged_undo_dispenser[OF assms] in auto)
  then show "l_dispensers (undo_block h ?p) = l_dispensers (purge_dispensers k f (undo_block h l))"
    unfolding undo_block_parts(4) ids
    by (simp add: undo_block_parts(4) purge_dispensers_def filter_map comp_def conj_commute)
qed (simp_all add: undo_block_parts purge_dispensers_def block_txs_def)

lemma purge_sound:
  assumes "sound_below h l"
  shows "sound_below h (purge_dispensers k f l)" "sound_below h (purge_undo k l)"
proof -
  have "distinct (map (\<lambda>d. (d_tx d, d_addr d)) (filter P (l_dispensers l)))" for P
    using assms by (simp add: sound_below_def ledger_wf_def distinct_map_filter)
  then show "sound_below h (purge_dispensers k f l)" "sound_below h (purge_undo k l)"
    using assms
    by (auto simp: sound_below_def below_height_def ledger_wf_def purge_dispensers_def purge_undo_def)
qed

lemma variants_sound: "l' \<in> purge_variants k f l \<Longrightarrow> sound_below h l \<Longrightarrow> sound_below h l'"
  by (auto simp: purge_variants_def intro: purge_sound split: if_splits)

lemma variants_undone:
  assumes "l' \<in> purge_variants k f l" "ledger_wf l" "k < int h"
  shows "undo_block h l' \<in> purge_variants k f (undo_block h l)"
proof (cases "k < 0")
  case False
  with assms(3) have "nat k < h" by linarith
  with assms False show ?thesis
    using undo_purge_commute[of l "nat k" h f] undo_purge_dispensers[of l "nat k" h f]
    by (auto simp: purge_variants_def)
qed (use assms in \<open>simp add: purge_variants_def\<close>)

lemma after_block_undone:
  assumes after: "after_block env T h now w" and sound: "sound_below h (tb_ledger T)" and low: "purge_height env h < int h"
  shows "db_saved (w_db w) = None" "sound_below (Suc h) (session_ledger (w_db w))"
    "\<exists>f. undo_block h (session_ledger (w_db w)) \<in> purge_variants (purge_height env h) f (tb_ledger T)"
proof -
  obtain l where l: "(ledger_step h)\<^sup>*\<^sup>* (tb_ledger T) l"
      "session_ledger (w_db w) \<in> purge_variants (purge_height env h) (purgeGraceFloor (store_network env) now) l"
    using after by (auto simp: after_block_def committed_def)
  show "db_saved (w_db w) = None" using after by (simp add: after_block_def committed_def)
  have snd: "sound_below (Suc h) l"
    using l(1) sound_below_Suc[OF sound] by (induction) (auto intro: ledger_step_below)
  then show "sound_below (Suc h) (session_ledger (w_db w))" using variants_sound[OF l(2)] by simp
  have "undo_block h l = tb_ledger T" using ledger_log.block_undone[OF sound l(1)] .
  with variants_undone[OF l(2) _ low] snd
  show "\<exists>f. undo_block h (session_ledger (w_db w)) \<in> purge_variants (purge_height env h) f (tb_ledger T)"
    by (auto simp: sound_below_def)
qed

lemma purge_height_below: "purge_height env h < int h"
  by (simp add: purge_height_def DISPENSER_EXPIRE_SAFE_DEPTH_def)

text \<open>The two facts about \<open>storeBlock\<close> in terms of the state it ran from.\<close>

lemma store_block_undone:
  assumes run: "storeBlock env block h hash prev w = (r, w')"
    and idle: "db_saved (w_db w) = None" "lp_blocksQuantity (w_loop w) = 0" and r: "r \<noteq> Inr Finished"
  shows "db_tables (roll_back (w_db w')) = db_tables (w_db w)"
proof -
  let ?T = "db_tables (w_db w)"
  have pre: "ended ?T (w_db w) \<and> lp_blocksQuantity (w_loop w) = 0" using idle by (simp add: ended_def)
  show ?thesis
  proof (cases r)
    case (Inl e)
    with triple_Inl[OF triple_store[of ?T], OF pre] run have "over ?T w'" by blast
    then show ?thesis using over_undone by (auto simp: undone_def)
  next
    case (Inr d)
    with triple_Inr[OF triple_store[of ?T], OF pre] run obtain now where "outcome env ?T h now d w'" by blast
    then show ?thesis
      using r Inr over_undone by (cases d) (auto simp: undone_def)
  qed
qed

lemma store_block_finished:
  assumes "storeBlock env block h hash prev w = (Inr Finished, w')"
    and "db_saved (w_db w) = None" "lp_blocksQuantity (w_loop w) = 0"
  shows "\<exists>now. after_block env (db_tables (w_db w)) h now w'"
  using triple_Inr[OF triple_store[of "db_tables (w_db w)"] _ assms(1)] assms(2,3) by (auto simp: ended_def)

end
