(* ===== verification/Sync_Logic.thy ===== *)
theory Sync_Logic
  imports Sync_Loop Reorg_Result Block_Outcome
begin

text \<open>
  Hoare triples for the steps of the parse loop.  A triple says nothing of a step that never returns;
  the throw's error is part of what holds after it.
\<close>

section \<open>Triples\<close>

definition sy_triple ::
    "(sync_state \<Rightarrow> bool) \<Rightarrow> 'a sync \<Rightarrow> ('a \<Rightarrow> sync_state \<Rightarrow> bool) \<Rightarrow> (sync_error \<Rightarrow> sync_state \<Rightarrow> bool) \<Rightarrow> bool" where
  "sy_triple P m Q E \<longleftrightarrow>
     (\<forall>s r t. P s \<longrightarrow> m s = Some (r, t) \<longrightarrow> (case r of Inl e \<Rightarrow> E e t | Inr x \<Rightarrow> Q x t))"

lemma sy_tripleI:
  "(\<And>s r t. P s \<Longrightarrow> m s = Some (r, t) \<Longrightarrow> (case r of Inl e \<Rightarrow> E e t | Inr x \<Rightarrow> Q x t)) \<Longrightarrow> sy_triple P m Q E"
  by (simp add: sy_triple_def)

lemma sy_triple_Inr: "sy_triple P m Q E \<Longrightarrow> P s \<Longrightarrow> m s = Some (Inr x, t) \<Longrightarrow> Q x t"
  unfolding sy_triple_def by fastforce

lemma sy_triple_Inl: "sy_triple P m Q E \<Longrightarrow> P s \<Longrightarrow> m s = Some (Inl e, t) \<Longrightarrow> E e t"
  unfolding sy_triple_def by fastforce

lemma sy_weaken:
  assumes "sy_triple P' m Q' E'" "\<And>s. P s \<Longrightarrow> P' s" "\<And>x s. Q' x s \<Longrightarrow> Q x s" "\<And>e s. E' e s \<Longrightarrow> E e s"
  shows "sy_triple P m Q E"
  using assms unfolding sy_triple_def by (fastforce split: sum.splits)

lemma sy_pre: "sy_triple P' m Q E \<Longrightarrow> (\<And>s. P s \<Longrightarrow> P' s) \<Longrightarrow> sy_triple P m Q E"
  by (erule sy_weaken)

lemma sy_triple_return: "(\<And>s. P s \<Longrightarrow> Q x s) \<Longrightarrow> sy_triple P (sy_return x) Q E"
  by (simp add: sy_triple_def sy_return_def)

lemma sy_triple_throw: "(\<And>s. P s \<Longrightarrow> E e s) \<Longrightarrow> sy_triple P (sy_throw e) Q E"
  by (simp add: sy_triple_def sy_throw_def)

lemma sy_triple_bind:
  "sy_triple P m R E \<Longrightarrow> (\<And>x. sy_triple (R x) (f x) Q E) \<Longrightarrow> sy_triple P (sy_bind m f) Q E"
  unfolding sy_triple_def sy_bind_def by (fastforce split: option.splits sum.splits)

lemma sy_triple_catch:
  "sy_triple P m Q E' \<Longrightarrow> (\<And>e. sy_triple (E' e) (h e) Q E) \<Longrightarrow> sy_triple P (sy_catch m h) Q E"
  unfolding sy_triple_def sy_catch_def by (fastforce split: option.splits sum.splits)

lemma sy_triple_get: "(\<And>s. P s \<Longrightarrow> Q (f s) s) \<Longrightarrow> sy_triple P (sy_get f) Q E"
  by (simp add: sy_triple_def sy_get_def)

lemma sy_triple_put: "(\<And>s. P s \<Longrightarrow> Q () (f s)) \<Longrightarrow> sy_triple P (sy_put f) Q E"
  by (simp add: sy_triple_def sy_put_def)

lemma sy_triple_if:
  "(b \<Longrightarrow> sy_triple P m Q E) \<Longrightarrow> (\<not> b \<Longrightarrow> sy_triple P m' Q E) \<Longrightarrow> sy_triple P (if b then m else m') Q E"
  by simp

lemma sy_triple_assume: "(c \<Longrightarrow> sy_triple P m Q E) \<Longrightarrow> sy_triple (\<lambda>s. P s \<and> c) m Q E"
  unfolding sy_triple_def by blast

lemma sy_bind_get:
  "(\<And>x. sy_triple (\<lambda>s. P s \<and> f s = x) (k x) Q E) \<Longrightarrow> sy_triple P (sy_bind (sy_get f) k) Q E"
  by (rule sy_triple_bind[where R = "\<lambda>x s. P s \<and> f s = x"]) (auto intro: sy_triple_get)

lemma sy_bind_put:
  "(\<And>s. P s \<Longrightarrow> R (f s)) \<Longrightarrow> sy_triple R (k ()) Q E \<Longrightarrow> sy_triple P (sy_bind (sy_put f) k) Q E"
  by (rule sy_triple_bind[where R = "\<lambda>_. R"]) (auto intro: sy_triple_put)

section \<open>Steps over the parts of the state\<close>

lemma on_world_result:
  assumes "on_world m s = Some (r, t)"
  obtains r' w where "m ((sy_world s)\<lparr>w_db := sy_db s\<rparr>) = (r', w)" "r = map_sum DbError id r'"
    "t = s\<lparr>sy_world := w, sy_run := (sy_run s)\<lparr>rw_db := w_db w\<rparr>\<rparr>"
  using assms by (auto simp: on_world_def split: prod.splits)

lemma sy_query_result:
  assumes "sy_query m s = Some (r, t)"
  obtains r' d where "m (sy_db s) = (r', d)" "r = map_sum DbError id r'"
    "t = s\<lparr>sy_world := (sy_world s)\<lparr>w_db := d\<rparr>, sy_run := (sy_run s)\<lparr>rw_db := d\<rparr>\<rparr>"
  using assms unfolding sy_query_def by (elim on_world_result) (auto simp: on_db_def split: prod.splits)

lemma sy_attempt_result:
  assumes "sy_attempt m s = Some (r, t)"
  obtains r' d where "m (sy_db s) = (r', d)" "t = s\<lparr>sy_run := (sy_run s)\<lparr>rw_db := d\<rparr>\<rparr>"
    "r = Inr (case r' of Inl _ \<Rightarrow> None | Inr x \<Rightarrow> Some x)"
  using assms unfolding sy_attempt_def on_run_def try_db_def by (auto split: prod.splits sum.splits)

lemma asking_result:
  "on_run (asking f) s = Some (r, t) \<longleftrightarrow>
     r = Inr (f (rw_tick (sy_run s))) \<and> t = s\<lparr>sy_run := (sy_run s)\<lparr>rw_tick := Suc (rw_tick (sy_run s))\<rparr>\<rparr>"
  by (auto simp: on_run_def asking_def)

text \<open>A predicate the number of calls does not change.\<close>

lemma sy_ask:
  assumes "\<And>s n. P s \<Longrightarrow> P (s\<lparr>sy_run := (sy_run s)\<lparr>rw_tick := n\<rparr>\<rparr>)"
  shows "sy_triple P (on_run (asking f)) (\<lambda>x s. P s \<and> x \<in> range f) E"
  using assms by (intro sy_tripleI) (auto simp: asking_result)

lemma sy_clock:
  assumes "\<And>s n. P s \<Longrightarrow> P (s\<lparr>sy_run := (sy_run s)\<lparr>rw_tick := n\<rparr>\<rparr>)"
  shows "sy_triple P (clock env) (\<lambda>_. P) E"
  unfolding clock_def by (rule sy_weaken[OF sy_ask[of P]]) (use assms in auto)

lemmas sy_setters = set_park_def set_watch_def set_latch_def set_loop_def

lemma set_reorg_put: "set_reorg f = sy_put (\<lambda>s. s\<lparr>sy_run := f (sy_run s)\<rparr>)"
  by (simp add: set_reorg_def on_run_def set_run_def sy_put_def fun_eq_iff)

end
