(* ===== verification/Sync_Park.thy ===== *)
theory Sync_Park
  imports Sync_Logic
begin

text \<open>
  The park holds: while a halt that can be read stands in the database, or one that could not be
  recorded stands in the process, a parked loop changes no table; and a boot on a database whose halt
  left rolled-back blocks above the stored tip ends parked.
\<close>

section \<open>What the tables say\<close>

definition live_halt :: "tables \<Rightarrow> bool" where
  "live_halt T \<longleftrightarrow> hs_halted (halt_state_of (tb_events T))"

definition rolled_heights :: "tables \<Rightarrow> rat list option" where
  "rolled_heights T = heights_above (highest (stored_heights T)) (marker_rows (tb_events T))"

text \<open>Halted with blocks rolled back above the stored tip, or with a count that cannot be read.\<close>

definition condemned :: "tables \<Rightarrow> bool" where
  "condemned T \<longleftrightarrow> live_halt T \<and> rolled_heights T \<noteq> Some []"

lemma reads_ended: "reads_only m \<Longrightarrow> m s = (r, d) \<Longrightarrow> ended T s \<Longrightarrow> ended T d"
  by (auto simp: reads_only_def ended_def)

lemma marker_result:
  assumes "getReorgHaltMarker s = (r, d)" "ended T s"
  shows "ended T d \<and> (\<forall>m. r = Inr m \<longrightarrow> hs_halted m = live_halt T)"
  using assms
  by (auto simp: getReorgHaltMarker_def db_bind_def db_return_def ended_def live_halt_def readReorgHaltState_def
      dest: sql_query_keeps sql_query_Inr split: prod.splits sum.splits)

lemma reads_count: "reads_only readRolledBackAboveTip"
  unfolding readRolledBackAboveTip_def by (intro reads_shape reads_operations)

lemma count_result:
  assumes "readRolledBackAboveTip s = (r, d)" "ended T s"
  obtains n where "r = Inr n" "ended T d" "n = Some 0 \<Longrightarrow> rolled_heights T = Some []"
proof -
  have "ended T d" using reads_ended[OF reads_count assms] .
  moreover from assms(1) obtain n where n: "r = Inr n"
    by (auto simp: readRolledBackAboveTip_def db_catch_def db_bind_def db_return_def split: prod.splits sum.splits)
  moreover have "rolled_heights T = Some []" if "n = Some 0"
  proof -
    from assms(1) n that have "countReorgDeletesAboveTip s = (Inr 0, d)"
      by (auto simp: readRolledBackAboveTip_def db_catch_def db_bind_def db_return_def split: prod.splits sum.splits)
    then obtain tip s1 rows s2 where *: "getLastBlockIndex s = (Inr tip, s1)"
        "sql_query (\<lambda>t. marker_rows (tb_events t)) s1 = (Inr rows, s2)" "heights_above tip rows = Some []"
      by (auto simp: countReorgDeletesAboveTip_def db_bind_Inr_iff db_return_def db_throw_def split: option.splits)
    have "tip = highest (stored_heights T)" "db_tables s1 = T"
      using *(1) assms(2) retry_read_Inr retry_read_keeps
      by (fastforce simp: getLastBlockIndex_def stored_heights_def ended_def)+
    with *(2,3) show ?thesis by (auto simp: rolled_heights_def dest: sql_query_Inr)
  qed
  ultimately show ?thesis using that by blast
qed

section \<open>A probe of the marker\<close>

text \<open>What a probe may change, on tables \<open>T\<close>.\<close>

lemma probe_result:
  assumes run: "probe_marker now s = Some (r, t)" and T: "ended T (sy_db s)"
  shows "r = Inr () \<and> ended T (sy_db t) \<and> sy_world t = sy_world s \<and> hp_parked (sy_park t) = hp_parked (sy_park s)
    \<and> hp_unread (sy_park t) = hp_unread (sy_park s)
    \<and> (rw_markerPersisted (sy_run s) = Some False \<longrightarrow> rw_markerPersisted (sy_run t) = Some False \<or> live_halt T)
    \<and> (hp_probeFailed (sy_park t) = Some True \<and> rw_reorgHalted (sy_run t) = rw_reorgHalted (sy_run s)
       \<or> hp_probeFailed (sy_park t) = Some False
         \<and> rw_reorgHalted (sy_run t) =
             (live_halt T \<or> rw_reorgHalted (sy_run s) \<and> rw_markerPersisted (sy_run s) = Some False))"
proof -
  from run obtain a s1 where read: "sy_attempt getReorgHaltMarker s = Some (Inr a, s1)"
    by (auto simp: probe_marker_def sy_bind_def split: option.splits sum.splits elim!: sy_attempt_result)
  from read obtain r' d where d: "getReorgHaltMarker (sy_db s) = (r', d)" "s1 = s\<lparr>sy_run := (sy_run s)\<lparr>rw_db := d\<rparr>\<rparr>"
      "a = (case r' of Inl _ \<Rightarrow> None | Inr x \<Rightarrow> Some x)"
    by (auto elim: sy_attempt_result)
  note m = marker_result[OF d(1) T]
  show ?thesis
  proof (cases r')
    case (Inl e)
    with run read d m show ?thesis
      by (auto simp: probe_marker_def sy_bind_def sy_setters sy_put_def)
  next
    case (Inr x)
    with run read d m show ?thesis
      by (auto simp: probe_marker_def adopt_marker_def noteReorgHaltTransition_def sy_bind_def sy_setters sy_put_def
          sy_get_def set_reorg_put sy_return_def split: if_splits)
  qed
qed

lemma check_result:
  assumes run: "checkReorgHalt force now s = Some (r, t)" and T: "ended T (sy_db s)"
  shows "r = Inr (rw_reorgHalted (sy_run t)) \<and> (t = s \<and> \<not> force \<or> probe_marker now s = Some (Inr (), t))"
proof -
  have "u = ()" for u :: unit by simp
  with run probe_result[OF _ T, of now] show ?thesis
    by (fastforce simp: checkReorgHalt_def sy_bind_def sy_get_def sy_return_def split: option.splits sum.splits if_splits)
qed

section \<open>A parked loop\<close>

definition park_holds :: "tables \<Rightarrow> sync_state \<Rightarrow> bool" where
  "park_holds T s \<longleftrightarrow> ended T (sy_db s) \<and> hp_parked (sy_park s)
     \<and> (if hp_unread (sy_park s) then condemned T
        else rw_reorgHalted (sy_run s) \<and> (rw_markerPersisted (sy_run s) = Some False \<or> live_halt T))"

lemma clock_result: "clock env s = Some (r, t) \<Longrightarrow>
    \<exists>now. r = Inr now \<and> t = s\<lparr>sy_run := (sy_run s)\<lparr>rw_tick := Suc (rw_tick (sy_run s))\<rparr>\<rparr>"
  by (auto simp: clock_def asking_result)

lemma park_halt_result:
  assumes "parkOnReorgHalt env h unread s = Some (r, t)"
  shows "r = Inr () \<and> sy_world t = sy_world s \<and> sy_db t = sy_db s \<and> rw_reorgHalted (sy_run t) = rw_reorgHalted (sy_run s)
    \<and> rw_markerPersisted (sy_run t) = rw_markerPersisted (sy_run s)
    \<and> (if hp_parked (sy_park s) then t = s else hp_parked (sy_park t) \<and> hp_unread (sy_park t) = unread)"
  using assms
  by (auto simp: parkOnReorgHalt_def sy_bind_def sy_get_def sy_return_def sy_setters sy_put_def
      split: option.splits sum.splits if_splits dest!: clock_result)

text \<open>On a condemned database the park check parks, and the park holds.\<close>

lemma rolled_back_parks:
  assumes run: "parkOnRolledBackHalt env s = Some (r, t)" and T: "ended T (sy_db s)" "condemned T"
    and s: "\<not> hp_parked (sy_park s)" "hp_probeFailed (sy_park s) = Some True \<or> rw_reorgHalted (sy_run s)"
  shows "r = Inr True \<and> park_holds T t"
proof (cases "hp_probeFailed (sy_park s) = Some True")
  case True
  with run s T show ?thesis
    by (auto simp: parkOnRolledBackHalt_def sy_bind_def sy_get_def sy_return_def park_holds_def
        split: option.splits sum.splits dest!: park_halt_result)
next
  case False
  with run s obtain a s1 where q: "sy_query readRolledBackAboveTip s = Some (a, s1)"
    by (auto simp: parkOnRolledBackHalt_def sy_bind_def sy_get_def sy_return_def split: option.splits)
  then obtain r' d where d: "readRolledBackAboveTip (sy_db s) = (r', d)" "a = map_sum DbError id r'"
      "s1 = s\<lparr>sy_world := (sy_world s)\<lparr>w_db := d\<rparr>, sy_run := (sy_run s)\<lparr>rw_db := d\<rparr>\<rparr>"
    by (elim sy_query_result)
  obtain n where n: "r' = Inr n" "ended T d" "n \<noteq> Some 0"
    using count_result[OF d(1) T(1)] T(2) by (metis condemned_def)
  with run s False q d T show ?thesis
    by (auto simp: parkOnRolledBackHalt_def sy_bind_def sy_get_def sy_return_def park_holds_def condemned_def
        split: option.splits sum.splits dest!: park_halt_result)
qed

lemma unread_stays:
  assumes run: "resumeFromUnreadPark env s = Some (r, t)" and held: "park_holds T s" "hp_unread (sy_park s)"
  shows "r = Inr False \<and> park_holds T t"
proof -
  have T: "condemned T" "live_halt T" "ended T (sy_db s)" "hp_parked (sy_park s)"
    using held by (auto simp: park_holds_def condemned_def)
  obtain now where c: "clock env s = Some (Inr now, s\<lparr>sy_run := (sy_run s)\<lparr>rw_tick := Suc (rw_tick (sy_run s))\<rparr>\<rparr>)"
    by (auto simp: clock_def asking_result)
  let ?s1 = "s\<lparr>sy_run := (sy_run s)\<lparr>rw_tick := Suc (rw_tick (sy_run s))\<rparr>\<rparr>"
  show ?thesis
  proof (cases "0 < hp_unreadProbeAt (sy_park s) \<and> now - hp_unreadProbeAt (sy_park s) < UNREAD_PARK_REPROBE_MS")
    case True
    with run c held show ?thesis
      by (auto simp: resumeFromUnreadPark_def sy_bind_def sy_get_def sy_return_def park_holds_def)
  next
    case False
    let ?s2 = "?s1\<lparr>sy_park := (sy_park s)\<lparr>hp_unreadProbeAt := now\<rparr>\<rparr>"
    from run c False obtain a s3 where p: "checkReorgHalt True now ?s2 = Some (a, s3)"
      by (auto simp: resumeFromUnreadPark_def sy_bind_def sy_get_def sy_return_def sy_setters sy_put_def
          split: option.splits)
    have T2: "ended T (sy_db ?s2)" using T by simp
    note check = check_result[OF p T2]
    then have pr: "probe_marker now ?s2 = Some (Inr (), s3)" by simp
    note probe = probe_result[OF pr T2]
    show ?thesis
    proof (cases "hp_probeFailed (sy_park s3) = Some False")
      case no: False
      with run c False p check probe T held(2) show ?thesis
        by (auto simp: resumeFromUnreadPark_def sy_bind_def sy_get_def sy_return_def sy_setters sy_put_def park_holds_def)
    next
      case yes: True
      let ?s4 = "s3\<lparr>sy_park := (unpark (sy_park s3))\<lparr>hp_unreadProbeAt := 0, hp_unread := False\<rparr>\<rparr>"
      have "rw_reorgHalted (sy_run s3)" using probe yes T(2) by auto
      with run c False p check yes obtain b s5 where again: "parkOnRolledBackHalt env ?s4 = Some (b, s5)"
          and res: "Some (r, t) = (case b of Inl e \<Rightarrow> Some (Inl e, s5) | Inr x \<Rightarrow> sy_return (\<not> x) s5)"
        by (auto simp: resumeFromUnreadPark_def sy_bind_def sy_get_def sy_return_def sy_setters sy_put_def
            split: option.splits sum.splits)
      have "b = Inr True \<and> park_holds T s5"
        by (rule rolled_back_parks[OF again]) (use probe T \<open>rw_reorgHalted (sy_run s3)\<close> in \<open>auto simp: unpark_def\<close>)
      with res show ?thesis by (simp add: sy_return_def)
    qed
  qed
qed

lemma park_stays:
  assumes run: "resumeFromReorgHaltPark env s = Some (r, t)" and held: "park_holds T s"
  shows "r = Inr False \<and> park_holds T t"
proof (cases "hp_unread (sy_park s)")
  case True
  with run held have "resumeFromUnreadPark env s = Some (r, t)"
    by (auto simp: resumeFromReorgHaltPark_def sy_bind_def sy_get_def park_holds_def)
  from unread_stays[OF this held True] show ?thesis .
next
  case read: False
  show ?thesis
  proof (cases "rw_markerPersisted (sy_run s) = Some False")
    case True
    with run held read show ?thesis
      by (auto simp: resumeFromReorgHaltPark_def sy_bind_def sy_get_def sy_return_def park_holds_def)
  next
    case False
    let ?s1 = "s\<lparr>sy_run := (sy_run s)\<lparr>rw_tick := Suc (rw_tick (sy_run s))\<rparr>\<rparr>"
    obtain now where c: "clock env s = Some (Inr now, ?s1)"
      by (auto simp: clock_def asking_result)
    from run c False read held obtain a s3 where p: "checkReorgHalt False now ?s1 = Some (a, s3)"
      and res: "Some (r, t) = (case a of Inl e \<Rightarrow> Some (Inl e, s3) | Inr halted \<Rightarrow>
          (if halted then sy_return False else sy_bind (set_park unpark) (\<lambda>_. sy_return True)) s3)"
      by (auto simp: resumeFromReorgHaltPark_def sy_bind_def sy_get_def sy_return_def park_holds_def
          split: option.splits sum.splits)
    have T: "ended T (sy_db ?s1)" "live_halt T" using held read False by (auto simp: park_holds_def)
    note check = check_result[OF p T(1)]
    have "park_holds T s3"
      using check
    proof (elim conjE disjE)
      assume "s3 = ?s1"
      then show ?thesis using held by (simp add: park_holds_def)
    next
      assume pr: "probe_marker now ?s1 = Some (Inr (), s3)"
      show ?thesis
        using probe_result[OF pr T(1)] held T(2) read by (auto simp: park_holds_def)
    qed
    moreover have "rw_reorgHalted (sy_run s3)" "a = Inr (rw_reorgHalted (sy_run s3))"
      using check probe_result[OF _ T(1)] held read T(2) by (auto simp: park_holds_def)
    ultimately show ?thesis using res by (simp add: sy_return_def)
  qed
qed

lemma leave_stays:
  assumes "leaveReorgHaltPark env s = Some (r, t)" "park_holds T s"
  shows "r = Inr () \<and> park_holds T t"
  using assms
  by (auto simp: leaveReorgHaltPark_def sy_bind_def sy_return_def split: option.splits sum.splits dest!: park_stays)

text \<open>A pass that begins parked holds and changes nothing but the park itself.\<close>

lemma holds_loop:
  assumes run: "reorgHaltHoldsLoop env s = Some (r, t)" and held: "park_holds T s"
  shows "r = Inr True \<and> park_holds T t"
proof -
  have parked: "hp_parked (sy_park s)" using held by (simp add: park_holds_def)
  let ?s1 = "if hp_checkDue (sy_park s) then s\<lparr>sy_park := (sy_park s)\<lparr>hp_checkDue := False\<rparr>\<rparr> else s"
  have "park_holds T ?s1" "hp_parked (sy_park ?s1)" using held by (simp_all add: park_holds_def)
  moreover from run parked obtain a s2 where leave: "leaveReorgHaltPark env ?s1 = Some (a, s2)"
      and res: "Some (r, t) = (case a of Inl e \<Rightarrow> Some (Inl e, s2) | Inr x \<Rightarrow> sy_return True s2)"
    by (auto simp: reorgHaltHoldsLoop_def sy_bind_def sy_get_def sy_return_def sy_setters sy_put_def
        parkOnRolledBackHalt_def split: option.splits if_splits)
  ultimately show ?thesis using leave_stays[OF leave] by (simp add: sy_return_def)
qed

lemma parked_pass:
  assumes run: "loop_pass env s = Some (r, t)" and held: "park_holds T s"
  shows "r = Inr () \<and> park_holds T t"
proof -
  obtain now where c: "clock env s = Some (Inr now, s\<lparr>sy_run := (sy_run s)\<lparr>rw_tick := Suc (rw_tick (sy_run s))\<rparr>\<rparr>)"
    by (auto simp: clock_def asking_result)
  let ?s2 = "s\<lparr>sy_run := (sy_run s)\<lparr>rw_tick := Suc (rw_tick (sy_run s))\<rparr>,
    sy_watch := (sy_watch s)\<lparr>nw_polledAt := now\<rparr>\<rparr>"
  from run c obtain a s3 where h: "reorgHaltHoldsLoop env ?s2 = Some (a, s3)"
    by (auto simp: loop_pass_def sy_bind_def sy_setters sy_put_def split: option.splits)
  have "park_holds T ?s2" using held by (simp add: park_holds_def)
  from holds_loop[OF h this] run c h show ?thesis
    by (auto simp: loop_pass_def sy_bind_def sy_setters sy_put_def sy_return_def)
qed

lemma parked_run: "loop_run env s u \<Longrightarrow> park_holds T s \<Longrightarrow> park_holds T u"
  by (induction rule: loop_run.induct) (auto dest: parked_pass)

section \<open>Booting on a condemned database\<close>

lemma on_run_quiet: "stays quiet m \<Longrightarrow> on_run m s = Some (r, t) \<Longrightarrow>
    quiet (sy_run s) (sy_run t) \<and> t = s\<lparr>sy_run := sy_run t\<rparr>"
  by (auto simp: on_run_def stays_def split: prod.splits)

lemma genesis_frame:
  assumes "on_run (verifyChainGenesis cfg node) s = Some (r, t)"
  shows "t = s\<lparr>sy_run := sy_run t\<rparr> \<and> sy_db t = sy_db s"
  using assms
  by (auto simp: on_run_def verifyChainGenesis_def db_bind_def db_return_def asking_def set_run_def
      split: prod.splits if_splits hash_answer.splits)

lemma cursors_frame:
  assumes "readLoopCursors env s = Some (r, t)" "ended T (sy_db s)"
  shows "ended T (sy_db t) \<and> sy_park t = sy_park s \<and> rw_reorgHalted (sy_run t) = rw_reorgHalted (sy_run s)"
  using assms
  by (auto simp: readLoopCursors_def sy_bind_def sy_put_def getLastBlockIndex_def getLastTxIndex_def
      split: option.splits sum.splits elim!: sy_query_result dest!: reads_ended[OF reads_retry])

theorem boot_parks:
  assumes run: "bootDecoder env s = Some (Inr (), t)" and T: "ended T (sy_db s)" "condemned T"
    and fresh: "\<not> hp_parked (sy_park s)"
  shows "park_holds T t"
proof -
  have live: "live_halt T" using T by (simp add: condemned_def)
  from run obtain b s1 where g: "on_run (verifyChainGenesis (sv_reorg env) (sv_node env)) s = Some (b, s1)"
    by (auto simp: bootDecoder_def refuseForeignChain_def sy_bind_def split: option.splits)
  note s1 = genesis_frame[OF g]
  obtain now where c: "clock env s1 = Some (Inr now, s1\<lparr>sy_run := (sy_run s1)\<lparr>rw_tick := Suc (rw_tick (sy_run s1))\<rparr>\<rparr>)"
    by (auto simp: clock_def asking_result)
  let ?s2 = "s1\<lparr>sy_run := (sy_run s1)\<lparr>rw_tick := Suc (rw_tick (sy_run s1))\<rparr>\<rparr>"
  have T2: "ended T (sy_db ?s2)" using s1 T by simp
  have boot: "refuseForeignChain env s = Some (Inr (), s1)"
    using run g by (auto simp: bootDecoder_def refuseForeignChain_def sy_bind_def sy_return_def sy_throw_def
        split: option.splits sum.splits if_splits)
  from run boot c obtain a s3 where p: "checkReorgHalt True now ?s2 = Some (a, s3)"
    by (auto simp: bootDecoder_def sy_bind_def split: option.splits)
  note check = check_result[OF p T2]
  then have pr: "probe_marker now ?s2 = Some (Inr (), s3)" by simp
  note probe = probe_result[OF pr T2]
  from run boot c p check obtain a4 s4 where k: "readLoopCursors env s3 = Some (Inr a4, s4)"
    by (auto simp: bootDecoder_def sy_bind_def split: option.splits sum.splits)
  note s4 = cursors_frame[OF k, of T]
  let ?s5 = "s4\<lparr>sy_world := (sy_world s4)\<lparr>w_loop := fresh_loop (w_loop (sy_world s4))\<rparr>, sy_latch := initialLoopLatches,
    sy_park := (sy_park s4)\<lparr>hp_checkDue := False\<rparr>\<rparr>"
  from run boot c p check k obtain a6 s6 where q: "parkOnRolledBackHalt env ?s5 = Some (a6, s6)"
      and res: "Some (Inr (), t) = (case a6 of Inl e \<Rightarrow> Some (Inl e, s6) | Inr x \<Rightarrow> sy_return () s6)"
    by (auto simp: bootDecoder_def sy_bind_def sy_setters sy_put_def split: option.splits)
  have park: "sy_park s1 = sy_park s" by (subst s1[THEN conjunct1]) simp
  have "a6 = Inr True \<and> park_holds T s6"
    by (rule rolled_back_parks[OF q]) (use probe s4 T live fresh park in auto)
  with res show ?thesis by (simp add: sy_return_def)
qed

end
