(* ===== verification/Sync_Keeps.thy ===== *)
theory Sync_Keeps
  imports Sync_Park
begin

text \<open>
  What a step keeps whether it returns or throws.  Two predicates are carried through a pass: tables and
  a refused node (\<open>shut\<close>), and a cursor above the stored tip (\<open>stranded\<close>).
\<close>

section \<open>Keeping a predicate\<close>

definition sy_keeps :: "(sync_state \<Rightarrow> bool) \<Rightarrow> 'a sync \<Rightarrow> bool" where
  "sy_keeps P m \<longleftrightarrow> sy_triple P m (\<lambda>_. P) (\<lambda>_. P)"

lemma sy_keepsI: "(\<And>s r t. P s \<Longrightarrow> m s = Some (r, t) \<Longrightarrow> P t) \<Longrightarrow> sy_keeps P m"
  by (auto simp: sy_keeps_def intro!: sy_tripleI split: sum.split)

lemma sy_keepsD: "sy_keeps P m \<Longrightarrow> P s \<Longrightarrow> m s = Some (r, t) \<Longrightarrow> P t"
  unfolding sy_keeps_def sy_triple_def by (fastforce split: sum.splits)

lemma keeps_return: "sy_keeps P (sy_return x)" and keeps_throw: "sy_keeps P (sy_throw e)"
  and keeps_get: "sy_keeps P (sy_get f)"
  by (auto intro: sy_keepsI simp: sy_return_def sy_throw_def sy_get_def)

lemma keeps_put: "(\<And>s. P s \<Longrightarrow> P (f s)) \<Longrightarrow> sy_keeps P (sy_put f)"
  by (auto intro: sy_keepsI simp: sy_put_def)

lemma keeps_bind: "sy_keeps P m \<Longrightarrow> (\<And>x. sy_keeps P (f x)) \<Longrightarrow> sy_keeps P (sy_bind m f)"
  unfolding sy_keeps_def by (rule sy_triple_bind)

lemma keeps_catch: "sy_keeps P m \<Longrightarrow> (\<And>e. sy_keeps P (h e)) \<Longrightarrow> sy_keeps P (sy_catch m h)"
  unfolding sy_keeps_def by (rule sy_triple_catch)

lemma keeps_if: "(b \<Longrightarrow> sy_keeps P m) \<Longrightarrow> (\<not> b \<Longrightarrow> sy_keeps P m') \<Longrightarrow> sy_keeps P (if b then m else m')"
  by simp

lemmas keeps_shape = keeps_return keeps_throw keeps_get keeps_bind keeps_catch keeps_if

lemma keeps_ask: "(\<And>s n. P s \<Longrightarrow> P (s\<lparr>sy_run := (sy_run s)\<lparr>rw_tick := n\<rparr>\<rparr>)) \<Longrightarrow> sy_keeps P (on_run (asking f))"
  by (auto intro!: sy_keepsI simp: asking_result)

lemma keeps_clock: "(\<And>s n. P s \<Longrightarrow> P (s\<lparr>sy_run := (sy_run s)\<lparr>rw_tick := n\<rparr>\<rparr>)) \<Longrightarrow> sy_keeps P (clock env)"
  unfolding clock_def by (rule keeps_ask)

lemma keeps_attempt:
  assumes "reads_only m" "\<And>s d. P s \<Longrightarrow> db_tables d = db_tables (sy_db s) \<Longrightarrow> db_saved d = db_saved (sy_db s) \<Longrightarrow>
      P (s\<lparr>sy_run := (sy_run s)\<lparr>rw_db := d\<rparr>\<rparr>)"
  shows "sy_keeps P (sy_attempt m)"
  using assms by (auto intro!: sy_keepsI elim!: sy_attempt_result simp: reads_only_def)

lemma keeps_query:
  assumes "reads_only m" "\<And>s d. P s \<Longrightarrow> db_tables d = db_tables (sy_db s) \<Longrightarrow> db_saved d = db_saved (sy_db s) \<Longrightarrow>
      P (s\<lparr>sy_world := (sy_world s)\<lparr>w_db := d\<rparr>, sy_run := (sy_run s)\<lparr>rw_db := d\<rparr>\<rparr>)"
  shows "sy_keeps P (sy_query m)"
  using assms by (auto intro!: sy_keepsI elim!: sy_query_result simp: reads_only_def)

lemma genesis_result:
  assumes "on_run (verifyChainGenesis cfg node) s = Some (r, t)"
  shows "\<exists>b v. r = Inr b \<and> t = s\<lparr>sy_run := v\<rparr> \<and> rw_db v = sy_db s"
proof -
  have "\<exists>b. r = Inr b"
    using assms by (auto simp: on_run_def verifyChainGenesis_def db_bind_def db_return_def asking_def set_run_def
      split: prod.splits if_splits hash_answer.splits)
  with genesis_frame[OF assms] show ?thesis by blast
qed

lemma keeps_genesis:
  assumes "\<And>s v. P s \<Longrightarrow> rw_db v = sy_db s \<Longrightarrow> P (s\<lparr>sy_run := v\<rparr>)"
  shows "sy_keeps P (on_run (verifyChainGenesis cfg node))"
  by (rule sy_keepsI) (metis assms genesis_frame)

lemma reads_marker: "reads_only getReorgHaltMarker"
  unfolding getReorgHaltMarker_def by (intro reads_bind reads_operations reads_return)

section \<open>A refused node\<close>

definition shut :: "tables \<Rightarrow> chain_info option \<Rightarrow> sync_state \<Rightarrow> bool" where
  "shut T i s \<longleftrightarrow> ended T (sy_db s) \<and> la_info (sy_latch s) = i"

lemma shut_parts [simp]:
  "shut T i (s\<lparr>sy_park := p\<rparr>) = shut T i s" "shut T i (s\<lparr>sy_watch := n\<rparr>) = shut T i s"
  "shut T i (s\<lparr>sy_world := w\<rparr>) = shut T i s"
  "shut T i (s\<lparr>sy_run := (sy_run s)\<lparr>rw_tick := k\<rparr>\<rparr>) = shut T i s"
  by (simp_all add: shut_def)

lemma shut_set: "sy_keeps (shut T i) (set_park f)" "sy_keeps (shut T i) (set_watch g)" "sy_keeps (shut T i) (set_loop h)"
  by (auto simp: sy_setters intro!: keeps_put)

lemma shut_reorg: "(\<And>w. rw_db (f w) = rw_db w) \<Longrightarrow> sy_keeps (shut T i) (set_reorg f)"
  by (auto simp: set_reorg_put shut_def intro!: keeps_put)

lemma shut_latch: "(\<And>l. la_info l = i \<Longrightarrow> la_info (f l) = i) \<Longrightarrow> sy_keeps (shut T i) (set_latch f)"
  by (auto simp: sy_setters shut_def intro!: keeps_put)

lemma shut_attempt: "reads_only m \<Longrightarrow> sy_keeps (shut T i) (sy_attempt m)"
  and shut_query: "reads_only m \<Longrightarrow> sy_keeps (shut T i) (sy_query m)"
  by (auto simp: shut_def ended_def intro!: keeps_attempt keeps_query)

lemma shut_genesis: "sy_keeps (shut T i) (on_run (verifyChainGenesis cfg node))"
  by (rule keeps_genesis) (simp add: shut_def)

lemma shut_ask: "sy_keeps (shut T i) (on_run (asking f))" and shut_clock: "sy_keeps (shut T i) (clock env)"
  by (auto intro: keeps_ask keeps_clock)

lemma reset_ended:
  assumes "reset_cursors start w = (r, w')" "ended T (w_db w)"
  shows "ended T (w_db w')"
  using triple_reset[of T start] assms unfolding triple_def over_def by (fastforce split: sum.splits)

lemma shut_cursors: "sy_keeps (shut T i) (on_world (reset_cursors start))"
  by (auto intro!: sy_keepsI elim!: on_world_result dest!: reset_ended simp: shut_def)

lemmas shut_steps = shut_set shut_reorg shut_latch shut_attempt shut_query shut_genesis shut_ask shut_clock shut_cursors
  reads_marker reads_count

lemma shut_check: "sy_keeps (shut T i) (checkReorgHalt force now)"
  unfolding checkReorgHalt_def probe_marker_def adopt_marker_def noteReorgHaltTransition_def
  by (auto intro!: keeps_shape shut_steps split: option.split)

lemma shut_park: "sy_keeps (shut T i) (parkOnRolledBackHalt env)"
  unfolding parkOnRolledBackHalt_def parkOnReorgHalt_def
  by (auto intro!: keeps_shape shut_steps split: prod.split)

lemma shut_held: "sy_keeps (shut T None) (reorgHaltHoldsLoop env)"
  unfolding reorgHaltHoldsLoop_def leaveReorgHaltPark_def resumeFromReorgHaltPark_def resumeFromUnreadPark_def
  by (auto intro!: keeps_shape shut_steps shut_check shut_park split: prod.split)

text \<open>An answer of the node that no gate lets through.\<close>

definition refused :: "sync_env \<Rightarrow> info_answer \<Rightarrow> bool" where
  "refused env a \<longleftrightarrow>
     (case a of
        Info info chain \<Rightarrow> \<not> blockchainInfoWellFormed (Some info) \<or> chainTierMismatch (store_network (sv_base env)) chain
          \<or> unsynced info
      | _ \<Rightarrow> True)"

text \<open>The gates, one after the other, on an answer that one of them refuses.\<close>

lemma gates_refuse:
  assumes run: "past_gates env info chain s = Some (r, t)" and T: "ended T (sy_db s)"
    and no: "chainTierMismatch (store_network (sv_base env)) chain \<or> unsynced info"
  shows "r = Inr True \<and> shut T None t"
proof (cases "chainTierMismatch (store_network (sv_base env)) chain")
  case True
  with run T show ?thesis
    by (auto simp: past_gates_def refuseForeignTier_def sy_bind_def sy_setters sy_put_def sy_return_def shut_def)
next
  case False
  then have far: "unsynced info" using no by simp
  have past: "\<exists>s1 b. past_gates env info chain s = sy_bind (if b then refuseForeignGenesis env else sy_return False)
      (\<lambda>foreign. if foreign then sy_return True else sy_bind (refuseUnsyncedNode info)
         (\<lambda>behind. if behind then sy_return True else take_tip env info)) s1 \<and> ended T (sy_db s1)"
    using False T
    by (auto simp: past_gates_def refuseForeignTier_def noteMissingChainField_def genesis_due_def clock_def on_run_def
        asking_def sy_bind_def sy_setters sy_put_def sy_return_def sy_get_def intro!: exI)
  then obtain s1 b where s1: "past_gates env info chain s = sy_bind (if b then refuseForeignGenesis env else sy_return False)
      (\<lambda>foreign. if foreign then sy_return True else sy_bind (refuseUnsyncedNode info)
         (\<lambda>behind. if behind then sy_return True else take_tip env info)) s1" "ended T (sy_db s1)" by blast
  have "sy_triple (\<lambda>s. ended T (sy_db s)) (refuseForeignGenesis env) (\<lambda>x s. ended T (sy_db s) \<and> (x \<longrightarrow> shut T None s)) (\<lambda>_ _. False)"
    by (intro sy_tripleI)
      (auto simp: refuseForeignGenesis_def sy_bind_def sy_setters sy_put_def sy_return_def shut_def
        split: option.splits sum.splits if_splits dest!: genesis_result)
  then have foreign: "sy_triple (\<lambda>s. ended T (sy_db s)) (if b then refuseForeignGenesis env else sy_return False)
      (\<lambda>x s. ended T (sy_db s) \<and> (x \<longrightarrow> shut T None s)) (\<lambda>_ _. False)"
    by (auto intro: sy_triple_return)
  have "sy_triple (\<lambda>s. ended T (sy_db s) \<and> (x \<longrightarrow> shut T None s))
      (if x then sy_return True else sy_bind (refuseUnsyncedNode info)
         (\<lambda>behind. if behind then sy_return True else take_tip env info)) (\<lambda>x s. x \<and> shut T None s) (\<lambda>_ _. False)" for x
    using far by (cases x; intro sy_tripleI)
      (auto simp: refuseUnsyncedNode_def sy_bind_def sy_setters sy_put_def sy_return_def shut_def)
  from sy_triple_bind[OF foreign this] run s1 show ?thesis
    unfolding sy_triple_def by (fastforce split: sum.splits)
qed

lemma tip_refused:
  assumes run: "fetchChainTip env s = Some (r, t)" and held: "shut T None s"
    and no: "\<And>k. refused env (cn_info (sv_node env) k)"
  shows "r = Inr True \<and> shut T None t"
proof -
  let ?s1 = "s\<lparr>sy_run := (sy_run s)\<lparr>rw_tick := Suc (rw_tick (sy_run s))\<rparr>\<rparr>"
  have T: "ended T (sy_db ?s1)" using held by (simp add: shut_def)
  show ?thesis
  proof (cases "cn_info (sv_node env) (rw_tick (sy_run s))")
    case (Info info chain)
    show ?thesis
    proof (cases "blockchainInfoWellFormed (Some info)")
      case True
      let ?s2 = "?s1\<lparr>sy_latch := (sy_latch s)\<lparr>la_info := Some info\<rparr>\<rparr>"
      have "past_gates env info chain ?s2 = Some (r, t)"
        using run Info True by (simp add: fetchChainTip_def sy_bind_def on_run_def asking_def sy_setters sy_put_def)
      from gates_refuse[OF this] T no[of "rw_tick (sy_run s)"] True Info show ?thesis by (simp add: refused_def)
    next
      case False
      with run Info T show ?thesis
        by (auto simp: fetchChainTip_def sy_bind_def on_run_def asking_def sy_setters sy_put_def sy_return_def shut_def)
    qed
  qed (use run held T in \<open>auto simp: fetchChainTip_def sy_bind_def on_run_def asking_def sy_setters sy_put_def
      sy_return_def shut_def\<close>)
qed

lemma shut_pass:
  assumes run: "loop_pass env s = Some (r, t)" and held: "shut T None s"
    and no: "\<And>k. refused env (cn_info (sv_node env) k)"
  shows "shut T None t"
proof -
  have refresh: "r = Inr True \<and> shut T None t" if "refreshChainTip env s = Some (r, t)" "shut T None s" for r s t
  proof -
    from that(1) obtain a s1 where f: "fetchChainTip env s = Some (a, s1)"
      by (auto simp: refreshChainTip_def sy_bind_def sy_get_def split: option.splits)
    from tip_refused[OF f that(2) no] f that(1) show ?thesis
      by (auto simp: refreshChainTip_def sy_bind_def sy_get_def sy_return_def)
  qed
  have tip: "sy_triple (\<lambda>s. shut T None s \<and> due) (if due then refreshChainTip env else sy_return False)
      (\<lambda>ends s. ends \<and> shut T None s) (\<lambda>_. shut T None)" for due
    by (intro sy_tripleI) (auto dest!: refresh)
  have due: "sy_triple (shut T None) (tip_due env) (\<lambda>due s. shut T None s \<and> due) (\<lambda>_. shut T None)"
    by (intro sy_tripleI) (auto simp: tip_due_def sy_bind_def sy_get_def sy_return_def shut_def)
  have rest: "sy_triple (\<lambda>s. shut T None s) (sy_bind (tip_due env) (\<lambda>due.
      sy_bind (if due then refreshChainTip env else sy_return False) (\<lambda>ends.
        if ends then sy_return () else parse_or_wait env))) (\<lambda>_. shut T None) (\<lambda>_. shut T None)"
    by (rule sy_triple_bind[OF due], rule sy_triple_bind[OF tip])
      (auto simp: sy_triple_def sy_return_def)
  then have "sy_keeps (shut T None) (sy_bind (tip_due env) (\<lambda>due.
      sy_bind (if due then refreshChainTip env else sy_return False) (\<lambda>ends.
        if ends then sy_return () else parse_or_wait env)))" by (simp add: sy_keeps_def)
  then have "sy_keeps (shut T None) (loop_pass env)"
    unfolding loop_pass_def by (auto intro!: keeps_shape shut_steps shut_held)
  from sy_keepsD[OF this held run] show ?thesis .
qed

lemma shut_run: "loop_run env s u \<Longrightarrow> shut T None s \<Longrightarrow> (\<And>k. refused env (cn_info (sv_node env) k)) \<Longrightarrow> shut T None u"
  by (induction rule: loop_run.induct) (auto dest: shut_pass)

lemma shut_boot:
  assumes run: "bootDecoder env s = Some (r, t)" and T: "ended T (sy_db s)"
  shows "ended T (sy_db t) \<and> (r = Inr () \<longrightarrow> shut T None t)"
proof -
  let ?i = "la_info (sy_latch s)"
  let ?E = "\<lambda>_ s. ended T (sy_db s)"
  have from_keeps: "sy_triple (shut T i) m (\<lambda>_. shut T i) ?E" if "sy_keeps (shut T i) m" for i and m :: "'a sync"
    using that unfolding sy_keeps_def by (rule sy_weaken) (simp_all add: shut_def)
  have chain: "sy_keeps (shut T i) (refuseForeignChain env)" for i
    unfolding refuseForeignChain_def by (auto intro!: keeps_shape shut_steps)
  have cursors: "sy_keeps (shut T i) (readLoopCursors env)" for i
    unfolding readLoopCursors_def getLastBlockIndex_def getLastTxIndex_def
    by (auto intro!: keeps_shape shut_steps reads_retry keeps_put)
  have latch: "sy_triple (shut T i) (set_latch (\<lambda>_. initialLoopLatches)) (\<lambda>_. shut T None) ?E" for i
    by (auto simp: sy_setters shut_def initialLoopLatches_def intro: sy_triple_put)
  have "sy_triple (shut T ?i) (bootDecoder env) (\<lambda>_. shut T None) ?E"
    unfolding bootDecoder_def
    by (intro sy_triple_bind[OF from_keeps[OF chain]] sy_triple_bind[OF from_keeps[OF shut_clock]]
        sy_triple_bind[OF from_keeps[OF shut_check]] sy_triple_bind[OF from_keeps[OF cursors]]
        sy_triple_bind[OF from_keeps[OF shut_set(3)]] sy_triple_bind[OF latch]
        sy_triple_bind[OF from_keeps[OF shut_set(1)]] sy_triple_bind[OF from_keeps[OF shut_park]] sy_triple_return)
  from this[unfolded sy_triple_def] have "case r of Inl e \<Rightarrow> ?E e t | Inr x \<Rightarrow> shut T None t"
    using run T by (simp add: shut_def)
  then show ?thesis by (cases r) (simp_all add: shut_def)
qed

end
