(* ===== verification/Sync_Stranded.thy ===== *)
theory Sync_Stranded
  imports Sync_Keeps
begin

text \<open>
  A cursor above the stored tip.  The reorg walk deletes block by block and may then refuse to go on
  (\<open>ReorgWait\<close>); the answer to that refusal leaves the loop's cursor where it was, above the tip the
  walk left.  While the node's tip is not below the cursor, the loop then finds no previous block for
  the next height and no stored block at its own, and never moves again.
\<close>

section \<open>Stranded passes\<close>

definition stranded :: "tables \<Rightarrow> int \<Rightarrow> reorg_wait option \<Rightarrow> sync_state \<Rightarrow> bool" where
  "stranded T c w s \<longleftrightarrow>
     ended T (sy_db s) \<and> cursor s = c \<and> 0 \<le> c \<and> nat c \<notin> set (stored_heights T)
     \<and> \<not> hp_parked (sy_park s) \<and> \<not> hp_checkDue (sy_park s) \<and> nw_reorgWait (sy_watch s) = w"

text \<open>The node serves a chain at least as high as the cursor, and its blocks decode.\<close>

definition node_reaches :: "sync_env \<Rightarrow> int \<Rightarrow> bool" where
  "node_reaches env c \<longleftrightarrow> (\<forall>k info chain. cn_info (sv_node env) k = Info info chain \<longrightarrow> c \<le> info_height info)"

definition blocks_decode :: "sync_env \<Rightarrow> bool" where
  "blocks_decode env \<longleftrightarrow> (\<forall>k how hash hex. sv_fetch env k how hash = FetchedHex hex \<longrightarrow> sv_decode env hex \<noteq> None)"

lemma stranded_parts [simp]:
  "stranded T c w (s\<lparr>sy_latch := l\<rparr>) = stranded T c w s"
  "stranded T c w (s\<lparr>sy_run := (sy_run s)\<lparr>rw_tick := k\<rparr>\<rparr>) = stranded T c w s"
  by (simp_all add: stranded_def cursor_def)

lemma stranded_latch: "sy_keeps (stranded T c w) (set_latch f)"
  by (auto simp: sy_setters intro!: keeps_put)

lemma stranded_watch: "(\<And>n. nw_reorgWait (f n) = nw_reorgWait n) \<Longrightarrow> sy_keeps (stranded T c w) (set_watch f)"
  by (auto simp: sy_setters stranded_def cursor_def intro!: keeps_put)

lemma stranded_attempt: "reads_only m \<Longrightarrow> sy_keeps (stranded T c w) (sy_attempt m)"
  by (auto simp: stranded_def cursor_def ended_def intro!: keeps_attempt)

lemma stranded_genesis: "sy_keeps (stranded T c w) (on_run (verifyChainGenesis cfg node))"
  by (rule keeps_genesis) (simp add: stranded_def cursor_def)

lemma stranded_ask: "sy_keeps (stranded T c w) (on_run (asking f))"
  and stranded_clock: "sy_keeps (stranded T c w) (clock env)"
  by (auto intro: keeps_ask keeps_clock)

lemma stranded_tip: "sy_keeps (stranded T c w) (take_tip env info)"
  unfolding take_tip_def
  by (auto simp: stranded_def cursor_def intro!: keeps_shape keeps_put stranded_clock stranded_latch stranded_watch)

lemma stranded_parse_error: "sy_keeps (stranded T c w) count_sync_parse_error"
  by (auto simp: count_sync_parse_error_def parse_error_counted_def modify_def stranded_def cursor_def
      intro!: sy_keepsI elim!: on_world_result)

lemmas stranded_steps = stranded_latch stranded_watch stranded_attempt stranded_genesis stranded_ask stranded_clock
  stranded_tip stranded_parse_error reads_operations

lemma stranded_fetch_tip: "sy_keeps (stranded T c w) (fetchChainTip env)"
  unfolding fetchChainTip_def past_gates_def refuseForeignTier_def noteMissingChainField_def genesis_due_def
    refuseForeignGenesis_def refuseUnsyncedNode_def
  by (auto intro!: keeps_shape stranded_steps split: info_answer.split)

text \<open>A tip that was taken over reaches the cursor.\<close>

lemma taken_tip:
  assumes "fetchChainTip env s = Some (Inr False, t)" "node_reaches env c"
  shows "c \<le> node_tip t"
proof -
  have take: "c \<le> node_tip t" if "take_tip env info s = Some (r, t)" "c \<le> info_height info" for info r s t
    using that by (auto simp: take_tip_def sy_bind_def sy_put_def sy_setters sy_return_def node_tip_def
        split: option.splits sum.splits dest!: clock_result)
  obtain info chain where i: "cn_info (sv_node env) (rw_tick (sy_run s)) = Info info chain"
    using assms(1) by (cases "cn_info (sv_node env) (rw_tick (sy_run s))")
      (auto simp: fetchChainTip_def sy_bind_def on_run_def asking_def sy_setters sy_put_def sy_return_def)
  have "\<exists>s1. take_tip env info s1 = Some (Inr False, t)"
    using assms(1) i
    by (auto simp: fetchChainTip_def past_gates_def sy_bind_def on_run_def asking_def sy_setters sy_put_def sy_return_def
        split: option.splits sum.splits if_splits) blast+
  moreover have "c \<le> info_height info" using i assms(2) by (auto simp: node_reaches_def)
  ultimately show ?thesis using take by blast
qed

lemma stranded_refresh:
  assumes reach: "node_reaches env c"
  shows "sy_keeps (stranded T c w) (refreshChainTip env)"
proof (rule sy_keepsI)
  fix s r t assume s: "stranded T c w s" and run: "refreshChainTip env s = Some (r, t)"
  then obtain a s1 where f: "fetchChainTip env s = Some (a, s1)"
    by (auto simp: refreshChainTip_def sy_bind_def sy_get_def split: option.splits)
  have s1: "stranded T c w s1" using sy_keepsD[OF stranded_fetch_tip s f] .
  have c: "cursor s = c" using s by (simp add: stranded_def)
  show "stranded T c w t"
  proof (cases "a = Inr False")
    case True
    have "c \<le> node_tip s1" using taken_tip[OF _ reach] f True by simp
    moreover have "stranded T c w (s1\<lparr>sy_watch := (sy_watch s1)\<lparr>nw_catchingUp := None\<rparr>\<rparr>)"
      using s1 by (simp add: stranded_def cursor_def)
    ultimately show ?thesis
      using run f True c by (auto simp: refreshChainTip_def sy_bind_def sy_get_def sy_return_def sy_setters sy_put_def)
  next
    case False
    with run f c s1 show ?thesis
      by (auto simp: refreshChainTip_def sy_bind_def sy_get_def sy_return_def split: sum.splits)
  qed
qed

text \<open>No block at the cursor can be read.\<close>

lemma no_block:
  assumes "getBlockByIndex h s = (r, d)" "h \<notin> set (stored_heights (db_tables s))"
  shows "r = Inr None \<or> (\<exists>e. r = Inl e)"
proof -
  have "find (\<lambda>r. b_index r = h) (l_blocks (tb_ledger (db_tables s))) = None"
    using assms(2) by (auto simp: stored_heights_def find_None_iff)
  with assms(1) show ?thesis
    by (cases r) (auto simp: getBlockByIndex_def dest: retry_read_Inr)
qed

lemma no_block_attempt:
  assumes "sy_attempt (getBlockByIndex (nat c)) s = Some (r, t)" "stranded T c w s"
  shows "r = Inr None \<or> r = Inr (Some None)"
  using assms by (auto simp: stranded_def ended_def elim!: sy_attempt_result dest!: no_block)

lemma stranded_detect:
  assumes "stranded T c w s" "int h = c + 1" "detectReorgAtBlock env h prev s = Some (r, t)"
  shows "r = Inr True \<and> stranded T c w t"
proof -
  have h: "h - Suc 0 = nat c" using assms(1,2) by (auto simp: stranded_def)
  from assms(3) obtain a s1 where a: "sy_attempt (getBlockByIndex (nat c)) s = Some (a, s1)"
    by (auto simp: detectReorgAtBlock_def sy_bind_def h split: option.splits)
  have "stranded T c w s1"
    by (rule sy_keepsD[OF stranded_attempt assms(1) a]) (simp add: getBlockByIndex_def reads_retry)
  with no_block_attempt[OF a assms(1)] a assms(3) show ?thesis
    by (auto simp: detectReorgAtBlock_def sy_bind_def sy_return_def h)
qed

lemma stranded_level: "sy_keeps (stranded T c w) (reconcileEqualHeightTip env)"
proof (rule sy_keepsI)
  fix s r t assume s: "stranded T c w s" and run: "reconcileEqualHeightTip env s = Some (r, t)"
  let ?s1 = "s\<lparr>sy_latch := (sy_latch s)\<lparr>la_tipHashAt := la_refreshedAt (sy_latch s)\<rparr>\<rparr>"
  let ?s2 = "?s1\<lparr>sy_run := (sy_run s)\<lparr>rw_tick := Suc (rw_tick (sy_run s))\<rparr>\<rparr>"
  have s2: "stranded T c w ?s2" using s by (simp add: stranded_def cursor_def)
  have c: "cursor ?s1 = c" "read_block c = getBlockByIndex (nat c)"
    using s by (simp_all add: stranded_def cursor_def read_block_def)
  show "stranded T c w t"
  proof (cases "\<exists>hash. cn_hash (sv_node env) (rw_tick (sy_run s)) c = HashText hash")
    case True
    then obtain hash where hash: "cn_hash (sv_node env) (rw_tick (sy_run s)) c = HashText hash" ..
    with run c obtain a s3 where a: "sy_attempt (getBlockByIndex (nat c)) ?s2 = Some (a, s3)"
      by (auto simp: reconcileEqualHeightTip_def sy_bind_def sy_setters sy_put_def sy_get_def on_run_def asking_def
          split: option.splits)
    have "stranded T c w s3"
      by (rule sy_keepsD[OF stranded_attempt s2 a]) (simp add: getBlockByIndex_def reads_retry)
    moreover have "t = s3"
      using no_block_attempt[OF a s2] run c hash a
      by (auto simp: reconcileEqualHeightTip_def sy_bind_def sy_setters sy_put_def sy_get_def on_run_def asking_def
          sy_return_def)
    ultimately show ?thesis by simp
  next
    case False
    then have "t = ?s2"
      using run c
      by (auto simp: reconcileEqualHeightTip_def sy_bind_def sy_setters sy_put_def sy_get_def on_run_def asking_def
          sy_return_def split: hash_answer.splits)
    with s2 show ?thesis by simp
  qed
qed

lemma stranded_fetch: "sy_keeps (stranded T c w) (fetchNextBlock env h)"
  unfolding fetchNextBlock_def fetchBlockHex_def fetch_failed_def Let_def
  by (auto intro!: keeps_shape stranded_steps split: hash_answer.split fetch_answer.split)

lemma fetched_decodes:
  assumes "blocks_decode env" "fetchNextBlock env h s = Some (Inr (Some (hash, hex)), t)"
  shows "sv_decode env hex \<noteq> None"
  using assms
  by (auto simp: blocks_decode_def fetchNextBlock_def fetchBlockHex_def Let_def sy_bind_def sy_setters sy_put_def sy_get_def
      on_run_def asking_def sy_return_def fetch_failed_def count_sync_parse_error_def
      split: option.splits sum.splits if_splits hash_answer.splits fetch_answer.splits)

lemma stranded_ingest:
  assumes start: "int (sv_start env) \<le> c" and decode: "blocks_decode env"
    and s: "stranded T c w s" and run: "ingestNextBlock env s = Some (r, t)"
  shows "stranded T c w t \<and> (r = Inr NextTx \<or> (\<exists>e. r = Inl e))"
proof -
  have behind: "sy_keeps (stranded T c w) note_behind"
    unfolding note_behind_def by (auto intro!: keeps_shape stranded_steps)
  from run obtain u s1 where b: "note_behind s = Some (u, s1)"
    by (auto simp: ingestNextBlock_def sy_bind_def split: option.splits)
  have s1: "stranded T c w s1" using sy_keepsD[OF behind s b] .
  have u: "u = Inr ()" using b by (auto simp: note_behind_def sy_bind_def sy_get_def sy_setters sy_put_def sy_return_def split: if_splits)
  have c: "cursor s1 = c" "0 \<le> c" using s1 by (simp_all add: stranded_def)
  from run b u c obtain f s2 where f: "fetchNextBlock env (c + 1) s1 = Some (f, s2)"
    by (auto simp: ingestNextBlock_def sy_bind_def sy_get_def split: option.splits)
  have s2: "stranded T c w s2" using sy_keepsD[OF stranded_fetch s1 f] .
  show ?thesis
  proof (cases "\<exists>hash hex. f = Inr (Some (hash, hex))")
    case False
    with run b u c f s2 show ?thesis
      by (auto simp: ingestNextBlock_def sy_bind_def sy_get_def sy_return_def split: sum.splits option.splits)
  next
    case True
    then obtain hash hex where f': "f = Inr (Some (hash, hex))" by blast
    obtain prevHash block where d: "sv_decode env hex = Some (prevHash, block)"
      using fetched_decodes[OF decode, of "c + 1" s1 hash hex s2] f f' by auto
    let ?h = "nat (c + 1)"
    have "sv_start env < ?h" "int ?h = c + 1" using start c by simp_all
    with run b u c f f' d obtain a s3
      where a: "detectReorgAtBlock env ?h (uint8ArrayToHex (rev prevHash)) s2 = Some (a, s3)"
      by (auto simp: ingestNextBlock_def ingest_block_def Let_def sy_bind_def sy_get_def split: option.splits)
    note det = stranded_detect[OF s2 \<open>int ?h = c + 1\<close> a]
    with run b u c f f' d a \<open>sv_start env < ?h\<close> show ?thesis
      by (auto simp: ingestNextBlock_def ingest_block_def Let_def sy_bind_def sy_get_def sy_return_def)
  qed
qed

lemma stranded_pass:
  assumes env: "int (sv_start env) \<le> c" "node_reaches env c" "blocks_decode env"
    and s: "stranded T c w s" and run: "loop_pass env s = Some (r, t)"
  shows "stranded T c w t"
proof -
  have wait: "sy_keeps (stranded T c w) (waitAtTip env)"
    unfolding waitAtTip_def by (auto intro!: keeps_shape stranded_steps stranded_level)
  have ingest: "sy_keeps (stranded T c w) (sy_bind (ingestNextBlock env) (\<lambda>d. if d = RollbackBlock
      then on_world (resetAfterRollback (sv_base env)) else sy_return ()))"
  proof (rule sy_keepsI)
    fix s r t assume "stranded T c w s" and run: "sy_bind (ingestNextBlock env) (\<lambda>d. if d = RollbackBlock
      then on_world (resetAfterRollback (sv_base env)) else sy_return ()) s = Some (r, t)"
    moreover from run obtain a s1 where "ingestNextBlock env s = Some (a, s1)"
      by (auto simp: sy_bind_def split: option.splits)
    ultimately show "stranded T c w t"
      using stranded_ingest[OF env(1,3)] by (fastforce simp: sy_bind_def sy_return_def)
  qed
  have held: "sy_keeps (stranded T c w) (reorgHaltHoldsLoop env)"
    by (rule sy_keepsI) (auto simp: reorgHaltHoldsLoop_def sy_bind_def sy_get_def sy_return_def stranded_def)
  have "sy_keeps (stranded T c w) (loop_pass env)"
    unfolding loop_pass_def tip_due_def parse_or_wait_def
    by (auto intro!: keeps_shape stranded_steps held wait ingest stranded_refresh[OF env(2)])
  from sy_keepsD[OF this s run] show ?thesis .
qed

lemma stranded_run:
  "loop_run env s u \<Longrightarrow> int (sv_start env) \<le> c \<Longrightarrow> node_reaches env c \<Longrightarrow> blocks_decode env \<Longrightarrow>
   stranded T c w s \<Longrightarrow> stranded T c w u"
  by (induction rule: loop_run.induct) (auto dest: stranded_pass)

end
