(* ===== verification/Sync_Status.thy ===== *)
theory Sync_Status
  imports Sync_Logic
begin

text \<open>
  What health probes are told (\<open>src/src/XChainDecoder/sync_status.js\<close>).  The stamps of the last stored
  block and of the last ladder step are arguments: the loop's model counts those events and does not
  date them.
\<close>

section \<open>Windows\<close>

text \<open>\<open>Number(config.X) || d\<close>, for a setting that is an integer or none.\<close>

definition setting_or :: "int option \<Rightarrow> int \<Rightarrow> int" where
  "setting_or x d = (case x of None \<Rightarrow> d | Some n \<Rightarrow> if n = 0 then d else n)"

record stall_config =
  sc_stallAlert :: "int option"
  sc_pollSilent :: "int option"
  sc_fetchAttempts :: "int option"

definition STALL_ALERT_MS :: "stall_config \<Rightarrow> int" where
  "STALL_ALERT_MS cfg = setting_or (sc_stallAlert cfg) 900000"

definition POLL_SILENT_MS :: "stall_config \<Rightarrow> int" where
  "POLL_SILENT_MS cfg = setting_or (sc_pollSilent cfg) (2 * STALL_ALERT_MS cfg)"

definition STALL_FETCH_ATTEMPTS :: "stall_config \<Rightarrow> int" where
  "STALL_FETCH_ATTEMPTS cfg = setting_or (sc_fetchAttempts cfg) 20"

section \<open>The node's tip\<close>

definition isNodeHeightStale :: "int \<Rightarrow> sync_state \<Rightarrow> bool" where
  "isNodeHeightStale now s \<longleftrightarrow>
     0 < nw_refreshedAt (sy_watch s) \<and> 2 * BLOCKCHAIN_INFO_REFRESH_MS < now - nw_refreshedAt (sy_watch s)"

definition nodeTipAgeSeconds :: "int \<Rightarrow> sync_state \<Rightarrow> rat option" where
  "nodeTipAgeSeconds now s =
     (if \<not> 0 < nw_refreshedAt (sy_watch s) then None
      else Some (of_int (now - nw_refreshedAt (sy_watch s)) / 1000))"

text \<open>The latch of the transition line: whether a line is written, and the latch after it.\<close>

definition noteNodeTipStaleTransition :: "int \<Rightarrow> sync_state \<Rightarrow> bool \<Rightarrow> bool \<times> bool" where
  "noteNodeTipStaleTransition now s warned =
     (let stale = isNodeHeightStale now s in if stale = warned then (False, warned) else (True, stale))"

section \<open>Predicates for probes\<close>

definition isSynced :: "int \<Rightarrow> sync_state \<Rightarrow> bool" where
  "isSynced now s \<longleftrightarrow> (if isNodeHeightStale now s then False else nw_synced (sy_watch s))"

record progress_stamps =
  ps_lastAdvanceAt :: int
  ps_lastLadderStepAt :: int

definition decoder_height :: "sync_state \<Rightarrow> int" where
  "decoder_height s = dm_lastBlock (w_marks (sy_world s))"

definition isStalled :: "stall_config \<Rightarrow> int \<Rightarrow> progress_stamps \<Rightarrow> sync_state \<Rightarrow> bool" where
  "isStalled cfg now ps s =
     (if ps_lastAdvanceAt ps = 0 then False
      else if hp_parked (sy_park s) then False
      else if nw_reorgWait (sy_watch s) \<noteq> None then False
      else if node_tip s < 0 \<or> decoder_height s < 0 then False
      else if node_tip s - decoder_height s \<le> 1 then False
      else if isNodeHeightStale now s then False
      else if STALL_FETCH_ATTEMPTS cfg \<le> int (nw_fetchErrors (sy_watch s)) then True
      else STALL_ALERT_MS cfg < now - max (ps_lastAdvanceAt ps) (ps_lastLadderStepAt ps))"

definition isPollSilent :: "stall_config \<Rightarrow> int \<Rightarrow> sync_state \<Rightarrow> bool" where
  "isPollSilent cfg now s =
     (if nw_polledAt (sy_watch s) = 0 then False else POLL_SILENT_MS cfg < now - nw_polledAt (sy_watch s))"

record sync_status =
  ss_last_processed_block :: "int option"
  ss_node_height :: "int option"
  ss_lag :: "int option"
  ss_reorgs :: "(nat \<times> nat option) option"
  ss_node_height_stale :: bool

definition getSyncStatus :: "int \<Rightarrow> sync_state \<Rightarrow> sync_status" where
  "getSyncStatus now s =
     (if decoder_height s = - 1
      then \<lparr>ss_last_processed_block = None, ss_node_height = None, ss_lag = None, ss_reorgs = None, ss_node_height_stale = False\<rparr>
      else \<lparr>ss_last_processed_block = Some (decoder_height s), ss_node_height = Some (node_tip s),
            ss_lag = Some (node_tip s - decoder_height s),
            ss_reorgs = Some (rw_reorgCount (sy_run s), rw_lastReorgDepth (sy_run s)),
            ss_node_height_stale = isNodeHeightStale now s\<rparr>)"

section \<open>Durations\<close>

text \<open>\<open>millisecondsToTimeString\<close> of a whole number of milliseconds.\<close>

definition two_digits :: "nat \<Rightarrow> jsstr" where
  "two_digits n = (if n < 10 then js ''0'' else []) @ decimal_string n"

definition millisecondsToTimeString :: "nat \<Rightarrow> jsstr" where
  "millisecondsToTimeString ms =
     (let milliseconds = ms mod 1000 div 100;
          seconds = ms div 1000 mod 60;
          minutes = ms div (1000 * 60) mod 60;
          hours = ms div (1000 * 60 * 60) mod 24;
          days = ms div (1000 * 60 * 60 * 24) mod 365
      in decimal_string days @ js ''d'' @ two_digits hours @ js ''h'' @ two_digits minutes @ js ''m''
         @ two_digits seconds @ js ''.'' @ decimal_string milliseconds @ js ''s'')"

end
