(* ===== verification/Reorg_Properties.thy ===== *)
theory Reorg_Properties
  imports Reorg_Result
begin

text \<open>
  Properties of the reorg walk, each with an example: a database of two blocks whose node has replaced
  the upper one, and a database that is halted.
\<close>

section \<open>Example runs\<close>

definition fork_tables :: tables where
  "fork_tables = fresh_tables\<lparr>tb_hashes := [(1, []), (2, js ''a''), (3, js ''b'')],
     tb_ledger := empty_ledger\<lparr>l_blocks := [\<lparr>b_index = 5, b_hash = Some 2, b_time = Some 7, b_previous = Some 1\<rparr>,
       \<lparr>b_index = 6, b_hash = Some 3, b_time = Some 8, b_previous = Some 2\<rparr>]\<rparr>\<rparr>"

definition fork_cfg :: reorg_config where
  "fork_cfg = \<lparr>rc_network = ''mainnet'', rc_safeDepth = 2, rc_start = 0, rc_genesis = None\<rparr>"

definition fork_node :: chain_node where
  "fork_node = \<lparr>cn_hash = (\<lambda>_ h. HashText (if h = 5 then js ''a'' else js ''c'')),
     cn_header = (\<lambda>_ x. if x = Some (js ''b'') then Header (Some (- 1)) else HeaderNotFound),
     cn_info = (\<lambda>_. InfoFailed), cn_now = (\<lambda>_. 1000)\<rparr>"

definition fork_start :: "tables \<Rightarrow> reorg_run" where
  "fork_start t = \<lparr>rw_db = \<lparr>db_tables = t, db_saved = None, db_fates = []\<rparr>, rw_tick = 0, rw_reorgHalted = False,
     rw_reorgHaltReason = None, rw_reorgHaltAt = None, rw_reorgHaltCheckedAt = 0, rw_markerPersisted = None,
     rw_forkProofCache = None, rw_chainGenesisCheckedAt = 0, rw_reorgCount = 0, rw_lastReorgDepth = None,
     wk_nodeTip = None, wk_retryCount = 0, wk_deleted = [], wk_haltError = None, wk_haltStop = None\<rparr>"

lemmas fork_defs = fork_tables_def fork_cfg_def fork_node_def fork_start_def begun_def fresh_tables_def empty_ledger_def

lemmas walk_defs = reorg_entry_def isReorgHalted_def readReorgHaltState_def countReorgDeletesAboveTip_def
  getLastBlockIndex_def getBlockByIndex_def read_block_def MAX_ATTEMPTS_def halt_state_of_def newest_first_def no_halt_def
  marker_rows_def heights_above_def SCAN_LIMIT_def highest_def readLastStoredBlock_def walk_step_def compare_block_def
  same_hash_def deleteForkedBlock_def requireReorgProof_def proveForkReorgedAway_def proveReorgedAway_def header_proof_def
  assertWithinSafeDepth_def safeDepthFor_def unless_halted_def delete_with_retry_def note_deleted_def
  deleteBlockByIndex_def restoreDispenserExtensions_def deleteBlockRows_def insertReorgEvent_def ledger_update_def
  map_ledger_def undo_block_defs append_event_def beginTransaction_def commitTransaction_def endTransaction_def
  in_transaction_def sql_query_def sql_write_def next_fate_def db_bind_def db_catch_def db_return_def db_throw_def
  try_db_def asking_def get_run_def set_run_def id_text_def js_def

lemma read_at_once:
  "db_fates s = [] \<Longrightarrow> retry_read 5 q s = (Inr (q (db_tables s)), s)"
  "readPriorRollbackDepth 3 w = db_bind (try_db countReorgDeletesAboveTip) (\<lambda>r.
     case r of Some d \<Rightarrow> db_return d | None \<Rightarrow> readPriorRollbackDepth 2) w"
proof -
  show "db_fates s = [] \<Longrightarrow> retry_read 5 q s = (Inr (q (db_tables s)), s)"
    by (simp add: numeral_eq_Suc db_catch_def sql_query_def next_fate_def)
  have three: "3 = Suc 2" by simp
  show "readPriorRollbackDepth 3 w = db_bind (try_db countReorgDeletesAboveTip) (\<lambda>r.
     case r of Some d \<Rightarrow> db_return d | None \<Rightarrow> readPriorRollbackDepth 2) w"
    by (simp only: three readPriorRollbackDepth.simps(2))
qed

lemma fork_entry:
  "reorg_entry fork_node (begun (Some 6) (fork_start fork_tables)) = (Inr 0, begun (Some 6) (fork_start fork_tables))"
  by (simp add: read_at_once fork_defs walk_defs Let_def)

text \<open>After the upper block is gone: a hash, the clock and a header were asked.\<close>

definition fork_after :: reorg_run where
  "fork_after = (begun (Some 6) (fork_start (block_removed 6 (Some (js ''b'')) fork_tables)))
     \<lparr>rw_tick := 3, wk_deleted := [(6, Some (js ''b''))]\<rparr>"

lemma fork_steps:
  "walk_step fork_cfg fork_node 0 (begun (Some 6) (fork_start fork_tables)) = (Inr True, fork_after)"
  "walk_step fork_cfg fork_node 0 fork_after = (Inr False, fork_after\<lparr>rw_tick := 4\<rparr>)"
  by (simp_all add: read_at_once fork_after_def block_removed_def fork_defs walk_defs Let_def)

definition fork_done :: reorg_run where
  "fork_done = fork_after\<lparr>rw_tick := 4, rw_reorgCount := 1, rw_lastReorgDepth := Some 1\<rparr>"

lemma fork_run: "verifyReorg fork_cfg fork_node (Some 6) (fork_start fork_tables) = Some (Inr True, fork_done)"
  by (simp add: verifyReorg_begun fork_entry walkReorg.simps[of _ _ _ "begun _ _"] walkReorg.simps[of _ _ _ fork_after]
      fork_steps db_bind_def finishReorgRun_def db_return_def)
    (simp add: fork_done_def fork_after_def fork_defs db_return_def)

lemma fork_idle: "idle (fork_start t)" "cache_unproven (fork_start t)"
  by (simp_all add: fork_start_def idle_def cache_unproven_def)

text \<open>A node that has neither block, and a window of one block: the second one halts the run.\<close>

definition lost_node :: chain_node where
  "lost_node = fork_node\<lparr>cn_hash := (\<lambda>_ _. HashText (js ''c'')), cn_header := (\<lambda>_ _. Header (Some (- 1)))\<rparr>"

definition lost_cfg :: reorg_config where
  "lost_cfg = fork_cfg\<lparr>rc_safeDepth := 1\<rparr>"

definition lost_reason :: jsstr where
  "lost_reason = depth_message 1 0 1 5"

definition lost_tables :: tables where
  "lost_tables = append_event \<lparr>ev_time = None, ev_code = js ''REORG_HALT'',
     ev_data = halt_json lost_reason (toISOString 1000)\<rparr> (block_removed 6 (Some (js ''b'')) fork_tables)"

definition lost_halted :: reorg_run where
  "lost_halted = (begun (Some 6) (fork_start lost_tables))\<lparr>rw_tick := 9, wk_deleted := [(6, Some (js ''b''))],
     rw_reorgHalted := True, rw_reorgHaltReason := Some (JStr lost_reason),
     rw_reorgHaltAt := Some (PayloadAt (JStr (toISOString 1000))),
     rw_reorgHaltCheckedAt := 1000, rw_markerPersisted := Some True, wk_haltError := Some lost_reason\<rparr>"

lemma two_attempts:
  "mark_attempts 2 node reason = db_bind (asking (cn_now node)) (\<lambda>now.
     db_bind (try_db (markReorgHalted now reason)) (\<lambda>r.
       if r = Some True then db_return True else mark_attempts 1 node reason))"
  by (simp only: numeral_2_eq_2 One_nat_def mark_attempts.simps)

lemma reorg_event_code: "ev_code (reorg_event n h) = js ''REORG''"
  by (simp add: reorg_event_def)

lemma lost_steps:
  "reorg_entry lost_node (begun (Some 6) (fork_start fork_tables)) = (Inr 0, begun (Some 6) (fork_start fork_tables))"
  "walk_step lost_cfg lost_node 0 (begun (Some 6) (fork_start fork_tables)) = (Inr True, fork_after)"
  by (simp_all add: lost_node_def lost_cfg_def read_at_once fork_after_def block_removed_def fork_defs walk_defs Let_def)

lemma mark_at_once:
  assumes "db_fates s = []" "\<not> hs_halted (halt_state_of (tb_events (db_tables s)))"
  shows "markReorgHalted now reason s = (Inr True, s\<lparr>db_tables := append_event
    \<lparr>ev_time = None, ev_code = js ''REORG_HALT'', ev_data = halt_json reason (toISOString now)\<rparr> (db_tables s)\<rparr>)"
  using assms
  by (simp add: markReorgHalted_def readReorgHaltState_def isReorgHalted_def insertEvent_def db_bind_def db_return_def
      db_catch_def sql_query_def sql_write_def next_fate_def append_event_def halt_state_snoc halt_row_live)

lemma no_halt_yet: "\<not> hs_halted (halt_state_of (tb_events (block_removed 6 (Some (js ''b'')) fork_tables)))"
  by (simp only: halt_state_block_removed) (simp add: fork_tables_def fresh_tables_def halt_state_of_def newest_first_def no_halt_def)

lemma lost_mark:
  "raiseSafeDepthHalt lost_node lost_reason (fork_after\<lparr>rw_tick := 6, rw_forkProofCache := None\<rparr>) = (Inr (), lost_halted)"
  using no_halt_yet
  by (simp add: raiseSafeDepthHalt_def haltReorg_def two_attempts mark_at_once db_bind_def db_return_def asking_def
      set_run_def get_run_def try_db_def fork_after_def begun_def fork_start_def lost_node_def fork_node_def
      lost_halted_def lost_tables_def)

lemma fork_reads:
  "readLastStoredBlock fork_after = (Inr (Some (5, Some \<lparr>bv_row = \<lparr>b_index = 5, b_hash = Some 2, b_time = Some 7,
     b_previous = Some 1\<rparr>, bv_hash = Some (js ''a''), bv_previous = Some []\<rparr>)), fork_after)"
  by (simp add: read_at_once fork_after_def block_removed_def fork_defs walk_defs Let_def)

lemma lost_last_step: "walk_step lost_cfg lost_node 0 fork_after = (Inr True, lost_halted)"
proof -
  have "rw_tick fork_after = 3" "wk_haltError fork_after = None" "wk_nodeTip fork_after = Some 6"
    "rw_forkProofCache fork_after = None" "wk_deleted fork_after = [(6, Some (js ''b''))]" "wk_haltError lost_halted = Some lost_reason"
    by (simp_all add: fork_after_def lost_halted_def begun_def fork_start_def)
  moreover have "cn_hash lost_node k h = HashText (js ''c'')" "cn_header lost_node k x = Header (Some (- 1))" for k h x
    by (simp_all add: lost_node_def)
  moreover have "safeDepthFor lost_cfg = 1" "rc_start lost_cfg = 0" by (simp_all add: safeDepthFor_def lost_cfg_def fork_cfg_def)
  moreover have "js ''a'' \<noteq> js ''c''" by (simp add: js_def)
  ultimately show ?thesis
    using lost_mark fork_reads
    by (simp add: walk_step_def compare_block_def same_hash_def deleteForkedBlock_def requireReorgProof_def
      proveForkReorgedAway_def proveReorgedAway_def header_proof_def assertWithinSafeDepth_def unless_halted_def
      db_bind_def db_return_def asking_def get_run_def set_run_def Let_def flip: lost_reason_def One_nat_def)
qed

definition lost_done :: reorg_run where
  "lost_done = lost_halted\<lparr>rw_tick := 11, wk_haltStop := Some (BlockUnread 4)\<rparr>"

lemma lost_finish: "walk_step lost_cfg lost_node 0 lost_halted = (Inr False, lost_done)"
proof -
  have "l_blocks (tb_ledger lost_tables) = [\<lparr>b_index = 5, b_hash = Some 2, b_time = Some 7, b_previous = Some 1\<rparr>]"
    "tb_hashes lost_tables = [(1, []), (2, js ''a''), (3, js ''b'')]"
    by (simp_all add: lost_tables_def append_event_def block_removed_def undo_block_parts fork_tables_def fresh_tables_def
        empty_ledger_def Let_def)
  then show ?thesis
    by (simp add: lost_done_def walk_step_def finishHaltedWalk_def readHaltedWalk_def readNodeBlockHash_def
        Let_def numeral_2_eq_2 lost_halted_def
        lost_node_def lost_cfg_def safeDepthFor_def fork_start_def fork_cfg_def fork_node_def begun_def getLastBlockIndex_def
        getBlockByIndex_def read_block_def MAX_ATTEMPTS_def read_at_once highest_def id_text_def try_db_def asking_def
        get_run_def set_run_def db_bind_def db_return_def js_def)
qed

lemma lost_end: "wk_haltError lost_done = Some lost_reason" "rw_db lost_done = \<lparr>db_tables = lost_tables, db_saved = None, db_fates = []\<rparr>"
  by (simp_all add: lost_done_def lost_halted_def begun_def fork_start_def)

lemma lost_run: "verifyReorg lost_cfg lost_node (Some 6) (fork_start fork_tables) = Some (Inl (SafeDepthHalt lost_reason), lost_done)"
  by (simp add: verifyReorg_begun lost_steps lost_last_step lost_finish walkReorg.simps[of _ _ _ "begun _ _"]
      walkReorg.simps[of _ _ _ fork_after] walkReorg.simps[of _ _ _ lost_halted] db_bind_def finishReorgRun_def lost_end)

section \<open>The walk\<close>

text \<open>
  C4.  A reorg deletes only what the node disowned: when \<open>verifyReorg\<close> ends, in whatever way and
  whatever the server failed, each block missing from the tables is one whose stored hash the node
  itself, at a call of this very run, answered with confirmations -1.
\<close>

theorem deletions_were_disowned:
  assumes "verifyReorg cfg node tip w = Some (r, w')" "idle w" "cache_unproven w"
    and "h \<in> set (stored_heights (db_tables (rw_db w)))" "h \<notin> set (stored_heights (db_tables (rw_db w')))"
  shows "\<exists>x k. stored_hash (db_tables (rw_db w)) h = Some x \<and> rw_tick w \<le> k \<and> k < rw_tick w'
    \<and> cn_header node k x = Header (Some (- 1))"
proof -
  obtain prior where "run_inv cfg node prior w w'" using verifyReorg_run[OF assms(1-3)] by blast
  from missing_confirmed[OF this assms(4,5)] show ?thesis by (auto simp: confirmed_def)
qed

lemma fork_heights:
  "stored_heights (db_tables (rw_db (fork_start fork_tables))) = [5, 6]"
  "stored_heights (db_tables (rw_db fork_done)) = [5]"
  "stored_hash (db_tables (rw_db (fork_start fork_tables))) 6 = Some (Some (js ''b''))" "rw_tick (fork_start t) = 0"
proof -
  show two: "stored_heights (db_tables (rw_db (fork_start fork_tables))) = [5, 6]"
    by (simp add: stored_heights_def fork_defs)
  have "db_tables (rw_db fork_done) = block_removed 6 (Some (js ''b'')) fork_tables"
    by (simp add: fork_done_def fork_after_def begun_def fork_start_def)
  with two show "stored_heights (db_tables (rw_db fork_done)) = [5]"
    by (simp add: stored_heights_removed fork_start_def)
qed (simp_all add: stored_hash_def id_text_def fork_start_def fork_tables_def fresh_tables_def)

theorem deletions_were_disowned_witness:
  "\<exists>k < rw_tick fork_done. cn_header fork_node k (Some (js ''b'')) = Header (Some (- 1))"
  using deletions_were_disowned[OF fork_run fork_idle, of 6] by (auto simp: fork_heights)




text \<open>
  C6.  The ledger a reorg leaves is one the chain of blocks went through: where the ledger grew block
  by block from height \<open>a\<close> over a sound base, a run that took \<open>k\<close> blocks off leaves a state from which
  exactly those \<open>k\<close> blocks led to the old ledger.
\<close>

theorem walk_rewinds_the_ledger:
  assumes "verifyReorg cfg node tip w = Some (r, w')" "idle w" "cache_unproven w"
    and "sound_below a base" "block_chain ledger_step a n base (tb_ledger (db_tables (rw_db w)))"
    and "{a..<a + n} \<subseteq> set (stored_heights (db_tables (rw_db w)))" "k = length (wk_deleted w')" "k \<le> n"
  shows "block_chain ledger_step a (n - k) base (tb_ledger (db_tables (rw_db w')))
    \<and> block_chain ledger_step (a + (n - k)) k (tb_ledger (db_tables (rw_db w'))) (tb_ledger (db_tables (rw_db w)))"
proof -
  obtain prior where "run_inv cfg node prior w w'" using verifyReorg_run[OF assms(1-3)] by blast
  then have "walked (db_tables (rw_db w)) (wk_deleted w') (db_tables (rw_db w'))" by (simp add: run_inv_def)
  from walked_rewinds[OF this assms(4-6)] assms(7,8) show ?thesis by simp
qed

lemma fork_chain: "block_chain ledger_step 5 2 empty_ledger (tb_ledger fork_tables)"
proof -
  let ?row = "\<lambda>n x p t. \<lparr>b_index = n, b_hash = Some x, b_time = Some t, b_previous = Some p\<rparr>"
  let ?five = "empty_ledger\<lparr>l_blocks := [?row 5 2 1 7]\<rparr>"
  have "ledger_step 5 empty_ledger ?five"
    by (rule ledger_step.block[of "?row 5 2 1 7"]) (simp_all add: add_block_def empty_ledger_def)
  moreover have "ledger_step 6 ?five (tb_ledger fork_tables)"
    by (rule ledger_step.block[of "?row 6 3 2 8"]) (simp_all add: add_block_def empty_ledger_def fork_tables_def)
  ultimately show ?thesis by (auto simp: numeral_2_eq_2 intro!: exI r_into_rtranclp)
qed

theorem walk_rewinds_the_ledger_witness:
  "block_chain ledger_step 5 1 empty_ledger (tb_ledger (db_tables (rw_db fork_done)))"
proof -
  have "sound_below 5 empty_ledger" by (simp add: sound_below_def below_height_def ledger_wf_def empty_ledger_def)
  moreover have "block_chain ledger_step 5 2 empty_ledger (tb_ledger (db_tables (rw_db (fork_start fork_tables))))"
    using fork_chain by (simp add: fork_start_def)
  moreover have "{5..<5 + 2} \<subseteq> set (stored_heights (db_tables (rw_db (fork_start fork_tables))))"
    unfolding fork_heights(1) by auto
  moreover have "1 = length (wk_deleted fork_done)" by (simp add: fork_done_def fork_after_def)
  ultimately have "block_chain ledger_step 5 (2 - 1) empty_ledger (tb_ledger (db_tables (rw_db fork_done)))"
    by (rule walk_rewinds_the_ledger[OF fork_run fork_idle, THEN conjunct1]) simp
  then show ?thesis by simp
qed

text \<open>
  C7.  A halt survives the process: after a run that went on halted, any later \<open>verifyReorg\<close> on the
  tables it left, with any configuration, node and decoder fields, refuses with the halt (or with the
  error of reading it), deletes nothing and leaves the tables as they are.
\<close>

theorem halt_survives_restart:
  assumes "verifyReorg cfg node tip w = Some (r, w')" "idle w" "cache_unproven w" "wk_haltError w' \<noteq> None"
    and "idle v" "db_tables (rw_db v) = db_tables (rw_db w')" "verifyReorg cfg' node' tip' v = Some (r', v')"
  shows "r' \<in> {Inl HaltedRefusal} \<union> range (\<lambda>n. Inl (HaltUnread n)) \<and> wk_deleted v' = []
    \<and> db_tables (rw_db v') = db_tables (rw_db w')"
proof -
  obtain prior where "run_inv cfg node prior w w'" using verifyReorg_run[OF assms(1-3)] by blast
  then have "halted_rows v" using assms(4,6) by (simp add: run_inv_def halted_rows_def)
  from halted_run_refused[OF assms(7) this assms(5)] assms(6) show ?thesis by auto
qed

lemma lost_restart: "fst (the (verifyReorg fork_cfg fork_node (Some 6) (fork_start lost_tables))) = Inl HaltedRefusal"
  "verifyReorg fork_cfg fork_node (Some 6) (fork_start lost_tables)
     = Some (the (verifyReorg fork_cfg fork_node (Some 6) (fork_start lost_tables)))"
proof -
  have "hs_halted (halt_state_of (tb_events lost_tables))"
    by (simp add: lost_tables_def append_event_def halt_state_snoc halt_row_live)
  then show "fst (the (verifyReorg fork_cfg fork_node (Some 6) (fork_start lost_tables))) = Inl HaltedRefusal"
    "verifyReorg fork_cfg fork_node (Some 6) (fork_start lost_tables)
       = Some (the (verifyReorg fork_cfg fork_node (Some 6) (fork_start lost_tables)))"
    by (simp_all add: verifyReorg_begun reorg_entry_def isReorgHalted_def readReorgHaltState_def refuseHaltedRollback_def
        fork_start_def begun_def sql_query_def next_fate_def db_bind_def db_return_def db_throw_def asking_def set_run_def)
qed

theorem halt_survives_restart_witness:
  "db_tables (rw_db (snd (the (verifyReorg fork_cfg fork_node (Some 6) (fork_start lost_tables))))) = lost_tables"
proof -
  have "verifyReorg fork_cfg fork_node (Some 6) (fork_start lost_tables)
    = Some (fst (the (verifyReorg fork_cfg fork_node (Some 6) (fork_start lost_tables))),
        snd (the (verifyReorg fork_cfg fork_node (Some 6) (fork_start lost_tables))))"
    using lost_restart(2) by simp
  from halt_survives_restart[OF lost_run fork_idle _ fork_idle(1) _ this] show ?thesis
    by (simp add: lost_end fork_start_def)
qed

text \<open>
  C8.  A reorg reports success only when it reconciled: if \<open>verifyReorg\<close> returns, it returns true, no
  halt is pending, and either no stored block is left at or above the start height, or the hash of the
  highest stored block is what the node answered for that height during this run.
\<close>

theorem success_means_reconciled:
  assumes "verifyReorg cfg node tip w = Some (Inr b, w')" "idle w" "cache_unproven w"
  shows "b \<and> wk_haltError w' = None
    \<and> ((\<forall>h \<in> set (stored_heights (db_tables (rw_db w'))). int h < rc_start cfg)
       \<or> (\<exists>h x k. top_block (db_tables (rw_db w')) h (Some x) \<and> rw_tick w \<le> k \<and> k < rw_tick w'
            \<and> cn_hash node k (int h) = HashText x))"
  using verifyReorg_run[OF assms] by (auto simp: reconciled_def answered_def)

theorem success_means_reconciled_witness:
  "\<exists>h x k. top_block (db_tables (rw_db fork_done)) h (Some x) \<and> k < rw_tick fork_done
     \<and> cn_hash fork_node k (int h) = HashText x"
  using success_means_reconciled[OF fork_run fork_idle] fork_heights(2) by (auto simp: fork_cfg_def)



end
