(* ===== verification/Quarantine.thy ===== *)
theory Quarantine
  imports Tx_Ingest
begin

text \<open>
  The retry-then-quarantine ladder (\<open>transaction_ingest.js\<close>) over several runs of a block.  Each run
  begins a transaction, since the block loop restarts the block it rolled back; the counters of the
  loop survive the rollback.  Keys tell positions apart, and faults of the node or the database never
  climb the ladder.
\<close>

section \<open>Keys\<close>

lemma decimal_string_inj: "decimal_string m = decimal_string n \<Longrightarrow> m = n"
  by (metis decimal_value_string)

lemma digits_no_colon: "colon \<notin> set (decimal_string n)"
  using decimal_string_digits(1)[of n] by (auto simp: list_all_iff is_digit_def colon_def)

lemma split_first:
  assumes "xs @ c # ys = xs' @ c # ys'" "c \<notin> set xs" "c \<notin> set xs'"
  shows "xs = xs' \<and> ys = ys'"
  using assms by (auto simp: append_eq_append_conv2 append_eq_Cons_conv Cons_eq_append_conv)

lemma split_last:
  assumes "ys @ c # xs = ys' @ c # xs'" "c \<notin> set xs" "c \<notin> set xs'"
  shows "ys = ys' \<and> xs = xs'"
  using split_first[of "rev xs" c "rev ys" "rev xs'" "rev ys'"] assms
  by (metis rev.simps(2) rev_append rev_rev_ident set_rev append_Cons append_assoc append_Nil)

lemma quarantineKey_inj:
  assumes "quarantineKey h hash i = quarantineKey h' hash' i'"
  shows "h = h' \<and> hash = hash' \<and> i = i'"
proof -
  have eq: "decimal_string h @ colon # (hash @ colon # decimal_string i)
      = decimal_string h' @ colon # (hash' @ colon # decimal_string i')"
    using assms by (simp add: quarantineKey_def)
  have "decimal_string h = decimal_string h' \<and> hash @ colon # decimal_string i = hash' @ colon # decimal_string i'"
    by (rule split_first[OF eq]) (rule digits_no_colon)+
  moreover then have "hash = hash' \<and> decimal_string i = decimal_string i'"
    by (intro split_last[of hash colon "decimal_string i" hash']) (auto simp: digits_no_colon)
  ultimately show ?thesis using decimal_string_inj by blast
qed

section \<open>Runs of a failing position\<close>

definition failing_run ::
    "ingest_env \<Rightarrow> decode_error \<Rightarrow> js_time \<Rightarrow> nat \<Rightarrow> jsstr option \<Rightarrow> nat \<Rightarrow> jsstr \<Rightarrow> directive ingest" where
  "failing_run env e now height hash i key =
     db_bind (on_db beginTransaction) (\<lambda>_. handleParseFailure env e now height hash i key)"

fun failing_runs ::
    "nat \<Rightarrow> ingest_env \<Rightarrow> decode_error \<Rightarrow> js_time \<Rightarrow> nat \<Rightarrow> jsstr option \<Rightarrow> nat \<Rightarrow> jsstr
      \<Rightarrow> world \<Rightarrow> (errno + directive) list \<times> world" where
  "failing_runs 0 env e now height hash i key w = ([], w)"
| "failing_runs (Suc n) env e now height hash i key w =
     (case failing_run env e now height hash i key w of
        (r, w1) \<Rightarrow> (case failing_runs n env e now height hash i key w1 of (rs, w2) \<Rightarrow> (r # rs, w2)))"

text \<open>What the ladder reads and writes: the count, the mark, and the totals.\<close>

definition attempts_of :: "jsstr \<Rightarrow> world \<Rightarrow> nat" where
  "attempts_of key w = (case lp_parseRetries (w_loop w) key of None \<Rightarrow> 0 | Some n \<Rightarrow> n)"

definition ladder_at :: "jsstr \<Rightarrow> nat \<Rightarrow> bool \<Rightarrow> nat \<Rightarrow> nat \<Rightarrow> world \<Rightarrow> bool" where
  "ladder_at key c marked poisoned errors w \<longleftrightarrow>
     healthy (w_db w) \<and> attempts_of key w = c \<and> (key \<in> lp_parseQuarantine (w_loop w)) = marked
     \<and> dm_quarantinedTxs (w_marks w) = poisoned \<and> parseErrors (w_stats w) = errors"

lemma healthy_begin:
  assumes "healthy s"
  obtains s' where "beginTransaction s = (Inr (), s')" "healthy s'" "db_saved s' = Some (db_tables s')"
proof -
  have "healthy (roll_back s)" using assms by (simp add: roll_back_def split: option.split)
  then show ?thesis
    using assms that
    by (cases "db_saved s")
      (auto simp: beginTransaction_def db_bind_def in_transaction_def discardStaleTransactionConnection_def)
qed

lemma healthy_end:
  assumes "healthy s"
  obtains s' where "endTransaction s = (Inr (), s')" "healthy s'"
proof -
  have "healthy (roll_back s)" using assms by (simp add: roll_back_def split: option.split)
  then show ?thesis
    using assms that by (cases "db_saved s") (auto simp: endTransaction_def)
qed

lemma healthy_event:
  "healthy s \<Longrightarrow> \<exists>s'. insertEvent code json t s = (Inr Stored, s') \<and> healthy s'"
  by (simp add: insertEvent_def db_catch_def db_bind_def db_return_def)

lemmas ladder_defs = handleParseFailure_def end_and_rollback_def insertParseErrorEvent_def count_parse_attempt_def
  countAttempt_def noteLadderStep_def parse_error_counted_def noteQuarantine_def modify_def asks_def on_db_def
  db_bind_def db_return_def TX_PARSE_MAX_RETRIES_def attempts_of_def ladder_at_def Let_def

lemma ladder_rolls_back:
  assumes "ladder_at key c False poisoned errors w" "c < 3" "e \<noteq> DbLookupFailure" "\<not> rpcLookupFailure_tagged e"
  shows "\<exists>w'. handleParseFailure env e now height hash i key w = (Inr RollbackBlock, w')
    \<and> ladder_at key (Suc c) False poisoned errors w'"
proof -
  have "healthy (w_db w)" using assms(1) by (simp add: ladder_at_def)
  then obtain s where s: "endTransaction (w_db w) = (Inr (), s)" "healthy s" by (rule healthy_end)
  show ?thesis using assms s by (auto simp: ladder_defs)
qed

lemma ladder_quarantines:
  assumes "ladder_at key 3 False poisoned errors w" "e \<noteq> DbLookupFailure" "\<not> rpcLookupFailure_tagged e"
  shows "\<exists>w'. handleParseFailure env e now height hash i key w = (Inr NextTx, w')
    \<and> ladder_at key 4 True (Suc poisoned) (Suc errors) w'"
proof -
  obtain s where s: "insertEvent (js ''PARSE_ERROR'') (parse_error_json height i hash (ie_message env e))
      (Some (seconds now)) (w_db w) = (Inr Stored, s)" "healthy s"
    using healthy_event assms(1) by (fastforce simp: ladder_at_def)
  show ?thesis using assms s by (auto simp: ladder_defs)
qed

lemma ladder_stays:
  assumes "ladder_at key c True poisoned errors w" "e \<noteq> DbLookupFailure" "\<not> rpcLookupFailure_tagged e"
  shows "\<exists>w'. handleParseFailure env e now height hash i key w = (Inr NextTx, w')
    \<and> ladder_at key c True poisoned errors w'"
proof -
  obtain s where s: "insertEvent (js ''PARSE_ERROR'') (parse_error_json height i hash (ie_message env e))
      (Some (seconds now)) (w_db w) = (Inr Stored, s)" "healthy s"
    using healthy_event assms(1) by (fastforce simp: ladder_at_def)
  show ?thesis using assms s by (auto simp: ladder_defs)
qed

lemma ladder_begin:
  assumes "ladder_at key c marked poisoned errors w"
  obtains w1 where "ladder_at key c marked poisoned errors w1"
    "failing_run env e now height hash i key w = handleParseFailure env e now height hash i key w1"
proof -
  have "healthy (w_db w)" using assms by (simp add: ladder_at_def)
  then obtain s where "beginTransaction (w_db w) = (Inr (), s)" "healthy s" by (rule healthy_begin)
  with assms show ?thesis
    by (intro that[of "w\<lparr>w_db := s\<rparr>"]) (simp_all add: failing_run_def ladder_at_def attempts_of_def on_db_def db_bind_def)
qed

lemma marked_runs:
  assumes "ladder_at key c True poisoned errors w" "e \<noteq> DbLookupFailure" "\<not> rpcLookupFailure_tagged e"
  shows "\<exists>w'. failing_runs n env e now height hash i key w = (replicate n (Inr NextTx), w')
    \<and> ladder_at key c True poisoned errors w'"
  using assms
proof (induction n arbitrary: w)
  case (Suc n)
  obtain w1 where w1: "ladder_at key c True poisoned errors w1"
      "failing_run env e now height hash i key w = handleParseFailure env e now height hash i key w1"
    using ladder_begin[OF Suc.prems(1)] by blast
  obtain w2 where w2: "handleParseFailure env e now height hash i key w1 = (Inr NextTx, w2)"
      "ladder_at key c True poisoned errors w2"
    using ladder_stays[OF w1(1) Suc.prems(2,3)] by blast
  from Suc.IH[OF w2(2) Suc.prems(2,3)] show ?case by (auto simp: w1(2) w2(1))
qed simp

text \<open>\<open>k\<close> retries are left: that many rollbacks, one quarantine, and the event again ever after.\<close>

lemma ladder_runs:
  assumes "ladder_at key (3 - k) False poisoned errors w" "k \<le> 3" "e \<noteq> DbLookupFailure" "\<not> rpcLookupFailure_tagged e"
  shows "\<exists>w'. failing_runs n env e now height hash i key w
      = (replicate (min n k) (Inr RollbackBlock) @ replicate (n - k) (Inr NextTx), w')
    \<and> (if k < n then ladder_at key 4 True (Suc poisoned) (Suc errors) w'
       else ladder_at key (3 - k + n) False poisoned errors w')"
  using assms
proof (induction n arbitrary: w k)
  case (Suc n)
  obtain w1 where w1: "ladder_at key (3 - k) False poisoned errors w1"
      "failing_run env e now height hash i key w = handleParseFailure env e now height hash i key w1"
    using ladder_begin[OF Suc.prems(1)] by blast
  show ?case
  proof (cases k)
    case 0
    then have "ladder_at key 3 False poisoned errors w1" using w1(1) by simp
    then obtain w2 where w2: "handleParseFailure env e now height hash i key w1 = (Inr NextTx, w2)"
        "ladder_at key 4 True (Suc poisoned) (Suc errors) w2"
      using ladder_quarantines[OF _ Suc.prems(3,4)] by blast
    obtain w3 where "failing_runs n env e now height hash i key w2 = (replicate n (Inr NextTx), w3)"
        "ladder_at key 4 True (Suc poisoned) (Suc errors) w3"
      using marked_runs[OF w2(2) Suc.prems(3,4)] by blast
    then show ?thesis by (simp add: 0 w1(2) w2(1))
  next
    case (Suc k')
    then obtain w2 where w2: "handleParseFailure env e now height hash i key w1 = (Inr RollbackBlock, w2)"
        "ladder_at key (Suc (3 - k)) False poisoned errors w2"
      using ladder_rolls_back[OF w1(1) _ Suc.prems(3,4)] by (metis Suc diff_less zero_less_Suc zero_less_numeral)
    have k': "Suc (3 - k) = 3 - k'" "k' \<le> 3" using Suc Suc.prems(2) by simp_all
    obtain w3 where "failing_runs n env e now height hash i key w2
          = (replicate (min n k') (Inr RollbackBlock) @ replicate (n - k') (Inr NextTx), w3)"
        "if k' < n then ladder_at key 4 True (Suc poisoned) (Suc errors) w3
         else ladder_at key (3 - k' + n) False poisoned errors w3"
      using Suc.IH[OF w2(2)[unfolded k'(1)] k'(2) Suc.prems(3,4)] by blast
    moreover have e: "3 - k + Suc n = 3 - k' + n" using Suc Suc.prems(2) by simp
    ultimately show ?thesis unfolding e by (auto simp: Suc w1(2) w2(1))
  qed
qed simp

section \<open>Faults that are not the transaction's\<close>

lemma tagged_keeps_counters:
  assumes "handleParseFailure env e now height hash i key w = (r, w')"
    and "e = DbLookupFailure \<or> rpcLookupFailure_tagged e"
  shows "w_loop w' = w_loop w \<and> w_marks w' = w_marks w \<and> w_stats w' = w_stats w \<and> r \<noteq> Inr NextTx"
  using assms
  by (auto simp: handleParseFailure_def end_and_rollback_def on_db_def db_bind_def db_return_def
      split: prod.splits sum.splits)

end
