(* ===== verification/Ingest_Properties.thy ===== *)
theory Ingest_Properties
  imports Block_Outcome Quarantine
begin

text \<open>
  Properties of storing a block and of the quarantine ladder, each with an example run: a network whose
  times are raw and whose gates are closed, a server that answers or fails as its list of fates says.
\<close>

section \<open>Example runs\<close>

definition demo_cfg :: decoder_config where
  "demo_cfg = \<lparr>coinTick = ''BTC'', consensusNetwork = ''mainnet'', feeDestination = None,
     expirationFeeDefaultDays = 0, supportsSegwit = True, auxPow = False\<rparr>"

definition demo_chain :: chain_env where
  "demo_chain = \<lparr>script_decompile = (\<lambda>_. Inr None), fromOutputScript = (\<lambda>_. None), aes128_block = (\<lambda>_ b. b),
     getRawTransaction = (\<lambda>_. RpcEmpty), transactionFromHex = (\<lambda>_. Inl ())\<rparr>"

definition demo_env :: store_env where
  "demo_env = \<lparr>ie_cfg = demo_cfg, ie_chain = demo_chain, ie_collate = (\<lambda>s. s), ie_message = (\<lambda>_. [1]),
     se_startBlockIndex = 5, se_safeDepth = 2\<rparr>"

definition demo_loop :: loop_state where
  "demo_loop = \<lparr>lp_lastTx = -1, lp_lastBlock = 4, lp_blocksQuantity = 0, lp_blocksCount = 0,
     lp_transactionsCount = 0, lp_validTransactions = 0, lp_outputCount = 0, lp_parseRetries = (\<lambda>_. None),
     lp_insertRetries = (\<lambda>_. None), lp_insertQuarantine = {}, lp_parseQuarantine = {}\<rparr>"

definition demo_world :: "errno option list \<Rightarrow> world" where
  "demo_world fates = \<lparr>w_stats = \<lparr>parseErrors = 0, rpcErrors = 0\<rparr>,
     w_marks = \<lparr>dm_quarantinedTxs = 0, dm_lastQuarantined = None, dm_ladderSteps = 0, dm_purgeFailures = 0,
       dm_lastBlock = 4, dm_nodeTip = 9\<rparr>,
     w_loop = demo_loop, w_open = {}, w_db = \<lparr>db_tables = fresh_tables, db_saved = None, db_fates = fates\<rparr>\<rparr>"

definition demo_block :: block where
  "demo_block = \<lparr>bk_timestamp = 7, bk_transactions = []\<rparr>"

lemmas demo_defs = demo_cfg_def demo_chain_def demo_env_def demo_loop_def demo_world_def demo_block_def
  fresh_tables_def empty_ledger_def

lemmas run_defs = storeBlock_def resolveBlockTimeContext_def history_wanted_def attempt_def getBlockByIndex_def
  insertBlockRecord_def insertBlock_def createTransaction_def getTransactionId_def insert_ignore_def lookup_id_def
  map_ledger_def add_block_def HASH_MAX_CHARS_def expireDispensersAtBlockStart_def
  expire_dispensers_def deleteOpenDispensers_def ledger_update_def soft_expire_def loadOpenDispenserAddresses_def
  getAllOpenDispenserAddresses_def open_addresses_def finishBlock_def and_then_def commitBlockBatch_def
  purgeExpiredAfterCommit_def purgeExpiredDispensers_def purge_dispensers_def purge_undo_def advance_def
  retryFailedCommit_def reset_cursors_def reset_counters_def resetBatchCounters_def clearQuarantineState_def
  end_and_rollback_def getLastBlockIndex_def getLastTxIndex_def highest_def MAX_ATTEMPTS_def
  DB_TRANSACTION_BLOCKS_QUANTITY_def beginTransaction_def commitTransaction_def endTransaction_def roll_back_def
  in_transaction_def fail_with_def duplicate_or_failed_def rethrow_or_def sql_query_def sql_write_def next_fate_def
  db_bind_def db_catch_def db_return_def on_db_def modify_def asks_def store_network_def as_ingest_def

lemma demo_gates:
  "isProtocolTimeMtpActive ''mainnet'' = False" "isDispenserExpiryRealignActive ''mainnet'' (Num 7)"
  "\<not> isDispenserCancelGraceParentFloorActive ''mainnet'' (Num 7)"
  "cancelGraceFloor ''mainnet'' (Num 7) Null = Some (-3593)" "purgeGraceFloor ''mainnet'' (Num 7) = None"
  "createBlockTimeContext ''mainnet'' (Num 7) (Some []) = \<lparr>ctx_rawBlockTime = Num 7, ctx_protocolBlockTime = Num 7\<rparr>"
  by code_simp+

text \<open>The server fails the second lookup of the block's insert, or nothing at all.\<close>

abbreviation stored_demo :: "errno option list \<Rightarrow> (errno + directive) \<times> world" where
  "stored_demo fates \<equiv> storeBlock demo_env demo_block 5 [5] [4] (demo_world fates)"

lemma demo_runs:
  "fst (stored_demo [None, None, Some 1205]) = Inr RollbackBlock"
  "fst (stored_demo []) = Inr Finished"
  "map b_index (l_blocks (session_ledger (w_db (snd (stored_demo []))))) = [5]"
  by (simp_all add: demo_defs run_defs demo_gates Let_def)

lemma demo_idle:
  "db_saved (w_db (demo_world fates)) = None" "lp_blocksQuantity (w_loop (demo_world fates)) = 0"
  "db_tables (w_db (demo_world fates)) = fresh_tables"
  by (simp_all add: demo_world_def demo_loop_def)

section \<open>Blocks\<close>



text \<open>
  C11.  A block that finishes can be taken back: no transaction is open, the ledger holds nothing above
  the block's height, and deleting the block gives the ledger it began with, up to the purge of long
  expired dispensers that follows its commit.
\<close>

theorem finished_block_can_be_deleted:
  assumes "storeBlock env block h hash prev w = (Inr Finished, w')"
    and "db_saved (w_db w) = None" "lp_blocksQuantity (w_loop w) = 0"
    and "sound_below h (session_ledger (w_db w))"
    and "deleteBlockByIndex h x (w_db w') = (Inr True, s)" and "0 < se_safeDepth env"
  shows "db_saved (w_db w') = None \<and> sound_below (Suc h) (session_ledger (w_db w'))
    \<and> (\<exists>f. session_ledger s \<in> purge_variants (int h - int (se_safeDepth env)) f (session_ledger (w_db w)))"
proof -
  obtain now where after: "after_block env (db_tables (w_db w)) h now w'"
    using store_block_finished[OF assms(1-3)] by blast
  note facts = after_block_undone[OF after assms(4) purge_height_below]
  have "session_ledger s = undo_block h (session_ledger (w_db w'))"
    using deleteBlockByIndex_atomic[OF assms(5) facts(1)]
    by (auto simp: block_removed_def append_event_def Let_def split: option.splits)
  with facts assms(6) show ?thesis by (simp add: purge_height_def)
qed

lemma demo_deleted: "fst (deleteBlockByIndex 5 None (w_db (snd (stored_demo [])))) = Inr True"
  by (simp add: demo_defs run_defs demo_gates Let_def deleteBlockByIndex_def restoreDispenserExtensions_def
      deleteBlockRows_def insertReorgEvent_def)

theorem finished_block_can_be_deleted_witness:
  "\<exists>f. session_ledger (snd (deleteBlockByIndex 5 None (w_db (snd (stored_demo []))))) \<in> purge_variants 3 f empty_ledger"
proof -
  have run: "stored_demo [] = (Inr Finished, snd (stored_demo []))"
    by (rule prod_eqI) (simp_all add: demo_runs)
  have del: "deleteBlockByIndex 5 None (w_db (snd (stored_demo [])))
      = (Inr True, snd (deleteBlockByIndex 5 None (w_db (snd (stored_demo [])))))"
    by (rule prod_eqI) (simp_all add: demo_deleted)
  have "sound_below 5 (session_ledger (w_db (demo_world [])))"
    by (simp add: demo_defs sound_below_def below_height_def ledger_wf_def)
  from finished_block_can_be_deleted[OF run demo_idle(1,2) this del] show ?thesis
    by (simp add: demo_env_def demo_idle fresh_tables_def)
qed

section \<open>The ladder\<close>



text \<open>
  C13.  Node and database trouble never counts against a transaction: a failure tagged as either leaves
  the retry counts, the quarantine sets and every counter as they were, and never skips the transaction.
\<close>

theorem tagged_failures_never_quarantine:
  assumes "e = DbLookupFailure \<or> rpcLookupFailure_tagged e"
    and "handleParseFailure env e now height hash i key w = (r, w')"
  shows "w_loop w' = w_loop w \<and> w_marks w' = w_marks w \<and> w_stats w' = w_stats w \<and> r \<noteq> Inr NextTx"
  using tagged_keeps_counters[OF assms(2,1)] .

theorem tagged_failures_never_quarantine_witness:
  "fst (handleParseFailure (as_ingest demo_env) RpcLookupFailure (Num 7) 5 None 0 [9] (demo_world [])) \<noteq> Inr NextTx"
  using tagged_failures_never_quarantine[of RpcLookupFailure, OF _ prod.collapse[symmetric]] by simp

text \<open>
  No two positions share a ladder: the retry key determines the height, the block hash and the
  position, whatever characters the hash is made of.
\<close>

theorem retry_key_is_injective:
  "quarantineKey h hash i = quarantineKey h' hash' i' \<longleftrightarrow> h = h' \<and> hash = hash' \<and> i = i'"
  using quarantineKey_inj by auto

end
