(* ===== verification/Sync_Properties.thy ===== *)
theory Sync_Properties
  imports Sync_Stranded Sync_Status Reorg_Properties Ingest_Properties
begin

text \<open>
  Properties of the parse loop, each with an example: a database a halt condemned, a node of another
  network, and a reorg of two blocks whose second proof cannot be read.
\<close>

section \<open>Example states\<close>

definition demo_park :: halt_park where
  "demo_park = \<lparr>hp_parked = False, hp_parkedAt = None, hp_parkedHeight = None, hp_unread = False, hp_probeFailed = None,
     hp_checkDue = False, hp_clearedAt = None, hp_clearedReason = None, hp_unreadProbeAt = 0\<rparr>"

definition demo_watch :: node_watch where
  "demo_watch = \<lparr>nw_catchingUp = None, nw_reorgWait = None, nw_refreshedAt = 1000, nw_synced = True, nw_mempool = False,
     nw_fetchHeight = None, nw_fetchErrors = 0, nw_auxPowErrors = 0, nw_polledAt = 0\<rparr>"

definition demo_info :: chain_info where
  "demo_info = \<lparr>ci_blocks = JsNumber 7, ci_verificationprogress = JsNumber 1, ci_initialblockdownload = JsBool False\<rparr>"

definition demo_sync :: "tables \<Rightarrow> sync_state" where
  "demo_sync t = \<lparr>sy_world = (demo_world [])\<lparr>w_loop := demo_loop\<lparr>lp_lastBlock := 6\<rparr>,
       w_marks := (w_marks (demo_world []))\<lparr>dm_lastBlock := 6, dm_nodeTip := 7\<rparr>,
       w_db := \<lparr>db_tables = t, db_saved = None, db_fates = []\<rparr>\<rparr>,
     sy_run = fork_start t, sy_park = demo_park, sy_watch = demo_watch,
     sy_latch = initialLoopLatches\<lparr>la_info := Some demo_info, la_refreshedAt := 1000\<rparr>\<rparr>"

text \<open>A node that has replaced both stored blocks, and whose header of the lower one cannot be read.\<close>

definition stray_node :: chain_node where
  "stray_node = \<lparr>cn_hash = (\<lambda>_ _. HashText (js ''c'')),
     cn_header = (\<lambda>_ x. if x = Some (js ''b'') then Header (Some (- 1)) else HeaderFailed),
     cn_info = (\<lambda>_. Info demo_info None), cn_now = (\<lambda>_. 1000)\<rparr>"

definition stray_env :: sync_env where
  "stray_env = \<lparr>sv_base = demo_env, sv_genesis = None, sv_node = stray_node, sv_chain = (\<lambda>_. demo_chain),
     sv_fetch = (\<lambda>_ _ _. FetchedHex []), sv_decode = (\<lambda>_. Some ([], demo_block))\<rparr>"

lemma stray_reorg:
  "sv_reorg stray_env = \<lparr>rc_network = ''mainnet'', rc_safeDepth = 2, rc_start = 5, rc_genesis = None\<rparr>"
  by (simp add: sv_reorg_def stray_env_def store_network_def sv_start_def demo_defs)

definition stray_tables :: tables where
  "stray_tables = block_removed 6 (Some (js ''b'')) fork_tables"

definition stray_left :: reorg_run where
  "stray_left = (begun (Some 7) (fork_start stray_tables))\<lparr>rw_tick := 7, wk_deleted := [(6, Some (js ''b''))]\<rparr>"

lemma stray_steps:
  "reorg_entry stray_node ((begun (Some 7) (fork_start fork_tables))\<lparr>rw_tick := 4\<rparr>)
     = (Inr 0, (begun (Some 7) (fork_start fork_tables))\<lparr>rw_tick := 4\<rparr>)"
  "walk_step (sv_reorg stray_env) stray_node 0 ((begun (Some 7) (fork_start fork_tables))\<lparr>rw_tick := 4\<rparr>) = (Inr True, stray_left)"
  "fst (walk_step (sv_reorg stray_env) stray_node 0 stray_left) = Inl (ReorgWait Unread 5 (Some (js ''a'')))"
  "db_saved (rw_db (snd (walk_step (sv_reorg stray_env) stray_node 0 stray_left))) = None"
  "db_tables (rw_db (snd (walk_step (sv_reorg stray_env) stray_node 0 stray_left))) = stray_tables"
  unfolding stray_reorg
  by (simp_all add: stray_node_def stray_left_def stray_tables_def read_at_once block_removed_def fork_defs walk_defs Let_def)

lemma stray_walk:
  obtains v where "verifyReorg (sv_reorg stray_env) stray_node (Some 7) ((fork_start fork_tables)\<lparr>rw_tick := 4\<rparr>)
      = Some (Inl (ReorgWait Unread 5 (Some (js ''a''))), v)" "db_saved (rw_db v) = None" "db_tables (rw_db v) = stray_tables"
proof -
  let ?w = "(begun (Some 7) (fork_start fork_tables))\<lparr>rw_tick := 4\<rparr>"
  have w: "begun (Some 7) ((fork_start fork_tables)\<lparr>rw_tick := 4\<rparr>) = ?w" by (simp add: begun_def)
  obtain v where v: "walk_step (sv_reorg stray_env) stray_node 0 stray_left = (Inl (ReorgWait Unread 5 (Some (js ''a''))), v)"
    using stray_steps(3) by (metis prod.collapse)
  have "verifyReorg (sv_reorg stray_env) stray_node (Some 7) ((fork_start fork_tables)\<lparr>rw_tick := 4\<rparr>)
      = Some (Inl (ReorgWait Unread 5 (Some (js ''a''))), v)"
    by (simp add: verifyReorg_begun w stray_steps(1,2) walkReorg.simps[of _ _ _ ?w] walkReorg.simps[of _ _ _ stray_left] v)
  with that[of v] stray_steps(4,5) show ?thesis by (simp add: v)
qed

definition stray_wait :: reorg_wait where
  "stray_wait = \<lparr>wt_height = 5, wt_hash = Some (js ''a''), wt_class = Unread, wt_since = 1000\<rparr>"

lemma stray_heights: "6 \<notin> set (stored_heights stray_tables)"
  by (simp add: stray_tables_def stored_heights_removed)

lemma demo_block_read:
  "getBlockByIndex 6 \<lparr>db_tables = fork_tables, db_saved = None, db_fates = []\<rparr>
     = (Inr (Some \<lparr>bv_row = \<lparr>b_index = 6, b_hash = Some 3, b_time = Some 8, b_previous = Some 2\<rparr>,
          bv_hash = Some (js ''b''), bv_previous = Some (js ''a'')\<rparr>),
        \<lparr>db_tables = fork_tables, db_saved = None, db_fates = []\<rparr>)"
  by (simp add: getBlockByIndex_def MAX_ATTEMPTS_def read_at_once fork_tables_def fresh_tables_def empty_ledger_def id_text_def)

lemma cursor_frame:
  "cursor (s\<lparr>sy_run := v\<rparr>) = cursor s" "cursor (s\<lparr>sy_watch := n\<rparr>) = cursor s" "cursor (s\<lparr>sy_latch := l\<rparr>) = cursor s"
  "node_tip (s\<lparr>sy_run := v\<rparr>) = node_tip s" "node_tip (s\<lparr>sy_watch := n\<rparr>) = node_tip s"
  by (simp_all add: cursor_def node_tip_def)

lemma stray_simps:
  "cn_now stray_node k = 1000" "cn_hash stray_node k h = HashText (js ''c'')" "sv_node stray_env = stray_node"
  "sv_fetch stray_env k how hash = FetchedHex []" "sv_decode stray_env hex = Some ([], demo_block)"
  "sv_start stray_env = 5" "\<not> auxPow (ie_cfg (sv_base stray_env))" "uint8ArrayToHex [] = []" "js ''b'' \<noteq> []" "js ''a'' \<noteq> []" "sv_genesis stray_env = None"
  by (simp_all add: stray_env_def stray_node_def sv_start_def demo_defs uint8ArrayToHex_def js_def)

lemma stray_detect:
  assumes s: "sy_run s = (fork_start fork_tables)\<lparr>rw_tick := 4\<rparr>" "node_tip s = 7" "nw_reorgWait (sy_watch s) = None"
  shows "\<exists>t. detectReorgAtBlock stray_env 7 [] s = Some (Inr True, t) \<and> ended stray_tables (sy_db t)
    \<and> cursor t = cursor s \<and> sy_park t = sy_park s \<and> nw_reorgWait (sy_watch t) = Some stray_wait"
proof -
  obtain v where v: "verifyReorg (sv_reorg stray_env) stray_node (Some 7) ((fork_start fork_tables)\<lparr>rw_tick := 4\<rparr>)
      = Some (Inl (ReorgWait Unread 5 (Some (js ''a''))), v)" "db_saved (rw_db v) = None" "db_tables (rw_db v) = stray_tables"
    by (rule stray_walk)
  have db: "rw_db (fork_start fork_tables) = \<lparr>db_tables = fork_tables, db_saved = None, db_fates = []\<rparr>"
    by (simp add: fork_start_def)
  have same: "(fork_start fork_tables)\<lparr>rw_tick := 4, rw_db := \<lparr>db_tables = fork_tables, db_saved = None, db_fates = []\<rparr>\<rparr>
      = (fork_start fork_tables)\<lparr>rw_tick := 4\<rparr>" "s\<lparr>sy_run := (fork_start fork_tables)\<lparr>rw_tick := 4\<rparr>\<rparr> = s"
    using s(1) by (simp_all add: fork_start_def)
  have read: "sy_attempt (getBlockByIndex 6) s = Some (Inr (Some (Some \<lparr>bv_row = \<lparr>b_index = 6, b_hash = Some 3, b_time = Some 8,
      b_previous = Some 2\<rparr>, bv_hash = Some (js ''b''), bv_previous = Some (js ''a'')\<rparr>)), s)"
    by (simp add: sy_attempt_def on_run_def try_db_def s(1) db demo_block_read same)
  define s1 where "s1 = s\<lparr>sy_world := (sy_world s)\<lparr>w_db := \<lparr>db_tables = fork_tables, db_saved = None, db_fates = []\<rparr>\<rparr>\<rparr>"
  have end_tx: "sy_query endTransaction s = Some (Inr (), s1)"
    using same by (simp add: sy_query_def on_world_def on_db_def endTransaction_def s(1) db s1_def cong: sync_state.fold_congs)
  have s1: "sy_run s1 = (fork_start fork_tables)\<lparr>rw_tick := 4\<rparr>" "node_tip s1 = 7" "nw_reorgWait (sy_watch s1) = None"
    "cursor s1 = cursor s" "sy_park s1 = sy_park s"
    using s by (simp_all add: s1_def node_tip_def cursor_def)
  show ?thesis
    by (simp add: detectReorgAtBlock_def rollBackDetectedReorg_def reconcile_with_def run_verifyReorg_def parkOrRethrow_def
        wait_on_def setReorgWait_def sy_bind_def sy_catch_def sy_get_def sy_return_def sy_setters sy_put_def clock_def
        on_run_def asking_def read end_tx s1 v stray_simps)
      (simp add: s1 v ended_def stray_wait_def cursor_frame)
qed

lemma demo_sync_parts:
  "cursor (demo_sync t) = 6" "node_tip (demo_sync t) = 7" "sy_run (demo_sync t) = fork_start t"
  "sy_park (demo_sync t) = demo_park" "sy_watch (demo_sync t) = demo_watch" "sy_db (demo_sync t) = \<lparr>db_tables = t, db_saved = None, db_fates = []\<rparr>"
  "sy_latch (demo_sync t) = initialLoopLatches\<lparr>la_info := Some demo_info, la_refreshedAt := 1000\<rparr>"
  by (simp_all add: demo_sync_def cursor_def node_tip_def demo_world_def demo_loop_def fork_start_def)

lemma fork_start_db: "rw_db (fork_start t) = \<lparr>db_tables = t, db_saved = None, db_fates = []\<rparr>"
  by (simp add: fork_start_def)

lemma stray_pass: "\<exists>t. loop_pass stray_env (demo_sync fork_tables) = Some (Inr (), t)
    \<and> stranded stray_tables 6 (Some stray_wait) t"
proof -
  define s1 where "s1 = (demo_sync fork_tables)\<lparr>sy_run := (fork_start fork_tables)\<lparr>rw_tick := 4\<rparr>,
    sy_watch := demo_watch\<lparr>nw_polledAt := 1000, nw_fetchHeight := Some 7\<rparr>\<rparr>"
  have "node_tip s1 = 7" "sy_run s1 = (fork_start fork_tables)\<lparr>rw_tick := 4\<rparr>" "nw_reorgWait (sy_watch s1) = None"
    "cursor s1 = 6" "sy_park s1 = demo_park"
    by (simp_all add: s1_def cursor_frame demo_sync_parts demo_watch_def)
  with stray_detect[of s1] obtain t where t: "detectReorgAtBlock stray_env 7 [] s1 = Some (Inr True, t)"
    "ended stray_tables (sy_db t)" "cursor t = 6" "sy_park t = demo_park" "nw_reorgWait (sy_watch t) = Some stray_wait" by auto
  have "loop_pass stray_env (demo_sync fork_tables) = Some (Inr (), t)"
    using t(1)
    by (simp add: loop_pass_def reorgHaltHoldsLoop_def tip_due_def parse_or_wait_def ingestNextBlock_def note_behind_def
      fetchNextBlock_def fetchBlockHex_def ingest_block_def sy_bind_def sy_get_def sy_put_def sy_return_def sy_setters clock_def
      on_run_def asking_def stray_simps demo_sync_parts cursor_frame demo_park_def demo_watch_def initialLoopLatches_def
      BLOCKCHAIN_INFO_REFRESH_MS_def SYNCED_THRESHOLD_def s1_def Let_def numeral_eq_Suc fork_start_def)
  moreover have "stranded stray_tables 6 (Some stray_wait) t"
    using t stray_heights by (simp add: stranded_def demo_park_def)
  ultimately show ?thesis by blast
qed

section \<open>Halted databases\<close>

text \<open>
  C1.  A condemned database is never parsed: where the tables carry a live halt and rolled-back heights
  above the stored tip (or markers that cannot be counted), a decoder that boots on them parks, and
  through any number of passes, with any node and any failures of the server, it stays parked and the
  tables stay as they are.
\<close>

theorem condemned_database_is_never_parsed:
  assumes "bootDecoder env s = Some (Inr (), t)" "db_saved (sy_db s) = None" "\<not> hp_parked (sy_park s)"
    and "condemned (db_tables (sy_db s))" "loop_run env t u"
  shows "hp_parked (sy_park u) \<and> db_tables (sy_db u) = db_tables (sy_db s)"
proof -
  have "ended (db_tables (sy_db s)) (sy_db s)" using assms(2) by (simp add: ended_def)
  from parked_run[OF assms(5) boot_parks[OF assms(1) this assms(4,3)]] show ?thesis
    by (simp add: park_holds_def ended_def)
qed

lemma lost_condemned: "condemned lost_tables"
proof -
  have live: "live_halt lost_tables"
    by (simp add: live_halt_def lost_tables_def append_event_def halt_state_snoc halt_row_live)
  have events: "tb_events lost_tables = [reorg_event 6 (js ''b''), \<lparr>ev_time = None, ev_code = js ''REORG_HALT'',
      ev_data = halt_json lost_reason (toISOString 1000)\<rparr>]"
    by (simp add: lost_tables_def append_event_def block_removed_def fork_tables_def fresh_tables_def Let_def)
  have "js ''REORG_HALT'' \<noteq> js ''REORG''" by (simp add: js_def)
  then have rows: "marker_rows (tb_events lost_tables) = [reorg_event 6 (js ''b'')]"
    by (simp add: events marker_rows_def reorg_event_code SCAN_LIMIT_def)
  have "stored_heights lost_tables = [5]"
    using fork_heights(1) by (simp add: lost_tables_def append_event_def stored_heights_removed fork_start_def
        stored_heights_def[of "tables.tb_events_update _ _"] flip: stored_heights_def)
  then have "rolled_heights lost_tables = Some [6]"
    using reorg_event_height[OF plain_js, of 6 "''b''"] by (simp add: rolled_heights_def rows heights_above_def highest_def)
  with live show ?thesis by (simp add: condemned_def)
qed

lemma boots:
  assumes "sv_genesis env = None"
  shows "\<exists>t. bootDecoder env (demo_sync T) = Some (Inr (), t)"
proof -
  have genesis: "refuseForeignChain env s = Some (Inr (), s)" for s
    using assms by (simp add: refuseForeignChain_def verifyChainGenesis_def chainGenesisUnpinned_def sv_reorg_def
        sy_bind_def on_run_def db_return_def sy_return_def)
  have check: "\<exists>b t. checkReorgHalt True now s = Some (Inr b, t) \<and> db_fates (sy_db t) = []"
    if "db_fates (sy_db s) = []" for now s
    using that by (simp add: checkReorgHalt_def probe_marker_def adopt_marker_def noteReorgHaltTransition_def
        sy_attempt_def try_db_def getReorgHaltMarker_def readReorgHaltState_def sql_query_def next_fate_def db_bind_def
        db_return_def sy_bind_def sy_get_def sy_put_def sy_setters set_reorg_put sy_return_def on_run_def exI[of _ True])
  have cursors: "\<exists>t. readLoopCursors env s = Some (Inr (), t)" if "db_fates (sy_db s) = []" for s
    using that by (simp add: readLoopCursors_def sy_query_def on_world_def on_db_def getLastBlockIndex_def
        getLastTxIndex_def MAX_ATTEMPTS_def read_at_once sy_bind_def sy_put_def)
  have park: "\<exists>b t. parkOnRolledBackHalt env s = Some (Inr b, t)" for s
  proof -
    obtain r d where q: "readRolledBackAboveTip (sy_db s) = (r, d)" by fastforce
    then obtain n where "r = Inr n"
      by (auto simp: readRolledBackAboveTip_def db_catch_def db_bind_def db_return_def split: prod.splits sum.splits)
    moreover have "\<exists>b. b" "Ex Not" by auto
    ultimately show ?thesis using q
      by (simp add: parkOnRolledBackHalt_def parkOnReorgHalt_def sy_query_def on_world_def on_db_def clock_def on_run_def
          asking_def sy_bind_def sy_get_def sy_put_def sy_setters sy_return_def)
  qed
  obtain now where c: "clock env (demo_sync T) = Some (Inr now,
      (demo_sync T)\<lparr>sy_run := (sy_run (demo_sync T))\<lparr>rw_tick := Suc (rw_tick (sy_run (demo_sync T)))\<rparr>\<rparr>)"
    by (auto simp: clock_def asking_result)
  obtain b s1 where "checkReorgHalt True now ((demo_sync T)\<lparr>sy_run := (sy_run (demo_sync T))
      \<lparr>rw_tick := Suc (rw_tick (sy_run (demo_sync T)))\<rparr>\<rparr>) = Some (Inr b, s1)" "db_fates (sy_db s1) = []"
    using check[of "(demo_sync T)\<lparr>sy_run := (sy_run (demo_sync T))\<lparr>rw_tick := Suc (rw_tick (sy_run (demo_sync T)))\<rparr>\<rparr>" now]
    by (auto simp: demo_sync_parts fork_start_db)
  moreover from cursors[OF this(2)] obtain s2 where "readLoopCursors env s1 = Some (Inr (), s2)" by blast
  moreover obtain a s3 where "parkOnRolledBackHalt env (s2\<lparr>sy_world := (sy_world s2)\<lparr>w_loop := fresh_loop (w_loop (sy_world s2))\<rparr>,
      sy_latch := initialLoopLatches, sy_park := (sy_park s2)\<lparr>hp_checkDue := False\<rparr>\<rparr>) = Some (Inr a, s3)"
    using park by blast
  ultimately show ?thesis
    using c by (simp add: bootDecoder_def genesis sy_bind_def sy_setters sy_put_def sy_return_def)
qed

definition booted :: "sync_env \<Rightarrow> tables \<Rightarrow> sync_state" where
  "booted env T = snd (the (bootDecoder env (demo_sync T)))"

lemma booted: "sv_genesis env = None \<Longrightarrow> bootDecoder env (demo_sync T) = Some (Inr (), booted env T)"
  using boots[of env T] by (auto simp: booted_def)

theorem condemned_database_is_never_parsed_witness:
  "{u. loop_run stray_env (booted stray_env lost_tables) u}
    \<subseteq> {u. hp_parked (sy_park u) \<and> db_tables (sy_db u) = lost_tables}"
  using condemned_database_is_never_parsed[OF booted[OF stray_simps(11)], of lost_tables] lost_condemned
  by (auto simp: demo_sync_parts fork_start_db demo_park_def)

section \<open>Refused nodes\<close>

text \<open>
  C2.  A node that no gate lets through changes nothing: where every answer to \<open>getblockchaininfo\<close> is a
  failure, is malformed, names another network or says that the node has not synchronised, a decoder
  that boots and runs any number of passes leaves every table as it found it, whatever the node answers
  to its other calls.
\<close>

theorem refused_node_changes_nothing:
  assumes "bootDecoder env s = Some (Inr (), t)" "db_saved (sy_db s) = None"
    and "\<And>k. refused env (cn_info (sv_node env) k)" "loop_run env t u"
  shows "db_tables (sy_db u) = db_tables (sy_db s) \<and> db_saved (sy_db u) = None"
proof -
  have "ended (db_tables (sy_db s)) (sy_db s)" using assms(2) by (simp add: ended_def)
  from shut_run[OF assms(4) _ assms(3)] shut_boot[OF assms(1) this] show ?thesis
    by (auto simp: shut_def ended_def)
qed

definition foreign_env :: sync_env where
  "foreign_env = stray_env\<lparr>sv_node := stray_node\<lparr>cn_info := (\<lambda>_. Info demo_info (Some (js ''test'')))\<rparr>\<rparr>"

theorem refused_node_changes_nothing_witness:
  "{u. loop_run foreign_env (booted foreign_env fork_tables) u} \<subseteq> {u. db_tables (sy_db u) = fork_tables}"
proof -
  have "chainTierMismatch ''mainnet'' (Some (js ''test''))" by code_simp
  then have no: "refused foreign_env (cn_info (sv_node foreign_env) k)" for k
    by (simp add: refused_def foreign_env_def stray_env_def store_network_def demo_defs)
  have "sv_genesis foreign_env = None" by (simp add: foreign_env_def stray_env_def)
  from refused_node_changes_nothing[OF booted[OF this] _ no, of fork_tables] show ?thesis
    by (auto simp: demo_sync_parts fork_start_db)
qed

section \<open>A cursor above the stored tip\<close>

text \<open>
  C3.  A reorg walk that deletes blocks and then waits leaves the loop stuck: in a state whose cursor is
  above the stored tip (no block is stored at it) while a wait is published, with a node whose tip
  reaches the cursor and whose blocks decode, no pass moves the cursor, clears the wait or changes a
  table, and \<open>isStalled\<close> answers false throughout, with any windows and at any time.  The witness reaches
  such a state in one pass from a stored chain whose cursor is its tip.
\<close>

theorem waiting_walk_strands_the_loop:
  assumes "db_saved (sy_db s) = None" "nat (cursor s) \<notin> set (stored_heights (db_tables (sy_db s)))"
    and "int (sv_start env) \<le> cursor s" "\<not> hp_parked (sy_park s)" "\<not> hp_checkDue (sy_park s)"
    and "nw_reorgWait (sy_watch s) = Some w" "node_reaches env (cursor s)" "blocks_decode env" "loop_run env s u"
  shows "cursor u = cursor s \<and> db_tables (sy_db u) = db_tables (sy_db s) \<and> nw_reorgWait (sy_watch u) = Some w
    \<and> \<not> isStalled cfg now ps u"
proof -
  have "stranded (db_tables (sy_db s)) (cursor s) (Some w) s"
    using assms(1-6) by (simp add: stranded_def ended_def)
  from stranded_run[OF assms(9,3,7,8) this] show ?thesis
    by (simp add: stranded_def ended_def isStalled_def)
qed

lemma stray_reaches: "node_reaches stray_env 6" "blocks_decode stray_env"
  by (auto simp: node_reaches_def blocks_decode_def stray_simps)
    (simp add: stray_node_def demo_info_def info_height_def)

definition demo_stall :: stall_config where
  "demo_stall = \<lparr>sc_stallAlert = None, sc_pollSilent = None, sc_fetchAttempts = None\<rparr>"

definition demo_stamps :: progress_stamps where
  "demo_stamps = \<lparr>ps_lastAdvanceAt = 1000, ps_lastLadderStepAt = 0\<rparr>"

theorem waiting_walk_strands_the_loop_witness:
  "\<exists>t. loop_pass stray_env (demo_sync fork_tables) = Some (Inr (), t)
     \<and> {u. loop_run stray_env t u} \<subseteq> {u. cursor u = 6 \<and> stored_heights (db_tables (sy_db u)) = [5]
          \<and> \<not> isStalled demo_stall 1000000000 demo_stamps u}"
proof -
  obtain t where t: "loop_pass stray_env (demo_sync fork_tables) = Some (Inr (), t)"
    and s: "stranded stray_tables 6 (Some stray_wait) t" using stray_pass by blast
  have "stored_heights stray_tables = [5]"
    using fork_heights(1) by (simp add: stray_tables_def stored_heights_removed fork_start_def)
  with s waiting_walk_strands_the_loop[of t stray_env stray_wait] stray_reaches t show ?thesis
    by (auto simp: stranded_def ended_def stray_simps)
qed

end
