(* ===== verification/Rpc_Transport.thy ===== *)
theory Rpc_Transport
  imports Js_Date Js_Number
begin

text \<open>
  The node connector (\<open>src/src/chain/blockchain_connector.js\<close> and
  \<open>blockchain_connector/rpc_transport.js\<close>, \<open>rpc_helpers.js\<close>, \<open>transaction_queries.js\<close>): one post with
  its failover, the two retry ladders above it, and the reading of an answer.  What an endpoint answers to
  the n-th post is an argument, so that it may change its mind between any two.  Pauses and log lines
  are left out; so is the scrubbing of credentials, which only log lines see.
\<close>

section \<open>Answers and faults\<close>

text \<open>A JSON value as far as the callers look at it: a text, the transaction ids of a verbose block,
  the array of a node's mempool, the height of its tip, or something else, which may be falsy.\<close>

datatype rpc_value =
    TextValue jsstr
  | VerboseBlock "jsstr list option"
  | TxidList "jsstr list"
  | TipInfo "jsstr option" "int option"
  | OtherValue bool

record rpc_error =
  er_code :: "int option"
  er_message :: "jsstr option"

datatype rpc_body =
    NoData
  | Body "rpc_error option" "rpc_value option"

datatype http_outcome =
    Answered rpc_body
  | HttpError "string option" int "rpc_error option"
  | NoResponse "string option"

text \<open>What callers read of a thrown error: \<open>error.code\<close>, the status and the JSON-RPC error of its
  response, the fields \<open>rpcCode\<close> and \<open>rpcMessage\<close> attached to it, and \<open>auxPowParseFailure\<close>.\<close>

record rpc_fault =
  rf_code :: "string option"
  rf_status :: "int option"
  rf_body :: "rpc_error option"
  rf_rpcCode :: "int option"
  rf_rpcMessage :: "jsstr option"
  rf_auxPow :: bool

definition plain_fault :: rpc_fault where
  "plain_fault = \<lparr>rf_code = None, rf_status = None, rf_body = None, rf_rpcCode = None, rf_rpcMessage = None,
     rf_auxPow = False\<rparr>"

definition attachRpcFields :: "rpc_fault \<Rightarrow> int option \<Rightarrow> jsstr option \<Rightarrow> rpc_fault" where
  "attachRpcFields f code msg =
     (if code = None \<and> msg = None then f else f\<lparr>rf_rpcCode := code, rf_rpcMessage := msg\<rparr>)"

text \<open>The response is reduced to its status.\<close>

definition sanitizeRpcError :: "rpc_fault \<Rightarrow> rpc_fault" where
  "sanitizeRpcError f =
     (let (code, msg) = (case rf_body f of None \<Rightarrow> (None, None) | Some e \<Rightarrow> (er_code e, er_message e))
      in attachRpcFields (f\<lparr>rf_body := None\<rparr>) code msg)"

definition carryErrorIdentity :: "rpc_fault \<Rightarrow> rpc_fault option \<Rightarrow> rpc_fault" where
  "carryErrorIdentity f cause =
     (case cause of
        None \<Rightarrow> f
      | Some c \<Rightarrow> attachRpcFields (f\<lparr>rf_code := (case rf_code c of None \<Rightarrow> rf_code f | Some k \<Rightarrow> Some k)\<rparr>) (rf_rpcCode c) (rf_rpcMessage c))"

definition rpcResult :: "rpc_body \<Rightarrow> rpc_fault + rpc_value" where
  "rpcResult b =
     (case b of
        NoData \<Rightarrow> Inl plain_fault
      | Body (Some e) _ \<Rightarrow> Inl (attachRpcFields plain_fault (er_code e) (er_message e))
      | Body None None \<Rightarrow> Inl plain_fault
      | Body None (Some v) \<Rightarrow> Inr v)"

section \<open>Settings\<close>

text \<open>\<open>envInt\<close>: a setting that is not a whole number from its minimum on falls back.\<close>

definition whole_number :: "jsstr \<Rightarrow> int option" where
  "whole_number s =
     (let (neg, ds) = (case s of u # t \<Rightarrow> if u = 45 then (True, t) else (False, s) | [] \<Rightarrow> (False, []))
      in if ds \<noteq> [] \<and> list_all is_digit ds
         then Some (if neg then - int (decimal_value ds) else int (decimal_value ds)) else None)"

definition envInt :: "jsstr option \<Rightarrow> int \<Rightarrow> int \<Rightarrow> int" where
  "envInt raw fallback mn =
     (let s = (case raw of None \<Rightarrow> [] | Some r \<Rightarrow> js_trim r)
      in if s = [] then fallback
         else (case whole_number s of None \<Rightarrow> fallback | Some n \<Rightarrow> if n < mn then fallback else n))"

text \<open>The match of \<open>/^(https?:\/\/)?([^:/]+)(?::(\d+))?$/\<close>; a host cannot take over a protocol prefix, since
  what follows it is no port.\<close>

definition normalizeEndpoint :: "jsstr \<Rightarrow> jsstr \<Rightarrow> jsstr option" where
  "normalizeEndpoint entry defaultPort =
     (let t = js_trim entry;
          (protocol, r) = (if starts_with (js ''http://'') t then (js ''http://'', drop 7 t)
                           else if starts_with (js ''https://'') t then (js ''https://'', drop 8 t)
                           else (js ''http://'', t));
          host = takeWhile (\<lambda>u. u \<noteq> 58 \<and> u \<noteq> 47) r; rest = dropWhile (\<lambda>u. u \<noteq> 58 \<and> u \<noteq> 47) r
      in if host = [] then None
         else (case rest of
                 [] \<Rightarrow> Some (protocol @ host @ [58] @ defaultPort)
               | u # port \<Rightarrow> if u = 58 \<and> port \<noteq> [] \<and> list_all is_digit port
                   then Some (protocol @ host @ [58] @ port) else None))"

section \<open>The connector\<close>

record connector =
  co_endpoints :: "jsstr list"
  co_active :: nat
  co_failures :: nat
  co_threshold :: int
  co_rpcErrors :: nat
  co_startedAt :: int
  co_lastOk :: int
  co_lastFail :: int
  co_posts :: nat

definition new_connector :: "jsstr \<Rightarrow> jsstr \<Rightarrow> jsstr \<Rightarrow> jsstr option \<Rightarrow> int \<Rightarrow> connector option" where
  "new_connector url port fallbacks threshold now =
     (let entries = url # filter (\<lambda>s. s \<noteq> []) (map js_trim (split_on 44 fallbacks))
      in if list_all (\<lambda>e. normalizeEndpoint e port \<noteq> None) entries
         then Some \<lparr>co_endpoints = map (\<lambda>e. the (normalizeEndpoint e port)) entries, co_active = 0, co_failures = 0,
                co_threshold = envInt threshold 3 1, co_rpcErrors = 0, co_startedAt = now, co_lastOk = 0, co_lastFail = 0, co_posts = 0\<rparr>
         else None)"

definition url :: "connector \<Rightarrow> jsstr" where
  "url c = co_endpoints c ! co_active c"

definition CONNECTION_ERROR_CODES :: "string list" where
  "CONNECTION_ERROR_CODES = [''ECONNREFUSED'', ''ECONNRESET'', ''ECONNABORTED'', ''ENOTFOUND'',
     ''EHOSTUNREACH'', ''ENETUNREACH'', ''ETIMEDOUT'', ''EAI_AGAIN'', ''EPIPE'']"

record 'q rpc_env =
  re_answer :: "nat \<Rightarrow> jsstr \<Rightarrow> 'q \<Rightarrow> http_outcome"
  re_clock :: "nat \<Rightarrow> int"

definition noteConnectionFailure :: "connector \<Rightarrow> connector" where
  "noteConnectionFailure c =
     (if length (co_endpoints c) < 2 then c
      else if co_threshold c \<le> int (co_failures c + 1)
      then c\<lparr>co_active := (co_active c + 1) mod length (co_endpoints c), co_failures := 0\<rparr>
      else c\<lparr>co_failures := co_failures c + 1\<rparr>)"

definition rpcPost :: "'q rpc_env \<Rightarrow> 'q \<Rightarrow> connector \<Rightarrow> (rpc_fault + (rpc_body)) \<times> connector" where
  "rpcPost env q c =
     (let now = re_clock env (co_posts c); c1 = c\<lparr>co_posts := co_posts c + 1\<rparr>
      in case re_answer env (co_posts c) (url c) q of
           Answered b \<Rightarrow> (Inr b, c1\<lparr>co_failures := 0, co_lastOk := now\<rparr>)
         | HttpError k st e \<Rightarrow> (Inl (plain_fault\<lparr>rf_code := k, rf_status := Some st, rf_body := e\<rparr>), c1\<lparr>co_lastFail := now, co_failures := 0\<rparr>)
         | NoResponse k \<Rightarrow>
             (Inl (plain_fault\<lparr>rf_code := k\<rparr>),
              (if \<exists>code. k = Some code \<and> code \<in> set CONNECTION_ERROR_CODES then noteConnectionFailure else (\<lambda>x. x))
                (c1\<lparr>co_lastFail := now\<rparr>)))"

definition count_rpc :: "connector \<Rightarrow> connector" where
  "count_rpc c = c\<lparr>co_rpcErrors := co_rpcErrors c + 1\<rparr>"

section \<open>The retry ladder of the block path\<close>

fun timeout_retries :: "'q rpc_env \<Rightarrow> 'q \<Rightarrow> nat \<Rightarrow> rpc_fault option \<Rightarrow> connector \<Rightarrow> (rpc_fault + rpc_value) \<times> connector" where
  "timeout_retries env q 0 final c = (Inl (carryErrorIdentity plain_fault final), count_rpc c)"
| "timeout_retries env q (Suc tries) final c =
     (case rpcPost env q c of
        (Inr b, c1) \<Rightarrow> (case rpcResult b of Inr v \<Rightarrow> (Inr v, c1) | Inl f \<Rightarrow> (Inl (sanitizeRpcError f), count_rpc c1))
      | (Inl f, c1) \<Rightarrow>
          if rf_code f = Some ''ECONNABORTED'' then timeout_retries env q tries (Some (sanitizeRpcError f)) c1
          else (Inl (sanitizeRpcError f), count_rpc c1))"

definition rpcCallWithTimeoutRetry :: "'q rpc_env \<Rightarrow> 'q \<Rightarrow> connector \<Rightarrow> (rpc_fault + rpc_value) \<times> connector" where
  "rpcCallWithTimeoutRetry env q = timeout_retries env q 10 None"

section \<open>The retry ladder of a raw transaction\<close>

definition whole_hex :: "jsstr \<Rightarrow> bool" where
  "whole_hex s \<longleftrightarrow> s \<noteq> [] \<and> even (length s) \<and> list_all (\<lambda>u. hex_digit u \<noteq> None) s"

fun truthy_value :: "rpc_value \<Rightarrow> bool" where
  "truthy_value (TextValue s) \<longleftrightarrow> s \<noteq> []"
| "truthy_value (OtherValue b) \<longleftrightarrow> b"
| "truthy_value _ \<longleftrightarrow> True"

definition wholeHexResult :: "rpc_value \<Rightarrow> rpc_fault + jsstr" where
  "wholeHexResult v = (case v of TextValue s \<Rightarrow> if whole_hex s then Inr s else Inl plain_fault | _ \<Rightarrow> Inl plain_fault)"

definition rawTransactionResponse :: "rpc_body \<Rightarrow> rpc_fault + jsstr option" where
  "rawTransactionResponse b =
     (case b of
        NoData \<Rightarrow> Inl plain_fault
      | Body e r \<Rightarrow>
          (case (case e of None \<Rightarrow> None | Some x \<Rightarrow> if er_code x = None \<or> er_code x = Some (- 5) then None else e) of
             Some x \<Rightarrow> Inl (plain_fault\<lparr>rf_status := Some 200, rf_body := Some x\<rparr>)
           | None \<Rightarrow>
               (case r of
                  Some v \<Rightarrow> if truthy_value v then map_sum id Some (wholeHexResult v) else Inr None
                | None \<Rightarrow> Inr None)))"

text \<open>A failed attempt resolves the call where the node says that there is no such transaction.\<close>

definition not_found :: "rpc_fault \<Rightarrow> bool" where
  "not_found f \<longleftrightarrow> (case rf_body f of None \<Rightarrow> False | Some e \<Rightarrow> er_code e = Some (- 5))"

fun raw_retries :: "'q rpc_env \<Rightarrow> 'q \<Rightarrow> nat \<Rightarrow> rpc_fault option \<Rightarrow> connector \<Rightarrow> (rpc_fault + jsstr option) \<times> connector" where
  "raw_retries env q 0 final c = (Inl (carryErrorIdentity plain_fault final), count_rpc c)"
| "raw_retries env q (Suc tries) final c =
     (let (r, c1) = rpcPost env q c
      in case bind_res r rawTransactionResponse of
           Inr v \<Rightarrow> (Inr v, c1)
         | Inl f \<Rightarrow> if not_found f then (Inr None, c1) else raw_retries env q tries (Some (sanitizeRpcError f)) c1)"

definition runRawTransactionRetries :: "'q rpc_env \<Rightarrow> 'q \<Rightarrow> connector \<Rightarrow> (rpc_fault + jsstr option) \<times> connector" where
  "runRawTransactionRetries env q = raw_retries env q 10 None"

section \<open>Whether the node answers\<close>

record node_unreachable =
  nu_since :: jsstr
  nu_last_ok_at :: "jsstr option"
  nu_seconds :: nat

record node_reachability =
  na_last_ok_at :: "jsstr option"
  na_unreachable :: "node_unreachable option"

definition nodeReachabilityFrom :: "int \<Rightarrow> int \<Rightarrow> int \<Rightarrow> int \<Rightarrow> node_reachability" where
  "nodeReachabilityFrom startedAt lastOk lastFail now =
     (let lastOkIso = (if 0 < lastOk then Some (toISOString lastOk) else None);
          failing = 0 < lastFail \<and> (lastOk = 0 \<or> lastOk < lastFail);
          sinceMs = (if 0 < lastOk then lastOk else startedAt)
      in \<lparr>na_last_ok_at = lastOkIso,
          na_unreachable = (if \<not> failing then None
            else Some \<lparr>nu_since = toISOString sinceMs, nu_last_ok_at = lastOkIso, nu_seconds = nat ((now - sinceMs) div 1000)\<rparr>)\<rparr>)"

definition nodeReachability :: "connector \<Rightarrow> int \<Rightarrow> node_reachability" where
  "nodeReachability c now = nodeReachabilityFrom (co_startedAt c) (co_lastOk c) (co_lastFail c) now"

section \<open>What a post changes\<close>

lemma rpcPost_frame:
  assumes "rpcPost env q c = (r, c')"
  shows "co_posts c' = co_posts c + 1 \<and> co_rpcErrors c' = co_rpcErrors c \<and> co_endpoints c' = co_endpoints c
    \<and> co_threshold c' = co_threshold c"
  using assms by (auto simp: rpcPost_def noteConnectionFailure_def Let_def split: http_outcome.splits if_splits)

text \<open>Both ladders end after ten posts at most, and count an error exactly when they throw.\<close>

definition accounted :: "nat \<Rightarrow> 'e + 'a \<Rightarrow> connector \<Rightarrow> connector \<Rightarrow> bool" where
  "accounted k r c c' \<longleftrightarrow> co_posts c' \<le> co_posts c + k
     \<and> co_rpcErrors c' = co_rpcErrors c + (if isl r then 1 else 0)"

lemma timeout_retries_accounted: "timeout_retries env q k final c = (r, c') \<Longrightarrow> accounted k r c c'"
proof (induction k arbitrary: final c)
  case 0
  then show ?case by (auto simp: accounted_def count_rpc_def)
next
  case (Suc k)
  obtain p c1 where p: "rpcPost env q c = (p, c1)" by fastforce
  consider f where "p = Inl f" | b f where "p = Inr b" "rpcResult b = Inl f" | b v where "p = Inr b" "rpcResult b = Inr v"
    by (metis old.sum.exhaust)
  then consider "timeout_retries env q k (Some (sanitizeRpcError (projl p))) c1 = (r, c')"
    | "isl r" "c' = count_rpc c1" | "\<not> isl r" "c' = c1"
    using Suc.prems by cases (simp_all add: p split: if_splits, (metis sum.disc)+)
  then show ?case
    using rpcPost_frame[OF p] by cases (auto simp: accounted_def count_rpc_def dest!: Suc.IH)
qed

lemma raw_retries_accounted: "raw_retries env q k final c = (r, c') \<Longrightarrow> accounted k r c c'"
proof (induction k arbitrary: final c)
  case 0
  then show ?case by (auto simp: accounted_def count_rpc_def)
next
  case (Suc k)
  obtain p c1 where p: "rpcPost env q c = (p, c1)" by fastforce
  consider x where "raw_retries env q k x c1 = (r, c')" | "\<not> isl r" "c' = c1"
    using Suc.prems by (cases "bind_res p rawTransactionResponse") (simp_all add: p split: if_splits, (metis sum.disc(2))+)
  then show ?case
    using rpcPost_frame[OF p] by cases (auto simp: accounted_def dest!: Suc.IH)
qed

text \<open>A call that only ever timed out throws an error that still says so.\<close>

lemma timeout_identity:
  assumes "\<And>n u. re_answer env n u q = NoResponse (Some ''ECONNABORTED'')"
  shows "timeout_retries env q k (Some f) c = (r, c') \<Longrightarrow> rf_code f = Some ''ECONNABORTED''
    \<Longrightarrow> \<exists>g. r = Inl g \<and> rf_code g = Some ''ECONNABORTED'' \<and> \<not> rf_auxPow g"
proof (induction k arbitrary: f c)
  case 0
  then show ?case by (auto simp: carryErrorIdentity_def attachRpcFields_def plain_fault_def)
next
  case (Suc k)
  show ?case
  proof (rule Suc.IH)
    show "timeout_retries env q k (Some (sanitizeRpcError (plain_fault\<lparr>rf_code := Some ''ECONNABORTED''\<rparr>))) (snd (rpcPost env q c)) = (r, c')"
      using Suc.prems(1) by (simp add: rpcPost_def assms Let_def)
  qed (simp add: sanitizeRpcError_def attachRpcFields_def plain_fault_def)
qed

section \<open>Failover\<close>

fun posts :: "'q rpc_env \<Rightarrow> 'q list \<Rightarrow> connector \<Rightarrow> connector" where
  "posts env [] c = c"
| "posts env (q # qs) c = posts env qs (snd (rpcPost env q c))"

definition endpoint_down :: "'q rpc_env \<Rightarrow> jsstr \<Rightarrow> bool" where
  "endpoint_down env u \<longleftrightarrow> (\<forall>n q. \<exists>code \<in> set CONNECTION_ERROR_CODES. re_answer env n u q = NoResponse (Some code))"

definition endpoint_up :: "'q rpc_env \<Rightarrow> jsstr \<Rightarrow> bool" where
  "endpoint_up env u \<longleftrightarrow> (\<forall>n q. \<exists>b. re_answer env n u q = Answered b)"

definition connector_ok :: "connector \<Rightarrow> bool" where
  "connector_ok c \<longleftrightarrow> co_active c < length (co_endpoints c) \<and> 1 \<le> co_threshold c \<and> int (co_failures c) < co_threshold c"

text \<open>The posts left until the endpoint at position \<open>k\<close> is the active one.\<close>

definition ring_distance :: "nat \<Rightarrow> nat \<Rightarrow> nat \<Rightarrow> nat" where
  "ring_distance n a k = (if a \<le> k then k - a else k + n - a)"

definition posts_left :: "nat \<Rightarrow> connector \<Rightarrow> int" where
  "posts_left k c =
     (let d = ring_distance (length (co_endpoints c)) (co_active c) k
      in if d = 0 then 0 else int d * co_threshold c - int (co_failures c))"

lemma ring_zero: "a < n \<Longrightarrow> ring_distance n a k = 0 \<longleftrightarrow> a = k"
  by (auto simp: ring_distance_def)

lemma ring_step: "a < n \<Longrightarrow> k < n \<Longrightarrow> a \<noteq> k \<Longrightarrow> ring_distance n ((a + 1) mod n) k = ring_distance n a k - 1"
  by (cases "a + 1 = n") (auto simp: ring_distance_def)

lemma ring_bound: "a < n \<Longrightarrow> k < n \<Longrightarrow> ring_distance n a k \<le> n - 1"
  by (auto simp: ring_distance_def)

lemma rpcPost_ok: "connector_ok c \<Longrightarrow> connector_ok (snd (rpcPost env q c))"
proof -
  assume ok: "connector_ok c"
  then have "0 < length (co_endpoints c)" by (auto simp: connector_ok_def)
  then have "(co_active c + 1) mod length (co_endpoints c) < length (co_endpoints c)" by (rule mod_less_divisor)
  with ok show ?thesis
    by (auto simp: connector_ok_def rpcPost_def noteConnectionFailure_def Let_def split: http_outcome.splits)
qed

lemma posts_left_step:
  assumes ok: "connector_ok c" "k < length (co_endpoints c)" "endpoint_up env (co_endpoints c ! k)"
    and down: "\<And>j. j < length (co_endpoints c) \<Longrightarrow> j \<noteq> k \<Longrightarrow> endpoint_down env (co_endpoints c ! j)"
  shows "posts_left k (snd (rpcPost env q c)) = (if co_active c = k then 0 else posts_left k c - 1)
    \<and> (co_active c = k \<longrightarrow> co_active (snd (rpcPost env q c)) = k)"
proof (cases "co_active c = k")
  case True
  then obtain b where "re_answer env (co_posts c) (url c) q = Answered b"
    using ok(3) unfolding endpoint_up_def url_def by blast
  with True ok(2) show ?thesis by (simp add: rpcPost_def Let_def posts_left_def ring_distance_def)
next
  case False
  let ?n = "length (co_endpoints c)"
  have a: "co_active c < ?n" "int (co_failures c) < co_threshold c" using ok(1) by (auto simp: connector_ok_def)
  with False down obtain code where code: "code \<in> set CONNECTION_ERROR_CODES"
      "re_answer env (co_posts c) (url c) q = NoResponse (Some code)"
    unfolding endpoint_down_def url_def by blast
  have two: "\<not> ?n < 2" using a ok(2) False by linarith
  define d where "d = ring_distance ?n (co_active c) k"
  have d: "d \<noteq> 0" "ring_distance ?n ((co_active c + 1) mod ?n) k = d - 1"
    using ring_zero[OF a(1)] ring_step[OF a(1) ok(2) False] False by (simp_all add: d_def)
  have left: "posts_left k c = int d * co_threshold c - int (co_failures c)"
    using d(1) by (simp add: posts_left_def d_def[symmetric] Let_def)
  show ?thesis
  proof (cases "co_threshold c \<le> int (co_failures c + 1)")
    case True
    then have "co_threshold c = int (co_failures c) + 1" using a by linarith
    moreover have "posts_left k (snd (rpcPost env q c)) = (if d - 1 = 0 then 0 else int (d - 1) * co_threshold c)"
      using True code two d(2) by (simp add: rpcPost_def noteConnectionFailure_def posts_left_def Let_def)
    moreover have "(if d - 1 = 0 then 0 else int (d - 1) * co_threshold c) = int d * co_threshold c - co_threshold c"
      using d(1) by (cases d) (auto simp: algebra_simps)
    ultimately show ?thesis using False left by simp
  next
    case no: False
    then have "posts_left k (snd (rpcPost env q c)) = int d * co_threshold c - int (co_failures c + 1)"
      using code two d(1) by (simp add: rpcPost_def noteConnectionFailure_def posts_left_def Let_def d_def[symmetric])
    with False left show ?thesis by simp
  qed
qed

lemma posts_left_active: "connector_ok c \<Longrightarrow> k < length (co_endpoints c) \<Longrightarrow> posts_left k c \<le> 0 \<Longrightarrow> co_active c = k"
proof (rule ccontr)
  assume *: "connector_ok c" "k < length (co_endpoints c)" "posts_left k c \<le> 0" "co_active c \<noteq> k"
  define d where "d = ring_distance (length (co_endpoints c)) (co_active c) k"
  have "0 < d" using * ring_zero[of "co_active c" "length (co_endpoints c)" k] by (simp add: connector_ok_def d_def)
  then have "co_threshold c \<le> int d * co_threshold c" using *(1) by (simp add: connector_ok_def)
  moreover have "posts_left k c = int d * co_threshold c - int (co_failures c)"
    using \<open>0 < d\<close> by (simp add: posts_left_def d_def Let_def)
  ultimately show False using * by (simp add: connector_ok_def)
qed

lemma posts_reach:
  assumes "connector_ok c" "k < length (co_endpoints c)" "endpoint_up env (co_endpoints c ! k)"
    and "\<And>j. j < length (co_endpoints c) \<Longrightarrow> j \<noteq> k \<Longrightarrow> endpoint_down env (co_endpoints c ! j)"
    and "posts_left k c \<le> int (length qs)"
  shows "url (posts env qs c) = co_endpoints c ! k"
  using assms
proof (induction qs arbitrary: c)
  case Nil
  then have "co_active c = k" by (intro posts_left_active) auto
  then show ?case by (simp add: url_def)
next
  case (Cons q qs)
  let ?c = "snd (rpcPost env q c)"
  have same: "co_endpoints ?c = co_endpoints c" using rpcPost_frame[of env q c] by (metis prod.collapse)
  have "posts_left k ?c \<le> int (length qs)"
    using posts_left_step[OF Cons.prems(1-4), of q] Cons.prems(5) by (auto split: if_splits)
  from Cons.IH[OF rpcPost_ok[OF Cons.prems(1)] _ _ _ this] Cons.prems show ?case by (simp add: same)
qed

lemma posts_left_bound:
  assumes "connector_ok c" "k < length (co_endpoints c)"
  shows "posts_left k c \<le> int (length (co_endpoints c) - 1) * co_threshold c"
proof -
  define d where "d = ring_distance (length (co_endpoints c)) (co_active c) k"
  have "d \<le> length (co_endpoints c) - 1"
    using assms ring_bound by (simp add: connector_ok_def d_def)
  then have "int d * co_threshold c \<le> int (length (co_endpoints c) - 1) * co_threshold c"
    using assms by (intro mult_right_mono) (simp_all add: connector_ok_def)
  moreover have "posts_left k c \<le> int d * co_threshold c"
    using assms by (simp add: posts_left_def d_def Let_def)
  ultimately show ?thesis by linarith
qed

end
