(* ===== verification/Wire_Buffer.thy ===== *)
theory Wire_Buffer
  imports Decode_Action
begin

text \<open>
  Reading and writing the fields of the wire format: Node.js buffers, and the \<open>BufferReader\<close> and
  \<open>BufferWriter\<close> of \<open>src/src/chain/bufferutils.js\<close>, whose 64-bit fields are read and written whole.
  The variable-length integers of these two classes come from the package \<open>varuint-bitcoin\<close>, an argument
  of the definitions.  Offsets are exact; where the code's are doubles they differ only past
  \<open>2^53\<close>, where no buffer has a byte.
\<close>

section \<open>Buffers\<close>

datatype wire_error =
    OutOfRange
  | Fault string
  | TransactionParse string

definition le_value :: "buffer \<Rightarrow> nat" where
  "le_value bs = foldr (\<lambda>b n. unat b + 256 * n) bs 0"

fun le_bytes :: "nat \<Rightarrow> nat \<Rightarrow> buffer" where
  "le_bytes 0 v = []"
| "le_bytes (Suc w) v = word_of_nat (v mod 256) # le_bytes w (v div 256)"

text \<open>\<open>readUInt8\<close>, \<open>readUInt16LE\<close>, \<open>readUInt32LE\<close> and \<open>readBigUInt64LE\<close> of a buffer.\<close>

definition buf_read :: "nat \<Rightarrow> buffer \<Rightarrow> nat \<Rightarrow> wire_error + nat" where
  "buf_read w buf off =
     (if off + w \<le> length buf then Inr (le_value (take w (drop off buf))) else Inl OutOfRange)"

definition buf_write :: "nat \<Rightarrow> buffer \<Rightarrow> nat \<Rightarrow> nat \<Rightarrow> wire_error + buffer" where
  "buf_write w buf v off =
     (if v < 256 ^ w \<and> off + w \<le> length buf
      then Inr (take off buf @ le_bytes w v @ drop (off + w) buf) else Inl OutOfRange)"

text \<open>Two's complement of 32 bits, as \<open>readInt32LE\<close> and \<open>writeInt32LE\<close> read and write it.\<close>

definition signed32 :: "nat \<Rightarrow> int" where
  "signed32 n = sint (word_of_nat n :: 32 word)"

definition unsigned32 :: "int \<Rightarrow> nat" where
  "unsigned32 i = unat (word_of_int i :: 32 word)"

text \<open>A sum of two doubles that are natural numbers, rounded as a double is.\<close>

definition double_nat :: "nat \<Rightarrow> nat" where
  "double_nat n =
     (if n < 2 ^ 53 then n
      else (let u = 2 ^ (bitlen n - 53) in round_half_even n u * u))"

section \<open>Numbers of 64 bits\<close>

definition MAX_SAFE :: int where
  "MAX_SAFE = 0x001fffffffffffff"

definition verifuint :: "int \<Rightarrow> int \<Rightarrow> wire_error + unit" where
  "verifuint v mx =
     (if v < 0 then Inl (Fault ''specified a negative value for writing an unsigned value'')
      else if mx < v then Inl (Fault ''RangeError: value out of range'')
      else Inr ())"

definition readUInt64LE :: "buffer \<Rightarrow> nat \<Rightarrow> wire_error + nat" where
  "readUInt64LE buf off =
     bind_res (buf_read 4 buf off) (\<lambda>a.
     bind_res (buf_read 4 buf (off + 4)) (\<lambda>b.
       let v = double_nat (b * 0x100000000 + a)
       in bind_res (verifuint (int v) MAX_SAFE) (\<lambda>_. Inr v)))"

definition writeUInt64LE :: "buffer \<Rightarrow> int \<Rightarrow> nat \<Rightarrow> wire_error + (buffer \<times> nat)" where
  "writeUInt64LE buf v off =
     bind_res (verifuint v MAX_SAFE) (\<lambda>_.
     bind_res (buf_write 4 buf (nat (v mod 0x100000000)) off) (\<lambda>buf1.
     bind_res (buf_write 4 buf1 (nat (v div 0x100000000)) (off + 4)) (\<lambda>buf2. Inr (buf2, off + 8))))"

text \<open>The loop of \<open>reverseBuffer\<close>: it swaps \<open>buffer[i]\<close> and \<open>buffer[j]\<close> and moves both inwards.\<close>

function reverse_loop :: "nat \<Rightarrow> nat \<Rightarrow> 'a list \<Rightarrow> 'a list" where
  "reverse_loop i j buf =
     (if 2 * i < length buf
      then reverse_loop (Suc i) (j - 1) (buf[i := buf ! j, j := buf ! i]) else buf)"
  by auto
termination by (relation "measure (\<lambda>(i, j, buf). length buf - i)") auto

declare reverse_loop.simps [simp del]

definition reverseBuffer :: "'a list \<Rightarrow> 'a list" where
  "reverseBuffer buf = (if length buf < 1 then buf else reverse_loop 0 (length buf - 1) buf)"

section \<open>The reader\<close>

record varuint =
  vu_decode :: "buffer \<Rightarrow> nat \<Rightarrow> wire_error + (nat \<times> nat)"
  vu_encode :: "nat \<Rightarrow> wire_error + buffer"

record cursor_buffer =
  cb_buffer :: buffer
  cb_offset :: nat

type_synonym 'a reading = "cursor_buffer \<Rightarrow> wire_error + ('a \<times> cursor_buffer)"

definition moved :: "nat \<Rightarrow> cursor_buffer \<Rightarrow> cursor_buffer" where
  "moved n r = r\<lparr>cb_offset := cb_offset r + n\<rparr>"

definition readUInt8 :: "nat reading" where
  "readUInt8 r = bind_res (buf_read 1 (cb_buffer r) (cb_offset r)) (\<lambda>v. Inr (v, moved 1 r))"

definition readInt32 :: "int reading" where
  "readInt32 r = bind_res (buf_read 4 (cb_buffer r) (cb_offset r)) (\<lambda>v. Inr (signed32 v, moved 4 r))"

definition readUInt32 :: "nat reading" where
  "readUInt32 r = bind_res (buf_read 4 (cb_buffer r) (cb_offset r)) (\<lambda>v. Inr (v, moved 4 r))"

definition readUInt64 :: "nat reading" where
  "readUInt64 r = bind_res (buf_read 8 (cb_buffer r) (cb_offset r)) (\<lambda>v. Inr (v, moved 8 r))"

definition readVarInt :: "varuint \<Rightarrow> nat reading" where
  "readVarInt vu r = bind_res (vu_decode vu (cb_buffer r) (cb_offset r)) (\<lambda>(v, n). Inr (v, moved n r))"

definition readSlice :: "nat \<Rightarrow> buffer reading" where
  "readSlice n r =
     (if length (cb_buffer r) < cb_offset r + n then Inl (Fault ''Cannot read slice out of bounds'')
      else Inr (take n (drop (cb_offset r) (cb_buffer r)), moved n r))"

definition readVarSlice :: "varuint \<Rightarrow> buffer reading" where
  "readVarSlice vu r = bind_res (readVarInt vu r) (\<lambda>(n, r1). readSlice n r1)"

fun read_slices :: "varuint \<Rightarrow> nat \<Rightarrow> buffer list reading" where
  "read_slices vu 0 r = Inr ([], r)"
| "read_slices vu (Suc k) r =
     bind_res (readVarSlice vu r) (\<lambda>(s, r1). bind_res (read_slices vu k r1) (\<lambda>(ss, r2). Inr (s # ss, r2)))"

definition readVector :: "varuint \<Rightarrow> buffer list reading" where
  "readVector vu r = bind_res (readVarInt vu r) (\<lambda>(count, r1). read_slices vu count r1)"

section \<open>The writer\<close>

definition withCapacity :: "nat \<Rightarrow> cursor_buffer" where
  "withCapacity n = \<lparr>cb_buffer = replicate n 0, cb_offset = 0\<rparr>"

type_synonym writing = "cursor_buffer \<Rightarrow> wire_error + cursor_buffer"

definition put_field :: "nat \<Rightarrow> nat \<Rightarrow> writing" where
  "put_field width v w = bind_res (buf_write width (cb_buffer w) v (cb_offset w)) (\<lambda>buf.
     Inr \<lparr>cb_buffer = buf, cb_offset = cb_offset w + width\<rparr>)"

definition writeUInt8 :: "nat \<Rightarrow> writing" where
  "writeUInt8 v w = put_field 1 v w"

definition writeInt32 :: "int \<Rightarrow> writing" where
  "writeInt32 v w = (if v < - (2 ^ 31) \<or> 2 ^ 31 \<le> v then Inl OutOfRange else put_field 4 (unsigned32 v) w)"

definition writeUInt32 :: "nat \<Rightarrow> writing" where
  "writeUInt32 v w = put_field 4 v w"

definition writeUInt64 :: "nat \<Rightarrow> writing" where
  "writeUInt64 v w = put_field 8 v w"

definition put_bytes :: "wire_error \<Rightarrow> buffer \<Rightarrow> writing" where
  "put_bytes e bs w =
     (if length (cb_buffer w) < cb_offset w + length bs then Inl e
      else Inr \<lparr>cb_buffer = take (cb_offset w) (cb_buffer w) @ bs @ drop (cb_offset w + length bs) (cb_buffer w),
                cb_offset = cb_offset w + length bs\<rparr>)"

definition writeVarInt :: "varuint \<Rightarrow> nat \<Rightarrow> writing" where
  "writeVarInt vu v w = bind_res (vu_encode vu v) (\<lambda>bs. put_bytes OutOfRange bs w)"

definition writeSlice :: "buffer \<Rightarrow> writing" where
  "writeSlice s w = put_bytes (Fault ''Cannot write slice out of bounds'') s w"

definition writeVarSlice :: "varuint \<Rightarrow> buffer \<Rightarrow> writing" where
  "writeVarSlice vu s w = bind_res (writeVarInt vu (length s) w) (writeSlice s)"

fun write_slices :: "varuint \<Rightarrow> buffer list \<Rightarrow> writing" where
  "write_slices vu [] w = Inr w"
| "write_slices vu (s # ss) w = bind_res (writeVarSlice vu s w) (write_slices vu ss)"

definition writeVector :: "varuint \<Rightarrow> buffer list \<Rightarrow> writing" where
  "writeVector vu v w = bind_res (writeVarInt vu (length v) w) (write_slices vu v)"

text \<open>\<open>end()\<close> of the writer: the buffer, when it is full.\<close>

definition end_buffer :: "cursor_buffer \<Rightarrow> wire_error + buffer" where
  "end_buffer w = (if length (cb_buffer w) = cb_offset w then Inr (cb_buffer w) else Inl (Fault ''buffer size''))"

section \<open>Bytes that stand at an offset\<close>

definition stands :: "buffer \<Rightarrow> nat \<Rightarrow> buffer \<Rightarrow> bool" where
  "stands buf off bs \<longleftrightarrow> off + length bs \<le> length buf \<and> take (length bs) (drop off buf) = bs"

lemma stands_split: "stands buf off bs \<longleftrightarrow> (\<exists>pre rest. buf = pre @ bs @ rest \<and> length pre = off)"
proof
  assume *: "stands buf off bs"
  then have "buf = take off buf @ bs @ drop (off + length bs) buf"
    unfolding stands_def by (metis append_take_drop_id drop_drop add.commute)
  moreover from * have "length (take off buf) = off" by (simp add: stands_def)
  ultimately show "\<exists>pre rest. buf = pre @ bs @ rest \<and> length pre = off" by blast
qed (auto simp: stands_def)

lemma stands_append: "stands buf off (a @ b) \<longleftrightarrow> stands buf off a \<and> stands buf (off + length a) b"
proof
  assume "stands buf off (a @ b)"
  then obtain pre rest where "buf = pre @ (a @ b) @ rest" "length pre = off" by (auto simp: stands_split)
  then show "stands buf off a \<and> stands buf (off + length a) b"
    unfolding stands_split by (metis append.assoc length_append)
next
  assume *: "stands buf off a \<and> stands buf (off + length a) b"
  then have "take (length a + length b) (drop off buf) = a @ b"
    by (simp add: stands_def take_add drop_drop add.commute)
  with * show "stands buf off (a @ b)" by (simp add: stands_def)
qed

lemma stands_Nil [simp]: "stands buf off [] \<longleftrightarrow> off \<le> length buf"
  by (simp add: stands_def)

lemma stands_inside: "stands buf off bs \<Longrightarrow> off + length bs \<le> length buf"
  by (simp add: stands_def)

lemma stands_self [simp]: "stands bs 0 bs"
  by (simp add: stands_def)

lemma stands_middle: "stands (pre @ bs @ rest) (length pre) bs"
  by (simp add: stands_def)

lemma stands_field: "stands buf off (b # bs) \<Longrightarrow> field buf off = Some b"
  by (auto simp: stands_split field_def nth_append)

lemma length_le_bytes [simp]: "length (le_bytes w v) = w"
  by (induction w arbitrary: v) auto

lemma le_value_Cons: "le_value (b # bs) = unat b + 256 * le_value bs"
  by (simp add: le_value_def)

lemma le_value_bytes: "le_value (le_bytes w v) = v mod 256 ^ w"
proof (induction w arbitrary: v)
  case (Suc w)
  have "unat (word_of_nat (v mod 256) :: byte) = v mod 256"
    by (simp add: unat_of_nat)
  then have "le_value (le_bytes (Suc w) v) = v mod 256 + 256 * (v div 256 mod 256 ^ w)"
    by (simp add: le_value_Cons Suc.IH)
  also have "\<dots> = v mod 256 ^ Suc w"
    by (metis mod_mult2_eq power_Suc add.commute)
  finally show ?case .
qed (simp add: le_value_def)

lemma le_value_less: "le_value bs < 256 ^ length bs"
proof (induction bs)
  case (Cons b bs)
  have "unat b < 256" using unsigned_less[of b] by simp
  with Cons show ?case by (simp add: le_value_Cons)
qed (simp add: le_value_def)

lemma buf_read_stands: "stands buf off bs \<Longrightarrow> length bs = w \<Longrightarrow> buf_read w buf off = Inr (le_value bs)"
  by (auto simp: buf_read_def stands_def)

lemma buf_read_bytes: "stands buf off (le_bytes w v) \<Longrightarrow> v < 256 ^ w \<Longrightarrow> buf_read w buf off = Inr v"
  by (simp add: buf_read_stands le_value_bytes)

lemma buf_read_inside: "buf_read w buf off = Inr v \<Longrightarrow> off + w \<le> length buf \<and> v < 256 ^ w"
  using le_value_less[of "take w (drop off buf)"] by (auto simp: buf_read_def split: if_splits)

lemma signed32_unsigned32: "- (2 ^ 31) \<le> i \<Longrightarrow> i < 2 ^ 31 \<Longrightarrow> signed32 (unsigned32 i) = i"
  by (simp add: signed32_def unsigned32_def sint_word_ariths signed_take_bit_int_eq_self sint_sbintrunc')

lemma unsigned32_less: "unsigned32 i < 256 ^ 4"
  using unsigned_less[of "word_of_int i :: 32 word"] by (simp add: unsigned32_def)

lemma double_nat_small [simp]: "n < 2 ^ 53 \<Longrightarrow> double_nat n = n"
  by (simp add: double_nat_def)

lemma double_nat_large: "2 ^ 53 \<le> n \<Longrightarrow> 2 ^ 53 \<le> double_nat n"
proof -
  assume n: "2 ^ 53 \<le> n"
  define k where "k = bitlen n - 53"
  have len: "2 ^ (bitlen n - 1) \<le> n" "n < 2 ^ bitlen n" using bitlen_bounds[of n] n by auto
  then have "(2::nat) ^ 53 < 2 ^ bitlen n" using n by linarith
  then have "53 < bitlen n" using power_less_imp_less_exp one_less_numeral_iff semiring_norm(76) by blast
  then have "bitlen n - 1 = 52 + k" "0 < k" by (auto simp: k_def)
  then have "2 ^ 52 * 2 ^ k \<le> n" using len(1) by (simp add: power_add)
  then have "2 ^ 52 \<le> round_half_even n (2 ^ k)"
    by (simp add: round_half_even_ge)
  then have "2 ^ 52 * 2 ^ k \<le> round_half_even n (2 ^ k) * 2 ^ k" by simp
  moreover have "(2::nat) ^ 53 \<le> 2 ^ 52 * 2 ^ k"
    using \<open>0 < k\<close> power_increasing[of 1 k "2::nat"] by simp
  ultimately have "2 ^ 53 \<le> round_half_even n (2 ^ k) * 2 ^ k" by (rule order_trans[rotated])
  then show ?thesis using n by (simp add: double_nat_def k_def Let_def)
qed

section \<open>Reading what was written\<close>

definition wrote :: "buffer \<Rightarrow> cursor_buffer \<Rightarrow> cursor_buffer \<Rightarrow> bool" where
  "wrote bs w w' \<longleftrightarrow> cb_offset w + length bs \<le> length (cb_buffer w) \<and> cb_offset w' = cb_offset w + length bs
     \<and> cb_buffer w' = take (cb_offset w) (cb_buffer w) @ bs @ drop (cb_offset w + length bs) (cb_buffer w)"

definition read_back :: "writing \<Rightarrow> 'a reading \<Rightarrow> 'a \<Rightarrow> bool" where
  "read_back wr rd v \<longleftrightarrow> (\<forall>w w'. cb_offset w \<le> length (cb_buffer w) \<longrightarrow> wr w = Inr w' \<longrightarrow>
     (\<exists>bs. wrote bs w w' \<and> (\<forall>r. stands (cb_buffer r) (cb_offset r) bs \<longrightarrow> rd r = Inr (v, moved (length bs) r))))"

lemma wrote_trans: "wrote a w w1 \<Longrightarrow> wrote b w1 w2 \<Longrightarrow> wrote (a @ b) w w2"
  by (simp add: wrote_def ac_simps)

lemma wrote_inside: "wrote a w w1 \<Longrightarrow> cb_offset w1 \<le> length (cb_buffer w1)"
  by (auto simp: wrote_def)

lemma wrote_stands: "wrote bs w w' \<Longrightarrow> stands (cb_buffer w') (cb_offset w) bs"
  by (simp add: wrote_def stands_def)

lemma moved_parts [simp]: "cb_buffer (moved n r) = cb_buffer r" "cb_offset (moved n r) = cb_offset r + n"
  "moved n (moved m r) = moved (m + n) r" "moved 0 r = r"
  by (simp_all add: moved_def)

lemma put_field_wrote: "put_field k v w = Inr w' \<Longrightarrow> wrote (le_bytes k v) w w' \<and> v < 256 ^ k"
  by (auto simp: put_field_def buf_write_def wrote_def split: if_splits)

lemma put_bytes_wrote: "put_bytes e bs w = Inr w' \<Longrightarrow> wrote bs w w'"
  by (auto simp: put_bytes_def wrote_def split: if_splits)

lemma read_back_put:
  "read_back (put_field k n) (\<lambda>r. bind_res (buf_read k (cb_buffer r) (cb_offset r)) (\<lambda>x. Inr (f x, moved k r))) (f n)"
  unfolding read_back_def
proof (intro allI impI)
  fix w w' assume "put_field k n w = Inr w'"
  from put_field_wrote[OF this] show "\<exists>bs. wrote bs w w' \<and> (\<forall>r. stands (cb_buffer r) (cb_offset r) bs \<longrightarrow>
      bind_res (buf_read k (cb_buffer r) (cb_offset r)) (\<lambda>x. Inr (f x, moved k r)) = Inr (f n, moved (length bs) r))"
    by (intro exI[of _ "le_bytes k n"]) (simp add: buf_read_bytes)
qed

lemma read_back_fields:
  "read_back (writeUInt8 n) readUInt8 n" "read_back (writeUInt32 n) readUInt32 n"
  "read_back (writeUInt64 n) readUInt64 n" "read_back (writeInt32 i) readInt32 i"
proof -
  show "read_back (writeUInt8 n) readUInt8 n" "read_back (writeUInt32 n) readUInt32 n"
    "read_back (writeUInt64 n) readUInt64 n"
    using read_back_put[of _ n "\<lambda>x. x"]
    by (simp_all add: writeUInt8_def[abs_def] writeUInt32_def[abs_def] writeUInt64_def[abs_def] readUInt8_def[abs_def]
        readUInt32_def[abs_def] readUInt64_def[abs_def])
  have "read_back (put_field 4 (unsigned32 i)) readInt32 i" if "- (2 ^ 31) \<le> i" "i < 2 ^ 31"
    using read_back_put[of 4 "unsigned32 i" signed32] that
    by (simp add: readInt32_def[abs_def] signed32_unsigned32)
  then show "read_back (writeInt32 i) readInt32 i"
    by (auto simp: read_back_def writeInt32_def not_less split: if_splits)
qed

lemma read_back_slice: "read_back (writeSlice s) (readSlice (length s)) s"
  unfolding read_back_def writeSlice_def readSlice_def
  by (auto dest!: put_bytes_wrote simp: stands_def)

lemma read_back_then:
  assumes "read_back wr rd v" "read_back wr' (rd' v) v'"
  shows "read_back (\<lambda>w. bind_res (wr w) wr') (\<lambda>r. bind_res (rd r) (\<lambda>(x, r1). rd' x r1)) v'"
  unfolding read_back_def
proof (intro allI impI)
  fix w w2 assume w0: "cb_offset w \<le> length (cb_buffer w)" and "bind_res (wr w) wr' = Inr w2"
  then obtain w1 where w: "wr w = Inr w1" "wr' w1 = Inr w2" by (auto simp: bind_res_Inr_iff)
  obtain a where a: "wrote a w w1" "\<And>r. stands (cb_buffer r) (cb_offset r) a \<Longrightarrow> rd r = Inr (v, moved (length a) r)"
    using assms(1) w(1) w0 unfolding read_back_def by blast
  obtain b where b: "wrote b w1 w2" "\<And>r. stands (cb_buffer r) (cb_offset r) b \<Longrightarrow> rd' v r = Inr (v', moved (length b) r)"
    using assms(2) w(2) wrote_inside[OF a(1)] unfolding read_back_def by blast
  show "\<exists>bs. wrote bs w w2 \<and> (\<forall>r. stands (cb_buffer r) (cb_offset r) bs \<longrightarrow>
      bind_res (rd r) (\<lambda>(x, r1). rd' x r1) = Inr (v', moved (length bs) r))"
    using wrote_trans[OF a(1) b(1)] a(2) b(2) by (intro exI[of _ "a @ b"]) (simp add: stands_append)
qed

lemma read_back_return: "read_back Inr (\<lambda>r. Inr (v, r)) v"
  unfolding read_back_def by (auto simp: wrote_def intro!: exI[of _ "[]"])

text \<open>
  The interface to the package: what \<open>encode\<close> writes, \<open>decode\<close> reads wherever it stands, with the
  number of bytes it took.
\<close>

locale varuint_codec =
  fixes vu :: varuint
  assumes decode_encode: "\<lbrakk>vu_encode vu n = Inr bs; stands buf off bs\<rbrakk> \<Longrightarrow> vu_decode vu buf off = Inr (n, length bs)"
begin

lemma read_back_varint: "read_back (writeVarInt vu n) (readVarInt vu) n"
  unfolding read_back_def writeVarInt_def readVarInt_def
proof (intro allI impI)
  fix w w' assume "bind_res (vu_encode vu n) (\<lambda>bs. put_bytes OutOfRange bs w) = Inr w'"
  then obtain bs where "vu_encode vu n = Inr bs" "wrote bs w w'"
    by (auto simp: bind_res_Inr_iff dest!: put_bytes_wrote)
  then show "\<exists>bs. wrote bs w w' \<and> (\<forall>r. stands (cb_buffer r) (cb_offset r) bs \<longrightarrow>
      bind_res (vu_decode vu (cb_buffer r) (cb_offset r)) (\<lambda>(v, n). Inr (v, moved n r)) = Inr (n, moved (length bs) r))"
    using decode_encode by (intro exI[of _ bs]) auto
qed

lemma read_back_var_slice: "read_back (writeVarSlice vu s) (readVarSlice vu) s"
  unfolding writeVarSlice_def readVarSlice_def
  by (rule read_back_then[OF read_back_varint, of "writeSlice s" readSlice, OF read_back_slice])

lemma read_back_slices: "read_back (write_slices vu ss) (read_slices vu (length ss)) ss"
proof (induction ss)
  case (Cons s ss)
  have "read_back (\<lambda>w. bind_res (write_slices vu ss w) Inr)
      (\<lambda>r. bind_res (read_slices vu (length ss) r) (\<lambda>(xs, r2). Inr (s # xs, r2))) (s # ss)"
    by (rule read_back_then[OF Cons.IH, of Inr "\<lambda>xs r. Inr (s # xs, r)"]) (rule read_back_return)
  moreover have "bind_res x Inr = x" for x :: "wire_error + cursor_buffer" by (cases x) auto
  ultimately show ?case
    using read_back_then[OF read_back_var_slice, where wr' = "write_slices vu ss"
        and rd' = "\<lambda>x r. bind_res (read_slices vu (length ss) r) (\<lambda>(xs, r2). Inr (x # xs, r2))" and v' = "s # ss"] by simp
qed (simp add: read_back_return)

lemma read_back_vector: "read_back (writeVector vu v) (readVector vu) v"
  unfolding writeVector_def readVector_def
  by (rule read_back_then[OF read_back_varint, of "write_slices vu v" "read_slices vu", OF read_back_slices])

end

section \<open>Numbers of 64 bits as two halves\<close>

lemma mod_div_bytes: "(v::nat) mod 256 ^ 4 + 256 ^ 4 * (v div 256 ^ 4) = v"
  by simp

lemma uint64_round_trip:
  assumes "writeUInt64LE buf v off = Inr (buf', off')"
  shows "readUInt64LE buf' off = Inr (nat v) \<and> off' = off + 8 \<and> length buf' = length buf"
proof -
  obtain buf1 where v: "0 \<le> v" "v \<le> MAX_SAFE" and b: "buf_write 4 buf (nat (v mod 0x100000000)) off = Inr buf1"
    "buf_write 4 buf1 (nat (v div 0x100000000)) (off + 4) = Inr buf'" "off' = off + 8"
    using assms by (auto simp: writeUInt64LE_def verifuint_def bind_res_Inr_iff split: if_splits)
  have w: "stands (take off b0 @ le_bytes 4 x @ drop (off + 4) b0) off (le_bytes 4 x)"
    "off + 4 \<le> length b0" if "off + 4 \<le> length b0" for b0 x
    using that by (auto simp: stands_def)
  define lo hi where "lo = nat (v mod 0x100000000)" and "hi = nat (v div 0x100000000)"
  have "off + 8 \<le> length buf" and buf': "buf' = take off buf @ le_bytes 4 lo @ le_bytes 4 hi @ drop (off + 8) buf"
    and less: "lo < 256 ^ 4" "hi < 256 ^ 4"
    using b(1,2) by (auto simp: buf_write_def lo_def hi_def ac_simps split: if_splits)
  then have "stands buf' off (le_bytes 4 lo)" "stands buf' (off + 4) (le_bytes 4 hi)"
    by (auto simp: stands_def)
  then have r: "buf_read 4 buf' off = Inr lo" "buf_read 4 buf' (off + 4) = Inr hi"
    using less by (auto intro: buf_read_bytes)
  have sum: "hi * 0x100000000 + lo = nat v"
  proof -
    have "int (hi * 0x100000000 + lo) = v" using v(1) by (simp add: lo_def hi_def pos_mod_sign pos_imp_zdiv_nonneg_iff)
    then show ?thesis by linarith
  qed
  moreover have "nat v < 2 ^ 53" using v by (simp add: MAX_SAFE_def)
  ultimately have "double_nat (hi * 0x100000000 + lo) = nat v" by simp
  then have "readUInt64LE buf' off = Inr (nat v)"
    using v by (simp add: readUInt64LE_def r verifuint_def Let_def)
  with b(3) \<open>off + 8 \<le> length buf\<close> show ?thesis by (simp add: buf')
qed

section \<open>The reversing loop\<close>

lemma reverse_loop_middle:
  "length pre = i \<Longrightarrow> reverse_loop i (i + length mid - 1) (pre @ mid @ post) = pre @ rev mid @ post"
  if "length pre = length post"
  using that
proof (induction "length mid" arbitrary: i mid pre post rule: less_induct)
  case less
  show ?case
  proof (cases "length mid < 2")
    case True
    then consider "mid = []" | x where "mid = [x]" by (cases mid; cases "tl mid") auto
    then show ?thesis
    proof cases
      case 1
      then show ?thesis using less.prems by (subst reverse_loop.simps) auto
    next
      case 2
      then show ?thesis using less.prems
        by (subst reverse_loop.simps) (subst reverse_loop.simps, auto simp: nth_append list_update_append)
    qed
  next
    case False
    then obtain a m b where mid: "mid = a # m @ [b]"
      by (metis One_nat_def Suc_1 append_butlast_last_id length_Cons less_Suc_eq list.size(3) neq_Nil_conv
          zero_less_Suc)
    have "reverse_loop i (i + length mid - 1) (pre @ mid @ post)
        = reverse_loop (Suc i) (Suc i + length m - 1) ((pre @ [b]) @ m @ ([a] @ post))"
      using less.prems by (subst reverse_loop.simps) (auto simp: mid nth_append list_update_append split: nat.splits)
    also have "\<dots> = (pre @ [b]) @ rev m @ ([a] @ post)"
      by (rule less.hyps) (use less.prems mid in auto)
    finally show ?thesis by (simp add: mid)
  qed
qed

lemma reverseBuffer_rev: "reverseBuffer buf = rev buf"
  using reverse_loop_middle[of "[]" "[]" 0 buf] by (simp add: reverseBuffer_def Suc_le_eq)

end
