(* ===== verification/Auxpow_Codec.thy ===== *)
theory Auxpow_Codec
  imports Wire_Buffer
begin

unbundle bit_operations_syntax

text \<open>
  Blocks of a merge-mined chain (\<open>src/src/chain/blockchain_connector/auxpow_codec.js\<close>): the proof that
  another chain's miner found the block stands between its 80-byte header and its transactions, and is
  cut out here.  The library \<open>bitcoinjs-lib\<close> is a record of functions, an argument of what uses it.
\<close>

section \<open>The library\<close>

record 'tx wire_block =
  wb_version :: int
  wb_prevHash :: buffer
  wb_merkleRoot :: buffer
  wb_timestamp :: nat
  wb_bits :: nat
  wb_nonce :: nat
  wb_transactions :: "'tx list option"
  wb_witnessCommit :: "buffer option"

record 'tx wire_lib =
  wl_block :: "buffer \<Rightarrow> wire_error + 'tx wire_block"
  wl_block_length :: "'tx wire_block \<Rightarrow> nat"
  wl_tx :: "bool \<Rightarrow> buffer \<Rightarrow> wire_error + 'tx"
  wl_tx_length :: "'tx \<Rightarrow> nat"
  wl_make :: "int \<Rightarrow> (buffer \<times> nat) list \<Rightarrow> nat \<Rightarrow> 'tx"
  wl_root :: "'tx list \<Rightarrow> buffer"
  wl_commit :: "'tx wire_block \<Rightarrow> buffer option"
  wl_varuint :: varuint
  wl_sha256 :: "buffer \<Rightarrow> buffer"

section \<open>Hexadecimal\<close>

text \<open>\<open>Buffer.from(s, 'hex')\<close>: the pairs of digits up to the first that is none.\<close>

fun hex_bytes :: "jsstr \<Rightarrow> buffer" where
  "hex_bytes (a # b # r) =
     (case (hex_digit a, hex_digit b) of
        (Some x, Some y) \<Rightarrow> word_of_nat (16 * x + y) # hex_bytes r
      | _ \<Rightarrow> [])"
| "hex_bytes _ = []"

text \<open>\<open>parseInt(s, 16)\<close>, with \<^const>\<open>None\<close> for \<open>NaN\<close>.\<close>

definition parse_int_16 :: "jsstr \<Rightarrow> int option" where
  "parse_int_16 s =
     (let (sg, r) = take_sign (js_trim_start s);
          r' = (if starts_with (js ''0x'') r \<or> starts_with (js ''0X'') r then drop 2 r else r);
          ds = takeWhile (\<lambda>u. hex_digit u \<noteq> None) r'
      in if ds = [] then None
         else Some ((if sg = [45] then - 1 else 1) * int (digits_value 16 (map (the \<circ> hex_digit) ds))))"

section \<open>Variable-length integers\<close>

definition readVarint :: "buffer \<Rightarrow> nat \<Rightarrow> wire_error + (nat \<times> nat)" where
  "readVarint buf off =
     (let first = map_option unat (field buf off)
      in if (\<exists>v. first = Some v \<and> v < 0xFD) then Inr (the first, 1)
         else if first = Some 0xFD then bind_res (buf_read 2 buf (off + 1)) (\<lambda>v. Inr (v, 3))
         else if first = Some 0xFE then bind_res (buf_read 4 buf (off + 1)) (\<lambda>v. Inr (v, 5))
         else bind_res (buf_read 4 buf (off + 1)) (\<lambda>lo.
              bind_res (buf_read 4 buf (off + 5)) (\<lambda>hi. Inr (double_nat (hi * 0x100000000 + lo), 9))))"

definition encodeVarintHex :: "nat \<Rightarrow> wire_error + jsstr" where
  "encodeVarintHex v =
     (if v < 0xFD then Inr [hex_char (v div 16), hex_char (v mod 16)]
      else if v \<le> 0xFFFF then Inr (uint8ArrayToHex (0xFD # le_bytes 2 v))
      else if v \<le> 0xFFFFFFFF then Inr (uint8ArrayToHex (0xFE # le_bytes 4 v))
      else Inl (Fault ''encodeVarintHex: value out of supported range''))"

section \<open>Skipping the proof\<close>

definition need :: "buffer \<Rightarrow> nat \<Rightarrow> nat \<Rightarrow> string \<Rightarrow> wire_error + nat" where
  "need buf off n what = (if length buf < off + n then Inl (Fault what) else Inr (off + n))"

fun skip_inputs :: "buffer \<Rightarrow> nat \<Rightarrow> nat \<Rightarrow> wire_error + nat" where
  "skip_inputs buf 0 off = Inr off"
| "skip_inputs buf (Suc k) off =
     bind_res (need buf off 36 ''coinbase input prevout'') (\<lambda>o1.
     bind_res (readVarint buf o1) (\<lambda>(len, b).
     bind_res (need buf (o1 + b + len) 4 ''coinbase input sequence'') (skip_inputs buf k)))"

fun skip_outputs :: "buffer \<Rightarrow> nat \<Rightarrow> nat \<Rightarrow> wire_error + nat" where
  "skip_outputs buf 0 off = Inr off"
| "skip_outputs buf (Suc k) off =
     bind_res (need buf off 8 ''coinbase output value'') (\<lambda>o1.
     bind_res (readVarint buf o1) (\<lambda>(len, b). skip_outputs buf k (o1 + b + len)))"

fun skip_items :: "buffer \<Rightarrow> nat \<Rightarrow> nat \<Rightarrow> wire_error + nat" where
  "skip_items buf 0 off = Inr off"
| "skip_items buf (Suc k) off = bind_res (readVarint buf off) (\<lambda>(len, b). skip_items buf k (off + b + len))"

fun skip_stacks :: "buffer \<Rightarrow> nat \<Rightarrow> nat \<Rightarrow> wire_error + nat" where
  "skip_stacks buf 0 off = Inr off"
| "skip_stacks buf (Suc k) off =
     bind_res (readVarint buf off) (\<lambda>(count, b).
     bind_res (skip_items buf count (off + b)) (skip_stacks buf k))"

definition skipCoinbaseTransaction :: "buffer \<Rightarrow> nat \<Rightarrow> wire_error + nat" where
  "skipCoinbaseTransaction buf start =
     bind_res (need buf start 4 ''coinbase version'') (\<lambda>o1.
     let hasSegwit = (field buf o1 = Some 0); o2 = (if hasSegwit then o1 + 2 else o1)
     in bind_res (readVarint buf o2) (\<lambda>(nIns, b).
        bind_res (skip_inputs buf nIns (o2 + b)) (\<lambda>o3.
        bind_res (readVarint buf o3) (\<lambda>(nOuts, b').
        bind_res (skip_outputs buf nOuts (o3 + b')) (\<lambda>o4.
        bind_res (if hasSegwit then skip_stacks buf nIns o4 else Inr o4) (\<lambda>o5.
        need buf o5 4 ''coinbase locktime''))))))"

definition skip_branch :: "buffer \<Rightarrow> nat \<Rightarrow> string \<Rightarrow> wire_error + nat" where
  "skip_branch buf off what =
     bind_res (readVarint buf off) (\<lambda>(count, b). need buf (off + b) (count * 32 + 4) what)"

definition skipAuxPow :: "buffer \<Rightarrow> nat \<Rightarrow> wire_error + nat" where
  "skipAuxPow buf start =
     bind_res (skipCoinbaseTransaction buf start) (\<lambda>o1.
     bind_res (need buf o1 32 ''parent block hash'') (\<lambda>o2.
     bind_res (skip_branch buf o2 ''coinbase branch'') (\<lambda>o3.
     bind_res (skip_branch buf o3 ''chain branch'') (\<lambda>o4.
     need buf o4 80 ''parent block header''))))"

section \<open>Cutting the proof out\<close>

definition assertWholeBlock :: "'tx wire_lib \<Rightarrow> jsstr \<Rightarrow> wire_error + unit" where
  "assertWholeBlock lib blockHex =
     (let buf = hex_bytes blockHex
      in if length buf * 2 \<noteq> length blockHex then Inl (Fault ''stripped block is not whole hex bytes'')
         else (case wl_block lib buf of
             Inl _ \<Rightarrow> Inl (Fault ''stripped block does not parse'')
           | Inr block \<Rightarrow>
               (let txs = (case wb_transactions block of None \<Rightarrow> [] | Some ts \<Rightarrow> ts)
                in if length txs < 1 then Inl (Fault ''stripped block holds no transactions'')
                   else if wl_block_length lib block \<noteq> length buf then Inl (Fault ''bytes after its last transaction'')
                   else if wl_root lib txs \<noteq> wb_merkleRoot block then Inl (Fault ''merkle root does not match'')
                   else Inr ())))"

text \<open>The version of a block from the number its first eight digits read as, byte by byte.\<close>

definition swap_version :: "32 word \<Rightarrow> 32 word" where
  "swap_version v = push_bit 24 (v AND 0xFF) OR push_bit 16 (drop_bit 8 v AND 0xFF)
     OR push_bit 8 (drop_bit 16 v AND 0xFF) OR (drop_bit 24 v AND 0xFF)"

definition auxpow_version :: "jsstr \<Rightarrow> bool" where
  "auxpow_version digits =
     (swap_version (case parse_int_16 digits of None \<Rightarrow> 0 | Some i \<Rightarrow> word_of_int i) AND 0x100 \<noteq> 0)"

definition stripAuxPowFromBlockHex :: "'tx wire_lib \<Rightarrow> jsstr \<Rightarrow> jsstr \<Rightarrow> wire_error + jsstr" where
  "stripAuxPowFromBlockHex lib headerHex blockHex =
     (if 160 < length headerHex
      then (let stripped = take 160 blockHex @ drop (length headerHex) blockHex
            in bind_res (assertWholeBlock lib stripped) (\<lambda>_. Inr stripped))
      else if 8 \<le> length blockHex \<and> auxpow_version (take 8 blockHex)
      then bind_res (skipAuxPow (hex_bytes blockHex) 80) (\<lambda>afterAuxPow.
             let stripped = take 160 blockHex @ drop (afterAuxPow * 2) blockHex
             in bind_res (assertWholeBlock lib stripped) (\<lambda>_. Inr stripped))
      else Inr blockHex)"

section \<open>The format of the proof\<close>

text \<open>What the parent chain's serialization writes.\<close>

definition compact_bytes :: "nat \<Rightarrow> buffer" where
  "compact_bytes n =
     (if n < 0xFD then [word_of_nat n]
      else if n \<le> 0xFFFF then 0xFD # le_bytes 2 n
      else if n \<le> 0xFFFFFFFF then 0xFE # le_bytes 4 n
      else 0xFF # le_bytes 8 n)"

definition var_bytes :: "buffer \<Rightarrow> buffer" where
  "var_bytes s = compact_bytes (length s) @ s"

record tx_in =
  ti_prevout :: buffer
  ti_script :: buffer
  ti_sequence :: buffer

record tx_out =
  to_value :: buffer
  to_script :: buffer

definition in_bytes :: "tx_in \<Rightarrow> buffer" where
  "in_bytes i = ti_prevout i @ var_bytes (ti_script i) @ ti_sequence i"

definition out_bytes :: "tx_out \<Rightarrow> buffer" where
  "out_bytes t = to_value t @ var_bytes (to_script t)"

definition list_bytes :: "('a \<Rightarrow> buffer) \<Rightarrow> 'a list \<Rightarrow> buffer" where
  "list_bytes f xs = compact_bytes (length xs) @ concat (map f xs)"

definition readable :: "buffer \<Rightarrow> bool" where
  "readable s \<longleftrightarrow> length s < 2 ^ 53"

definition in_ok :: "tx_in \<Rightarrow> bool" where
  "in_ok i \<longleftrightarrow> length (ti_prevout i) = 36 \<and> readable (ti_script i) \<and> length (ti_sequence i) = 4"

definition out_ok :: "tx_out \<Rightarrow> bool" where
  "out_ok t \<longleftrightarrow> length (to_value t) = 8 \<and> readable (to_script t)"

definition stack_ok :: "buffer list \<Rightarrow> bool" where
  "stack_ok st \<longleftrightarrow> length st < 2 ^ 53 \<and> list_all readable st"

text \<open>A transaction of the parent chain; its second part is the marker's flag byte and the witness.\<close>

record parent_tx =
  pt_version :: buffer
  pt_witness :: "(byte \<times> buffer list list) option"
  pt_ins :: "tx_in list"
  pt_outs :: "tx_out list"
  pt_locktime :: buffer

definition parent_tx_bytes :: "parent_tx \<Rightarrow> buffer" where
  "parent_tx_bytes t =
     pt_version t @ (case pt_witness t of None \<Rightarrow> [] | Some (flag, _) \<Rightarrow> [0, flag])
     @ list_bytes in_bytes (pt_ins t) @ list_bytes out_bytes (pt_outs t)
     @ (case pt_witness t of None \<Rightarrow> [] | Some (_, w) \<Rightarrow> concat (map (list_bytes var_bytes) w)) @ pt_locktime t"

definition parent_tx_ok :: "parent_tx \<Rightarrow> bool" where
  "parent_tx_ok t \<longleftrightarrow> length (pt_version t) = 4 \<and> length (pt_locktime t) = 4
     \<and> list_all in_ok (pt_ins t) \<and> list_all out_ok (pt_outs t) \<and> length (pt_ins t) < 2 ^ 53 \<and> length (pt_outs t) < 2 ^ 53
     \<and> (case pt_witness t of None \<Rightarrow> pt_ins t \<noteq> []
        | Some (_, w) \<Rightarrow> length w = length (pt_ins t) \<and> list_all stack_ok w)"

record aux_pow =
  ap_coinbase :: parent_tx
  ap_parent_hash :: buffer
  ap_branch :: "buffer list"
  ap_branch_index :: buffer
  ap_chain :: "buffer list"
  ap_chain_index :: buffer
  ap_header :: buffer

definition branch_bytes :: "buffer list \<Rightarrow> buffer \<Rightarrow> buffer" where
  "branch_bytes hs ix = list_bytes (\<lambda>h. h) hs @ ix"

definition branch_ok :: "buffer list \<Rightarrow> buffer \<Rightarrow> bool" where
  "branch_ok hs ix \<longleftrightarrow> list_all (\<lambda>h. length h = 32) hs \<and> length hs < 2 ^ 53 \<and> length ix = 4"

definition aux_pow_bytes :: "aux_pow \<Rightarrow> buffer" where
  "aux_pow_bytes a = parent_tx_bytes (ap_coinbase a) @ ap_parent_hash a @ branch_bytes (ap_branch a) (ap_branch_index a)
     @ branch_bytes (ap_chain a) (ap_chain_index a) @ ap_header a"

definition aux_pow_ok :: "aux_pow \<Rightarrow> bool" where
  "aux_pow_ok a \<longleftrightarrow> parent_tx_ok (ap_coinbase a) \<and> length (ap_parent_hash a) = 32 \<and> branch_ok (ap_branch a) (ap_branch_index a)
     \<and> branch_ok (ap_chain a) (ap_chain_index a) \<and> length (ap_header a) = 80"

section \<open>Skipping is exact\<close>

lemma le_bytes_add: "le_bytes (a + b) n = le_bytes a n @ le_bytes b (n div 256 ^ a)"
  by (induction a arbitrary: n) (auto simp: div_mult2_eq)

lemma readVarint_compact: "stands buf off (compact_bytes n) \<Longrightarrow> n < 2 ^ 53 \<Longrightarrow> readVarint buf off = Inr (n, length (compact_bytes n))"
proof -
  assume st: "stands buf off (compact_bytes n)" and n: "n < 2 ^ 53"
  have small: "unat (word_of_nat n :: byte) = n" if "n < 0xFD" using that by (simp add: unat_of_nat)
  have tail: "stands buf (off + 1) bs" if "stands buf off (b # bs)" for b bs
    using that stands_append[of buf off "[b]" bs] by simp
  consider "n < 0xFD" | "0xFD \<le> n" "n \<le> 0xFFFF" | "0xFFFF < n" "n \<le> 0xFFFFFFFF" | "0xFFFFFFFF < n" by linarith
  then show ?thesis
  proof cases
    case 1
    then have "field buf off = Some (word_of_nat n)" using st by (auto simp: compact_bytes_def dest: stands_field)
    with 1 small show ?thesis by (simp add: readVarint_def compact_bytes_def)
  next
    case 2
    then have c: "compact_bytes n = 0xFD # le_bytes 2 n" by (simp add: compact_bytes_def)
    from st have "field buf off = Some 0xFD" "buf_read 2 buf (off + 1) = Inr n"
      using 2 by (auto simp: c dest: stands_field tail intro!: buf_read_bytes)
    then show ?thesis by (simp add: readVarint_def c)
  next
    case 3
    then have c: "compact_bytes n = 0xFE # le_bytes 4 n" by (simp add: compact_bytes_def)
    from st have "field buf off = Some 0xFE" "buf_read 4 buf (off + 1) = Inr n"
      using 3 by (auto simp: c dest: stands_field tail intro!: buf_read_bytes)
    then show ?thesis by (simp add: readVarint_def c)
  next
    case 4
    have "le_bytes 8 n = le_bytes 4 n @ le_bytes 4 (n div 256 ^ 4)"
      using le_bytes_add[of 4 4 n] by simp
    with 4 have c: "compact_bytes n = 0xFF # le_bytes 4 n @ le_bytes 4 (n div 256 ^ 4)" by (simp add: compact_bytes_def)
    from st have f: "field buf off = Some 0xFF" by (auto simp: c dest: stands_field)
    have "stands buf (off + 1) (le_bytes 4 n @ le_bytes 4 (n div 256 ^ 4))" using st by (auto simp: c dest: tail)
    then have "stands buf (off + 1) (le_bytes 4 n)" "stands buf (off + 5) (le_bytes 4 (n div 256 ^ 4))"
      by (simp_all add: stands_append add.commute)
    then have r: "buf_read 4 buf (off + 1) = Inr (n mod 256 ^ 4)" "buf_read 4 buf (off + 5) = Inr (n div 256 ^ 4 mod 256 ^ 4)"
      by (simp_all add: buf_read_stands le_value_bytes)
    have "n div 256 ^ 4 mod 256 ^ 4 = n div 256 ^ 4" using n by simp
    moreover have "n div 256 ^ 4 * 0x100000000 + n mod 256 ^ 4 = n"
      using div_mult_mod_eq[of n "256 ^ 4"] by simp
    ultimately show ?thesis using f r n by (simp add: readVarint_def c)
  qed
qed

text \<open>The codec of this module meets the interface that the buffer reader asks of its package.\<close>

definition compact_codec :: varuint where
  "compact_codec = \<lparr>vu_decode = readVarint,
     vu_encode = (\<lambda>n. if n < 2 ^ 53 then Inr (compact_bytes n) else Inl OutOfRange)\<rparr>"

interpretation compact: varuint_codec compact_codec
  by unfold_locales (auto simp: compact_codec_def readVarint_compact split: if_splits)

lemma need_stands: "stands buf off bs \<Longrightarrow> length bs = n \<Longrightarrow> need buf off n what = Inr (off + n)"
  by (auto simp: need_def stands_def)

lemma skip_inputs_exact:
  "stands buf off (concat (map in_bytes ins)) \<Longrightarrow> list_all in_ok ins
    \<Longrightarrow> skip_inputs buf (length ins) off = Inr (off + length (concat (map in_bytes ins)))"
proof (induction ins arbitrary: off)
  case (Cons i ins)
  from Cons.prems(2) have i: "length (ti_prevout i) = 36" "length (ti_script i) < 2 ^ 53" "length (ti_sequence i) = 4"
    "list_all in_ok ins" by (auto simp: in_ok_def[of i] readable_def)
  let ?c = "length (compact_bytes (length (ti_script i)))"
  from Cons.prems(1) i have st: "stands buf off (ti_prevout i)" "stands buf (off + 36) (compact_bytes (length (ti_script i)))"
    "stands buf (off + 36 + ?c + length (ti_script i)) (ti_sequence i)"
    "stands buf (off + 36 + ?c + length (ti_script i) + 4) (concat (map in_bytes ins))"
    by (simp_all add: in_bytes_def[of i] var_bytes_def[of "ti_script i"] stands_append add.assoc)
  show ?case
    using Cons.IH[OF st(4) i(4)]
    by (simp add: need_stands[OF st(1) i(1)] readVarint_compact[OF st(2) i(2)] need_stands[OF st(3) i(3)])
      (simp add: in_bytes_def[of i] var_bytes_def[of "ti_script i"] i)
qed simp

lemma skip_outputs_exact:
  "stands buf off (concat (map out_bytes outs)) \<Longrightarrow> list_all out_ok outs
    \<Longrightarrow> skip_outputs buf (length outs) off = Inr (off + length (concat (map out_bytes outs)))"
proof (induction outs arbitrary: off)
  case (Cons t outs)
  from Cons.prems(2) have t: "length (to_value t) = 8" "length (to_script t) < 2 ^ 53" "list_all out_ok outs"
    by (auto simp: out_ok_def[of t] readable_def)
  from Cons.prems(1) t have st: "stands buf off (to_value t)" "stands buf (off + 8) (compact_bytes (length (to_script t)))"
    "stands buf (off + 8 + length (compact_bytes (length (to_script t))) + length (to_script t)) (concat (map out_bytes outs))"
    by (simp_all add: out_bytes_def[of t] var_bytes_def[of "to_script t"] stands_append add.assoc)
  show ?case
    using Cons.IH[OF st(3) t(3)]
    by (simp add: need_stands[OF st(1) t(1)] readVarint_compact[OF st(2) t(2)]) (simp add: out_bytes_def[of t] var_bytes_def[of "to_script t"] t)
qed simp

lemma skip_items_exact:
  "stands buf off (concat (map var_bytes st)) \<Longrightarrow> list_all readable st
    \<Longrightarrow> skip_items buf (length st) off = Inr (off + length (concat (map var_bytes st)))"
proof (induction st arbitrary: off)
  case (Cons s st)
  from Cons.prems have s: "length s < 2 ^ 53" "list_all readable st" "stands buf off (compact_bytes (length s))"
    "stands buf (off + length (compact_bytes (length s)) + length s) (concat (map var_bytes st))"
    by (simp_all add: readable_def[of s] var_bytes_def[of s] stands_append add.assoc)
  show ?case using Cons.IH[OF s(4,2)] by (simp add: readVarint_compact[OF s(3,1)]) (simp add: var_bytes_def[of s])
qed simp

lemma skip_stacks_exact:
  "stands buf off (concat (map (list_bytes var_bytes) w)) \<Longrightarrow> list_all stack_ok w
    \<Longrightarrow> skip_stacks buf (length w) off = Inr (off + length (concat (map (list_bytes var_bytes) w)))"
proof (induction w arbitrary: off)
  case (Cons st w)
  let ?c = "length (compact_bytes (length st))" and ?m = "length (concat (map var_bytes st))"
  from Cons.prems have s: "length st < 2 ^ 53" "list_all readable st" "list_all stack_ok w"
    "stands buf off (compact_bytes (length st))" "stands buf (off + ?c) (concat (map var_bytes st))"
    "stands buf (off + ?c + ?m) (concat (map (list_bytes var_bytes) w))"
    by (simp_all add: stack_ok_def[of st] list_bytes_def[of var_bytes st] stands_append add.assoc del: length_concat)
  show ?case
    using Cons.IH[OF s(6,3)]
    by (simp add: readVarint_compact[OF s(4,1)] skip_items_exact[OF s(5,2)] del: length_concat)
      (simp add: list_bytes_def[of var_bytes st])
qed simp

lemma compact_head: "compact_bytes n \<noteq> [] \<and> (hd (compact_bytes n) = 0 \<longleftrightarrow> n = 0)"
proof -
  have "word_of_nat n = (0 :: byte) \<longleftrightarrow> n = 0" if "n < 0xFD"
    using that by (simp add: word_of_nat_eq_0_iff dvd_def) (use that in presburger)
  then show ?thesis by (auto simp: compact_bytes_def)
qed

lemma marker_read:
  assumes "stands buf off (compact_bytes n)"
  shows "field buf off = Some 0 \<longleftrightarrow> n = 0"
proof -
  obtain b bs where "compact_bytes n = b # bs" using compact_head by (meson list.exhaust)
  with assms stands_field[of buf off b bs] compact_head[of n] show ?thesis by simp
qed

lemma skipCoinbaseTransaction_exact:
  assumes st: "stands buf off (parent_tx_bytes t)" and ok: "parent_tx_ok t"
  shows "skipCoinbaseTransaction buf off = Inr (off + length (parent_tx_bytes t))"
proof -
  define m where "m = (case pt_witness t of None \<Rightarrow> [] | Some (flag, _) \<Rightarrow> [0, flag])"
  define i where "i = concat (map in_bytes (pt_ins t))"
  define u where "u = concat (map out_bytes (pt_outs t))"
  define w where "w = (case pt_witness t of None \<Rightarrow> [] | Some (_, w) \<Rightarrow> concat (map (list_bytes var_bytes) w))"
  define ni no where "ni = compact_bytes (length (pt_ins t))" and "no = compact_bytes (length (pt_outs t))"
  have bytes: "parent_tx_bytes t = pt_version t @ m @ ni @ i @ no @ u @ w @ pt_locktime t"
    by (simp add: parent_tx_bytes_def m_def i_def u_def w_def ni_def no_def list_bytes_def)
  from ok have len: "length (pt_version t) = 4" "length (pt_locktime t) = 4" "list_all in_ok (pt_ins t)"
    "list_all out_ok (pt_outs t)" "length (pt_ins t) < 2 ^ 53" "length (pt_outs t) < 2 ^ 53"
    by (auto simp: parent_tx_ok_def)
  define o2 where "o2 = off + 4 + length m"
  from st have s: "stands buf off (pt_version t)" "stands buf (off + 4) m" "stands buf o2 ni" "stands buf (o2 + length ni) i"
    "stands buf (o2 + length ni + length i) no" "stands buf (o2 + length ni + length i + length no) u"
    "stands buf (o2 + length ni + length i + length no + length u) w"
    "stands buf (o2 + length ni + length i + length no + length u + length w) (pt_locktime t)"
    unfolding bytes by (simp_all add: stands_append len o2_def add.assoc)
  have seg: "field buf (off + 4) = Some 0 \<longleftrightarrow> pt_witness t \<noteq> None"
  proof (cases "pt_witness t")
    case None
    then have "length (pt_ins t) \<noteq> 0" using ok by (auto simp: parent_tx_ok_def)
    moreover have "stands buf (off + 4) ni" using s(3) None by (simp add: m_def o2_def)
    ultimately show ?thesis using marker_read None by (simp add: ni_def)
  next
    case (Some fw)
    then show ?thesis using s(2) by (auto simp: m_def split: prod.splits dest: stands_field)
  qed
  have o2: "(if field buf (off + 4) = Some 0 then off + 4 + 2 else off + 4) = o2"
    unfolding seg by (auto simp: o2_def m_def split: option.splits)
  have wit: "(if field buf (off + 4) = Some 0 then skip_stacks buf (length (pt_ins t)) p else Inr p) = Inr (p + length w)"
    if "stands buf p w" for p
  proof (cases "pt_witness t")
    case None then show ?thesis by (simp add: seg w_def)
  next
    case (Some fw)
    then obtain f ws where fw: "pt_witness t = Some (f, ws)" by (cases fw) auto
    then have "length ws = length (pt_ins t)" "list_all stack_ok ws" using ok by (auto simp: parent_tx_ok_def)
    then show ?thesis using skip_stacks_exact[of buf p ws] that fw by (simp add: seg w_def del: length_concat)
  qed
  show ?thesis
    using readVarint_compact[OF s(3)[unfolded ni_def] len(5)] skip_inputs_exact[OF s(4)[unfolded i_def] len(3)]
      readVarint_compact[OF s(5)[unfolded no_def] len(6)] skip_outputs_exact[OF s(6)[unfolded u_def] len(4)] wit[OF s(7)]
      need_stands[OF s(8) len(2)] need_stands[OF s(1) len(1)]
    by (simp add: skipCoinbaseTransaction_def Let_def o2 flip: i_def u_def ni_def no_def)
      (simp add: bytes len o2_def)
qed

lemma skip_branch_exact:
  assumes "stands buf off (branch_bytes hs ix)" "branch_ok hs ix"
  shows "skip_branch buf off what = Inr (off + length (branch_bytes hs ix))"
proof -
  from assms have s: "length hs < 2 ^ 53" "stands buf off (compact_bytes (length hs))"
    "stands buf (off + length (compact_bytes (length hs))) (concat (map (\<lambda>h. h) hs) @ ix)"
    by (simp_all add: branch_ok_def branch_bytes_def list_bytes_def stands_append add.assoc)
  have "length (concat hs) = length hs * 32"
    using assms(2) by (induction hs) (auto simp: branch_ok_def)
  then have "length (concat (map (\<lambda>h. h) hs) @ ix) = length hs * 32 + 4"
    using assms(2) by (simp add: branch_ok_def del: length_concat)
  from need_stands[OF s(3) this] show ?thesis
    by (simp add: skip_branch_def readVarint_compact[OF s(2,1)] del: length_concat)
      (simp add: branch_bytes_def list_bytes_def \<open>length (concat (map (\<lambda>h. h) hs) @ ix) = _\<close>[simplified] del: length_concat)
qed

lemma skipAuxPow_exact:
  assumes st: "stands buf off (aux_pow_bytes a)" and ok: "aux_pow_ok a"
  shows "skipAuxPow buf off = Inr (off + length (aux_pow_bytes a))"
proof -
  let ?c = "length (parent_tx_bytes (ap_coinbase a))" and ?b = "length (branch_bytes (ap_branch a) (ap_branch_index a))"
    and ?h = "length (branch_bytes (ap_chain a) (ap_chain_index a))"
  from ok have o: "parent_tx_ok (ap_coinbase a)" "length (ap_parent_hash a) = 32" "branch_ok (ap_branch a) (ap_branch_index a)"
    "branch_ok (ap_chain a) (ap_chain_index a)" "length (ap_header a) = 80" by (auto simp: aux_pow_ok_def)
  from st have s: "stands buf off (parent_tx_bytes (ap_coinbase a))" "stands buf (off + ?c) (ap_parent_hash a)"
    "stands buf (off + ?c + 32) (branch_bytes (ap_branch a) (ap_branch_index a))"
    "stands buf (off + ?c + 32 + ?b) (branch_bytes (ap_chain a) (ap_chain_index a))"
    "stands buf (off + ?c + 32 + ?b + ?h) (ap_header a)"
    by (simp_all add: aux_pow_bytes_def stands_append o add.assoc)
  show ?thesis
    by (simp add: skipAuxPow_def skipCoinbaseTransaction_exact[OF s(1) o(1)] need_stands[OF s(2) o(2)]
        skip_branch_exact[OF s(3) o(3)] skip_branch_exact[OF s(4) o(4)] need_stands[OF s(5) o(5)])
      (simp add: aux_pow_bytes_def o)
qed

section \<open>Hexadecimal read back\<close>

lemma byte_nibbles: "unat (w :: byte) div 16 < 16" "unat w mod 16 < 16" "word_of_nat (16 * (unat w div 16) + unat w mod 16) = w"
proof -
  have "unat w < 256" using unsigned_less[of w] by simp
  then show "unat w div 16 < 16" "unat w mod 16 < 16" by (auto simp: less_mult_imp_div_less)
  have "16 * (unat w div 16) + unat w mod 16 = unat w" by simp
  then show "word_of_nat (16 * (unat w div 16) + unat w mod 16) = w" by (simp only:) simp
qed

lemma uint8ArrayToHex_Cons: "uint8ArrayToHex (w # b) = hex_char (unat w div 16) # hex_char (unat w mod 16) # uint8ArrayToHex b"
  by (simp add: uint8ArrayToHex_def)

lemma uint8ArrayToHex_append: "uint8ArrayToHex (a @ b) = uint8ArrayToHex a @ uint8ArrayToHex b"
  by (simp add: uint8ArrayToHex_def)

lemma uint8ArrayToHex_Nil [simp]: "uint8ArrayToHex [] = []"
  by (simp add: uint8ArrayToHex_def)

lemma hex_bytes_hex [simp]: "hex_bytes (uint8ArrayToHex b) = b"
  by (induction b) (simp_all add: uint8ArrayToHex_Cons byte_nibbles)

lemma take_hex: "take (2 * k) (uint8ArrayToHex b) = uint8ArrayToHex (take k b)"
proof (induction k arbitrary: b)
  case (Suc k)
  then show ?case by (cases b) (simp_all add: uint8ArrayToHex_Cons)
qed simp

lemma drop_hex: "drop (2 * k) (uint8ArrayToHex b) = uint8ArrayToHex (drop k b)"
proof (induction k arbitrary: b)
  case (Suc k)
  then show ?case by (cases b) (simp_all add: uint8ArrayToHex_Cons)
qed simp

lemma encodeVarintHex_compact: "n \<le> 0xFFFFFFFF \<Longrightarrow> encodeVarintHex n = Inr (uint8ArrayToHex (compact_bytes n))"
  by (auto simp: encodeVarintHex_def compact_bytes_def uint8ArrayToHex_Cons unat_of_nat)

section \<open>The version of a block\<close>

lemma parse_int_hex:
  assumes "b \<noteq> []"
  shows "parse_int_16 (uint8ArrayToHex b) = Some (int (be_value b))"
proof -
  define s where "s = uint8ArrayToHex b"
  have digits: "list_all (\<lambda>u. hex_digit u \<noteq> None) s"
    unfolding s_def by (induction b) (simp_all add: uint8ArrayToHex_Cons byte_nibbles)
  from assms obtain w c where b: "b = w # c" by (cases b) auto
  define d where "d = unat w div 16"
  have d: "d < 16" "s = hex_char d # hex_char (unat w mod 16) # uint8ArrayToHex c"
    by (simp_all add: s_def b uint8ArrayToHex_Cons byte_nibbles d_def)
  have plain: "\<not> js_space u \<and> u \<noteq> 43 \<and> u \<noteq> 45 \<and> u \<noteq> 120 \<and> u \<noteq> 88" if "hex_digit u \<noteq> None" for u
    using that by (auto simp: hex_digit_def js_space_def split: if_splits)
  have "js_trim_start s = s" "take_sign s = ([], s)"
    using d plain[of "hex_char d"] by (simp_all add: js_trim_start_def take_sign_def)
  moreover have "\<not> starts_with (js ''0x'') s" "\<not> starts_with (js ''0X'') s"
    using plain[of "hex_char (unat w mod 16)"] d by (simp_all add: starts_with_def js_def byte_nibbles)
  moreover have whole: "takeWhile (\<lambda>u. hex_digit u \<noteq> None) s = s" "s \<noteq> []"
    using digits d by (simp_all add: list_all_iff takeWhile_eq_all_conv)
  moreover have "foldl (\<lambda>v d. v * 16 + d) n (map (the \<circ> hex_digit) (uint8ArrayToHex b)) = foldl (\<lambda>v w. v * 256 + unat w) n b" for n b
  proof (induction b arbitrary: n)
    case (Cons w b)
    have "(n * 16 + unat w div 16) * 16 + unat w mod 16 = n * 256 + unat w"
      using div_mult_mod_eq[of "unat w" 16] by simp
    with Cons show ?case by (simp only: uint8ArrayToHex_Cons list.map foldl.simps o_apply hex_digit_char[OF byte_nibbles(1)]
      hex_digit_char[OF byte_nibbles(2)] option.sel)
  qed simp
  ultimately show ?thesis
    unfolding parse_int_16_def be_value_def digits_value_def s_def[symmetric]
    by (simp only: Let_def prod.case if_False if_True HOL.simp_thms whole) (simp add: s_def)
qed

lemma auxpow_version_bit: "auxpow_version (uint8ArrayToHex [a, b, c, d]) \<longleftrightarrow> odd (unat b)"
proof -
  define v where "v = be_value [a, b, c, d]"
  have lt: "unat a < 256" "unat b < 256" "unat c < 256" "unat d < 256"
    using unsigned_less[of a] unsigned_less[of b] unsigned_less[of c] unsigned_less[of d] by simp_all
  have v: "v = (unat a * 256 + unat b) * 65536 + (unat c * 256 + unat d)" by (simp add: v_def be_value_def)
  then have "v div 65536 = unat a * 256 + unat b" using lt by simp
  then have "bit v 16 \<longleftrightarrow> odd (unat b)" by (simp add: bit_iff_odd)
  moreover have "bit (swap_version (word_of_nat v)) 8 \<longleftrightarrow> bit v 16"
    by (simp add: swap_version_def bit_or_iff bit_push_bit_iff bit_and_iff bit_drop_bit_eq bit_simps bit_numeral_rec)
  moreover have "auxpow_version (uint8ArrayToHex [a, b, c, d]) \<longleftrightarrow> bit (swap_version (word_of_nat v)) 8"
    using and_exp_eq_0_iff_not_bit[of "swap_version (word_of_nat v)" 8]
    by (simp add: auxpow_version_def parse_int_hex v_def)
  ultimately show ?thesis by blast
qed

end
