(* ===== verification/Block_Queries.thy ===== *)
theory Block_Queries
  imports Rpc_Transport Auxpow_Codec
begin

text \<open>
  The questions put to the node (\<open>src/src/chain/blockchain_connector/block_queries.js\<close> and
  \<open>transaction_queries.js\<close>), over the connector's ladders.  Within a batch of raw transactions the
  code's requests run at the same time; here they run one after the other, each on the answers of its
  own posts.
\<close>

section \<open>Questions\<close>

datatype rpc_request =
    GetNetworkInfo
  | GetBlockchainInfo
  | GetBlockHash int
  | GetBlockHeader jsstr bool
  | GetBlock jsstr bool
  | GetRawTransaction jsstr
  | GetRawMempool

type_synonym 'a query = "connector \<Rightarrow> (rpc_fault + 'a) \<times> connector"
type_synonym node_env = "rpc_request rpc_env"

definition rq_return :: "'a \<Rightarrow> 'a query" where
  "rq_return v c = (Inr v, c)"

definition rq_throw :: "rpc_fault \<Rightarrow> 'a query" where
  "rq_throw f c = (Inl f, c)"

definition rq_bind :: "'a query \<Rightarrow> ('a \<Rightarrow> 'b query) \<Rightarrow> 'b query" where
  "rq_bind m f c = (case m c of (Inl e, c1) \<Rightarrow> (Inl e, c1) | (Inr v, c1) \<Rightarrow> f v c1)"

definition rq_catch :: "'a query \<Rightarrow> (rpc_fault \<Rightarrow> 'a query) \<Rightarrow> 'a query" where
  "rq_catch m h c = (case m c of (Inl e, c1) \<Rightarrow> h e c1 | (Inr v, c1) \<Rightarrow> (Inr v, c1))"

definition rq_count :: "unit query" where
  "rq_count c = (Inr (), count_rpc c)"

definition getNetworkInfo :: "node_env \<Rightarrow> rpc_value query" where
  "getNetworkInfo env = rpcCallWithTimeoutRetry env GetNetworkInfo"

definition getBlockchainInfo :: "node_env \<Rightarrow> rpc_value query" where
  "getBlockchainInfo env = rpcCallWithTimeoutRetry env GetBlockchainInfo"

definition getRawMempool :: "node_env \<Rightarrow> rpc_value query" where
  "getRawMempool env = rpcCallWithTimeoutRetry env GetRawMempool"

definition BLOCK_HASH_HEX :: "jsstr \<Rightarrow> bool" where
  "BLOCK_HASH_HEX s \<longleftrightarrow> length s = 64 \<and> list_all (\<lambda>u. hex_digit u \<noteq> None) s"

definition lower_hex :: "jsstr \<Rightarrow> jsstr" where
  "lower_hex s = map (\<lambda>u. if 65 \<le> u \<and> u \<le> 90 then u + 32 else u) s"

definition getBlockHash :: "node_env \<Rightarrow> int \<Rightarrow> jsstr query" where
  "getBlockHash env blockindex =
     rq_bind (rpcCallWithTimeoutRetry env (GetBlockHash blockindex)) (\<lambda>result.
       case result of
         TextValue s \<Rightarrow> if BLOCK_HASH_HEX s then rq_return (lower_hex s) else rq_bind rq_count (\<lambda>_. rq_throw plain_fault)
       | _ \<Rightarrow> rq_bind rq_count (\<lambda>_. rq_throw plain_fault))"

definition getBlockHeader :: "node_env \<Rightarrow> jsstr \<Rightarrow> bool \<Rightarrow> rpc_value query" where
  "getBlockHeader env blockhash hexFormat = rpcCallWithTimeoutRetry env (GetBlockHeader blockhash (\<not> hexFormat))"

definition getBlock :: "node_env \<Rightarrow> jsstr \<Rightarrow> bool \<Rightarrow> rpc_value query" where
  "getBlock env blockhash hexFormat = rpcCallWithTimeoutRetry env (GetBlock blockhash (\<not> hexFormat))"

definition getBlockVerbose :: "node_env \<Rightarrow> jsstr \<Rightarrow> rpc_value query" where
  "getBlockVerbose env blockhash = rpcCallWithTimeoutRetry env (GetBlock blockhash True)"

definition isWholeHex :: "rpc_value \<Rightarrow> bool" where
  "isWholeHex v = (case v of TextValue s \<Rightarrow> whole_hex s | _ \<Rightarrow> False)"

fun text_of :: "rpc_value \<Rightarrow> jsstr" where
  "text_of (TextValue s) = s"
| "text_of _ = []"

section \<open>A block without its proof\<close>

text \<open>Only a failure to cut carries the flag that sends the loop to the other way of fetching.\<close>

definition getBlockWithoutAuxPow :: "node_env \<Rightarrow> 'tx wire_lib \<Rightarrow> jsstr \<Rightarrow> jsstr query" where
  "getBlockWithoutAuxPow env lib blockhash =
     rq_bind (getBlockHeader env blockhash True) (\<lambda>header.
     rq_bind (getBlock env blockhash True) (\<lambda>block.
       if \<not> isWholeHex header \<or> \<not> isWholeHex block then rq_bind rq_count (\<lambda>_. rq_throw plain_fault)
       else (case stripAuxPowFromBlockHex lib (text_of header) (text_of block) of
               Inr blockHex \<Rightarrow> rq_return blockHex
             | Inl _ \<Rightarrow> rq_throw (plain_fault\<lparr>rf_auxPow := True\<rparr>))))"

definition getRawTransaction :: "node_env \<Rightarrow> jsstr \<Rightarrow> jsstr option query" where
  "getRawTransaction env txid = runRawTransactionRetries env (GetRawTransaction txid)"

fun fetch_each :: "node_env \<Rightarrow> jsstr list \<Rightarrow> jsstr option list query" where
  "fetch_each env [] = rq_return []"
| "fetch_each env (t # ts) =
     rq_bind (getRawTransaction env t) (\<lambda>r. rq_bind (fetch_each env ts) (\<lambda>rs. rq_return (r # rs)))"

text \<open>The setting is at least one, so that every slice moves on.\<close>

function fetch_slices :: "node_env \<Rightarrow> nat \<Rightarrow> jsstr list \<Rightarrow> jsstr option list query" where
  "fetch_slices env k ts =
     (if ts = [] \<or> k = 0 then rq_return []
      else rq_bind (fetch_each env (take k ts)) (\<lambda>rs.
           rq_bind (fetch_slices env k (drop k ts)) (\<lambda>rest. rq_return (rs @ rest))))"
  by auto
termination by (relation "measure (\<lambda>(env, k, ts). length ts)") auto

declare fetch_slices.simps [simp del]

definition getRawTransactions :: "node_env \<Rightarrow> jsstr option \<Rightarrow> jsstr list \<Rightarrow> jsstr option list query" where
  "getRawTransactions env setting txIdArray = fetch_slices env (nat (envInt setting 50 1)) txIdArray"

definition reassemble :: "node_env \<Rightarrow> jsstr option \<Rightarrow> jsstr \<Rightarrow> jsstr query" where
  "reassemble env setting blockhash =
     rq_bind (getBlockHeader env blockhash True) (\<lambda>header.
       case header of
         TextValue h \<Rightarrow>
           rq_bind (getBlockVerbose env blockhash) (\<lambda>verbose.
             case verbose of
               VerboseBlock (Some ids) \<Rightarrow>
                 rq_bind (getRawTransactions env setting ids) (\<lambda>txHexes.
                   if None \<in> set txHexes then rq_throw plain_fault
                   else (case encodeVarintHex (length txHexes) of
                           Inl _ \<Rightarrow> rq_throw plain_fault
                         | Inr n \<Rightarrow> rq_return (take 160 h @ n @ concat (map the txHexes))))
             | _ \<Rightarrow> rq_throw plain_fault)
       | _ \<Rightarrow> rq_throw plain_fault)"

definition getBlockReassembled :: "node_env \<Rightarrow> jsstr option \<Rightarrow> jsstr \<Rightarrow> jsstr query" where
  "getBlockReassembled env setting blockhash =
     rq_catch (reassemble env setting blockhash) (\<lambda>f. rq_throw (carryErrorIdentity plain_fault (Some f)))"

text \<open>\<open>probeTxIndex\<close>: whether the node answers for the coinbase of its tip.\<close>

definition probeTxIndex :: "node_env \<Rightarrow> bool option query" where
  "probeTxIndex env =
     rq_catch (rq_bind (getBlockchainInfo env) (\<lambda>info.
       case info of
         TipInfo (Some best) blocks \<Rightarrow>
           if best = [] \<or> blocks = Some 0 then rq_return None
           else rq_bind (getBlockVerbose env best) (\<lambda>block.
             case block of
               VerboseBlock (Some (t # _)) \<Rightarrow> rq_bind (getRawTransaction env t) (\<lambda>h. rq_return (Some (h \<noteq> None)))
             | _ \<Rightarrow> rq_return None)
       | _ \<Rightarrow> rq_return None))
     (\<lambda>_. rq_return None)"

section \<open>A node that answers\<close>

definition gives :: "node_env \<Rightarrow> rpc_request \<Rightarrow> rpc_value \<Rightarrow> bool" where
  "gives env q v \<longleftrightarrow> (\<forall>n u. re_answer env n u q = Answered (Body None (Some v)))"

lemma ladder_gives: "gives env q v \<Longrightarrow> \<exists>c'. rpcCallWithTimeoutRetry env q c = (Inr v, c')"
  by (simp add: rpcCallWithTimeoutRetry_def numeral_eq_Suc rpcPost_def gives_def rpcResult_def Let_def)

lemma raw_gives:
  assumes "gives env (GetRawTransaction t) (TextValue s)" "whole_hex s"
  shows "\<exists>c'. getRawTransaction env t c = (Inr (Some s), c')"
  using assms
  by (auto simp: getRawTransaction_def runRawTransactionRetries_def numeral_eq_Suc rpcPost_def gives_def
      rawTransactionResponse_def wholeHexResult_def whole_hex_def Let_def)

lemma rq_bind_some: "m c = (Inr v, c1) \<Longrightarrow> rq_bind m f c = f v c1"
  by (simp add: rq_bind_def)

lemma fetch_each_gives:
  "list_all2 (\<lambda>t s. gives env (GetRawTransaction t) (TextValue s) \<and> whole_hex s) ts ss
    \<Longrightarrow> \<exists>c'. fetch_each env ts c = (Inr (map Some ss), c')"
proof (induction ts ss arbitrary: c rule: list_all2_induct)
  case (Cons t ts s ss)
  obtain c1 where "getRawTransaction env t c = (Inr (Some s), c1)" using raw_gives Cons(1) by blast
  moreover obtain c2 where "fetch_each env ts c1 = (Inr (map Some ss), c2)" using Cons(3) by blast
  ultimately show ?case by (simp add: rq_bind_some rq_return_def)
qed (simp add: rq_return_def)

text \<open>Slicing changes nothing: the answers come back in the order of the ids.\<close>

lemma rq_bind_assoc: "rq_bind (rq_bind m f) g c = rq_bind m (\<lambda>v. rq_bind (f v) g) c"
  by (simp add: rq_bind_def split: prod.splits sum.splits)

lemma fetch_each_append:
  "fetch_each env (a @ b) c = rq_bind (fetch_each env a) (\<lambda>rs. rq_bind (fetch_each env b) (\<lambda>rest. rq_return (rs @ rest))) c"
proof (induction a arbitrary: c)
  case Nil
  then show ?case by (simp add: rq_bind_def rq_return_def split: prod.splits sum.splits)
next
  case (Cons t a)
  then show ?case by (auto simp: rq_bind_def rq_return_def split: prod.splits sum.splits)
qed

lemma fetch_slices_each: "0 < k \<Longrightarrow> fetch_slices env k ts c = fetch_each env ts c"
proof (induction env k ts arbitrary: c rule: fetch_slices.induct)
  case (1 env k ts)
  show ?case
  proof (cases "ts = []")
    case True
    then show ?thesis by (simp add: fetch_slices.simps)
  next
    case False
    have "fetch_slices env k (drop k ts) = fetch_each env (drop k ts)" using 1 False by (intro ext) auto
    then have "fetch_slices env k ts c = rq_bind (fetch_each env (take k ts)) (\<lambda>rs.
        rq_bind (fetch_each env (drop k ts)) (\<lambda>rest. rq_return (rs @ rest))) c"
      using False 1(2) by (subst fetch_slices.simps) simp
    then show ?thesis using fetch_each_append[of env "take k ts" "drop k ts" c] by simp
  qed
qed

lemma envInt_min: "mn \<le> fallback \<Longrightarrow> mn \<le> envInt raw fallback mn"
  by (auto simp: envInt_def Let_def split: option.splits)

lemma getRawTransactions_each: "getRawTransactions env setting ts c = fetch_each env ts c"
  unfolding getRawTransactions_def using envInt_min[of 1 50 setting] by (intro fetch_slices_each) simp

section \<open>Two ways to one block\<close>

lemma whole_hex_bytes: "b \<noteq> [] \<Longrightarrow> whole_hex (uint8ArrayToHex b)"
proof -
  assume "b \<noteq> []"
  moreover have "list_all (\<lambda>u. hex_digit u \<noteq> None) (uint8ArrayToHex b)" for b
    by (induction b) (simp_all add: uint8ArrayToHex_Cons byte_nibbles)
  ultimately show ?thesis by (cases b) (simp_all add: whole_hex_def uint8ArrayToHex_Cons byte_nibbles)
qed

lemma four_bytes: "4 \<le> length h \<Longrightarrow> \<exists>w x y z t. h = w # x # y # z # t"
  by (auto simp: numeral_eq_Suc Suc_le_length_iff)

lemma strip_exact:
  assumes "length h = 80" "aux_pow_ok a" "hdr = h \<and> odd (unat (h ! 1)) \<or> hdr = h @ aux_pow_bytes a"
    and "assertWholeBlock lib (uint8ArrayToHex (h @ body)) = Inr ()"
  shows "stripAuxPowFromBlockHex lib (uint8ArrayToHex hdr) (uint8ArrayToHex (h @ aux_pow_bytes a @ body))
    = Inr (uint8ArrayToHex (h @ body))"
proof -
  let ?block = "h @ aux_pow_bytes a @ body" and ?k = "80 + length (aux_pow_bytes a)"
  have cut: "take 160 (uint8ArrayToHex ?block) @ drop (?k * 2) (uint8ArrayToHex ?block) = uint8ArrayToHex (h @ body)"
    using take_hex[of 80 ?block] drop_hex[of ?k ?block] assms(1) by (simp add: uint8ArrayToHex_append mult.commute)
  have pos: "0 < length (aux_pow_bytes a)" using assms(2) by (simp add: aux_pow_bytes_def aux_pow_ok_def)
  show ?thesis
  proof (cases "hdr = h")
    case True
    with assms(3) pos have bit: "odd (unat (h ! 1))" by auto
    obtain w x y z t where h: "h = w # x # y # z # t"
      using four_bytes[of h] assms(1) by auto
    have "take 8 (uint8ArrayToHex ?block) = uint8ArrayToHex [w, x, y, z]"
      using take_hex[of 4 ?block] by (simp add: h)
    with bit have "auxpow_version (take 8 (uint8ArrayToHex ?block))" by (simp add: auxpow_version_bit h)
    moreover have "skipAuxPow ?block 80 = Inr ?k"
      using skipAuxPow_exact[of ?block 80 a] stands_middle[of h "aux_pow_bytes a" body] assms(1,2) by simp
    ultimately show ?thesis
      using True assms(1,4) cut by (simp add: stripAuxPowFromBlockHex_def Let_def)
  next
    case False
    with assms(3) have "hdr = h @ aux_pow_bytes a" by auto
    with pos assms(1,4) cut show ?thesis
      by (simp add: stripAuxPowFromBlockHex_def Let_def mult.commute add_mult_distrib2)
  qed
qed

lemma two_ways:
  assumes block: "length h = 80" "aux_pow_ok a" "length txs \<le> 0xFFFFFFFF" "list_all (\<lambda>b. b \<noteq> []) txs"
    and whole: "assertWholeBlock lib (uint8ArrayToHex (h @ compact_bytes (length txs) @ concat txs)) = Inr ()"
    and node: "hdr = h \<and> odd (unat (h ! 1)) \<or> hdr = h @ aux_pow_bytes a"
      "gives env (GetBlockHeader hash False) (TextValue (uint8ArrayToHex hdr))"
      "gives env (GetBlock hash False)
         (TextValue (uint8ArrayToHex (h @ aux_pow_bytes a @ compact_bytes (length txs) @ concat txs)))"
      "gives env (GetBlock hash True) (VerboseBlock (Some ids))"
      "list_all2 (\<lambda>t b. gives env (GetRawTransaction t) (TextValue (uint8ArrayToHex b))) ids txs"
  shows "fst (getBlockWithoutAuxPow env lib hash c) = Inr (uint8ArrayToHex (h @ compact_bytes (length txs) @ concat txs))"
    and "fst (getBlockReassembled env setting hash c') = Inr (uint8ArrayToHex (h @ compact_bytes (length txs) @ concat txs))"
proof -
  have hdr: "hdr \<noteq> []" "take 80 hdr = h" using node(1) block(1) by auto
  have hex: "whole_hex (uint8ArrayToHex hdr)"
    "whole_hex (uint8ArrayToHex (h @ aux_pow_bytes a @ compact_bytes (length txs) @ concat txs))"
    using hdr(1) block(1) by (auto intro!: whole_hex_bytes)
  obtain c1 where c1: "getBlockHeader env hash True c = (Inr (TextValue (uint8ArrayToHex hdr)), c1)"
    using ladder_gives[OF node(2)] unfolding getBlockHeader_def by force
  obtain c2 where c2: "getBlock env hash True c1
      = (Inr (TextValue (uint8ArrayToHex (h @ aux_pow_bytes a @ compact_bytes (length txs) @ concat txs))), c2)"
    using ladder_gives[OF node(3)] unfolding getBlock_def by force
  show "fst (getBlockWithoutAuxPow env lib hash c) = Inr (uint8ArrayToHex (h @ compact_bytes (length txs) @ concat txs))"
    using strip_exact[OF block(1,2) node(1) whole] hex
    by (simp add: getBlockWithoutAuxPow_def c1 c2 isWholeHex_def rq_return_def rq_bind_def)
  obtain d1 where d1: "getBlockHeader env hash True c' = (Inr (TextValue (uint8ArrayToHex hdr)), d1)"
    using ladder_gives[OF node(2)] unfolding getBlockHeader_def by force
  obtain d2 where d2: "getBlockVerbose env hash d1 = (Inr (VerboseBlock (Some ids)), d2)"
    using ladder_gives[OF node(4)] unfolding getBlockVerbose_def by force
  have "list_all2 (\<lambda>t s. gives env (GetRawTransaction t) (TextValue s) \<and> whole_hex s) ids (map uint8ArrayToHex txs)"
    using node(5) block(4) by (auto simp: list_all2_conv_all_nth list_all_length intro!: whole_hex_bytes)
  from fetch_each_gives[OF this] obtain d3 where
    "getRawTransactions env setting ids d2 = (Inr (map Some (map uint8ArrayToHex txs)), d3)"
    unfolding getRawTransactions_each by blast
  note d3 = this
  have "concat (map uint8ArrayToHex txs) = uint8ArrayToHex (concat txs)"
    by (induction txs) (simp_all add: uint8ArrayToHex_append)
  moreover have "take 160 (uint8ArrayToHex hdr) = uint8ArrayToHex h" using take_hex[of 80 hdr] hdr(2) by simp
  ultimately show "fst (getBlockReassembled env setting hash c') = Inr (uint8ArrayToHex (h @ compact_bytes (length txs) @ concat txs))"
    using encodeVarintHex_compact[OF block(3)]
    by (simp add: getBlockReassembled_def rq_catch_def reassemble_def d1 d2
        d3 rq_return_def rq_bind_def uint8ArrayToHex_append o_def image_iff)
qed

end
