(* ===== verification/Block_Decoder.thy ===== *)
theory Block_Decoder
  imports Auxpow_Codec
begin

text \<open>
  Blocks and transactions from their bytes (\<open>src/src/chain/XChainBlockDecoder.js\<close>).  The library parses
  what it can; a Litecoin transaction with an MWEB part, which it cannot, is walked here, and every
  parsed block body is held against its header.
\<close>

section \<open>Walking a flagged transaction\<close>

definition LITECOIN_HOGEX_FLAG :: byte where
  "LITECOIN_HOGEX_FLAG = 0x08"

definition LITECOIN_MWEB_SEGWIT_FLAG :: byte where
  "LITECOIN_MWEB_SEGWIT_FLAG = 0x09"

definition transactionParseError :: "string \<Rightarrow> wire_error \<Rightarrow> wire_error" where
  "transactionParseError msg cause = (case cause of TransactionParse _ \<Rightarrow> cause | _ \<Rightarrow> TransactionParse msg)"

definition mwebShortError :: "string \<Rightarrow> wire_error" where
  "mwebShortError what = Fault (''MWEB tx parse: buffer too short for '' @ what)"

definition skipMwebBytes :: "buffer \<Rightarrow> nat \<Rightarrow> nat \<Rightarrow> string \<Rightarrow> wire_error + nat" where
  "skipMwebBytes buf off count what =
     (if int (length buf) - int off < int count then Inl (mwebShortError what) else Inr (off + count))"

definition readMwebCompactSize :: "buffer \<Rightarrow> nat \<Rightarrow> string \<Rightarrow> wire_error + (nat \<times> nat)" where
  "readMwebCompactSize buf off what =
     (case field buf off of
        None \<Rightarrow> Inl (mwebShortError what)
      | Some first \<Rightarrow>
          if unat first < 0xFD then Inr (unat first, off + 1)
          else (let width = (if first = 0xFD then 2 else if first = 0xFE then 4 else 8)
                in bind_res (skipMwebBytes buf (off + 1) width what) (\<lambda>e.
                   bind_res (buf_read width buf (off + 1)) (\<lambda>v.
                     if width = 8 \<and> MAX_SAFE < int v then Inl (TransactionParse what) else Inr (v, e)))))"

definition skipMwebVarBytes :: "buffer \<Rightarrow> nat \<Rightarrow> string \<Rightarrow> wire_error + nat" where
  "skipMwebVarBytes buf off what =
     bind_res (readMwebCompactSize buf off what) (\<lambda>(len, e). skipMwebBytes buf e len what)"

fun skip_mweb_ins :: "buffer \<Rightarrow> nat \<Rightarrow> nat \<Rightarrow> wire_error + nat" where
  "skip_mweb_ins buf 0 off = Inr off"
| "skip_mweb_ins buf (Suc k) off =
     bind_res (skipMwebBytes buf off 36 ''input prevout'') (\<lambda>o1.
     bind_res (skipMwebVarBytes buf o1 ''input script'') (\<lambda>o2.
     bind_res (skipMwebBytes buf o2 4 ''input sequence'') (skip_mweb_ins buf k)))"

fun skip_mweb_outs :: "buffer \<Rightarrow> nat \<Rightarrow> nat \<Rightarrow> wire_error + nat" where
  "skip_mweb_outs buf 0 off = Inr off"
| "skip_mweb_outs buf (Suc k) off =
     bind_res (skipMwebBytes buf off 8 ''output value'') (\<lambda>o1.
     bind_res (skipMwebVarBytes buf o1 ''output script'') (skip_mweb_outs buf k))"

text \<open>Where both end, where the outputs start, and the number of inputs.\<close>

definition skipMwebInsAndOuts :: "buffer \<Rightarrow> nat \<Rightarrow> wire_error + (nat \<times> nat \<times> nat)" where
  "skipMwebInsAndOuts buf off =
     bind_res (readMwebCompactSize buf off ''input count'') (\<lambda>(ins, o1).
     bind_res (skip_mweb_ins buf ins o1) (\<lambda>outsStart.
     bind_res (readMwebCompactSize buf outsStart ''output count'') (\<lambda>(outs, o2).
     bind_res (skip_mweb_outs buf outs o2) (\<lambda>e. Inr (e, outsStart, ins)))))"

fun skip_mweb_items :: "buffer \<Rightarrow> nat \<Rightarrow> nat \<Rightarrow> wire_error + nat" where
  "skip_mweb_items buf 0 off = Inr off"
| "skip_mweb_items buf (Suc k) off =
     bind_res (skipMwebVarBytes buf off ''witness item'') (skip_mweb_items buf k)"

fun skipMwebWitness :: "buffer \<Rightarrow> nat \<Rightarrow> nat \<Rightarrow> wire_error + nat" where
  "skipMwebWitness buf off 0 = Inr off"
| "skipMwebWitness buf off (Suc k) =
     bind_res (readMwebCompactSize buf off ''witness item count'') (\<lambda>(items, o1).
     bind_res (skip_mweb_items buf items o1) (\<lambda>o2. skipMwebWitness buf o2 k))"

definition hasMwebFlag :: "buffer \<Rightarrow> nat \<Rightarrow> bool" where
  "hasMwebFlag buf off \<longleftrightarrow>
     (if length buf < off + 6 then False
      else (let version = le_value (take 4 (drop off buf)); flag = buf ! (off + 5)
            in (version = 1 \<or> version = 2) \<and> buf ! (off + 4) = 0
               \<and> (flag = LITECOIN_HOGEX_FLAG \<or> flag = LITECOIN_MWEB_SEGWIT_FLAG)))"

section \<open>Building the transaction\<close>

fun inputless_outs :: "buffer \<Rightarrow> nat \<Rightarrow> nat \<Rightarrow> wire_error + (buffer \<times> nat) list" where
  "inputless_outs buf 0 off = Inr []"
| "inputless_outs buf (Suc k) off =
     bind_res (buf_read 8 buf off) (\<lambda>v.
     bind_res (readMwebCompactSize buf (off + 8) ''output script'') (\<lambda>(len, e).
     bind_res (inputless_outs buf k (e + len)) (\<lambda>outs. Inr ((take len (drop e buf), v) # outs))))"

definition buildInputlessTransaction :: "'tx wire_lib \<Rightarrow> buffer \<Rightarrow> nat \<Rightarrow> nat \<Rightarrow> nat \<Rightarrow> wire_error + 'tx" where
  "buildInputlessTransaction lib buf start outsStart lockTimeAt =
     bind_res (buf_read 4 buf start) (\<lambda>version.
     bind_res (readMwebCompactSize buf outsStart ''output count'') (\<lambda>(outs, e).
     bind_res (inputless_outs buf outs e) (\<lambda>os.
     bind_res (buf_read 4 buf lockTimeAt) (\<lambda>locktime. Inr (wl_make lib (signed32 version) os locktime)))))"

text \<open>\<open>buf.subarray(a, b)\<close> with \<open>a \<le> b\<close>.\<close>

definition subarray :: "buffer \<Rightarrow> nat \<Rightarrow> nat \<Rightarrow> buffer" where
  "subarray buf a b = take (b - a) (drop a buf)"

text \<open>Where the lock time stands: at once after a null part, else in the last four bytes of a transaction
  that stands alone.\<close>

definition lock_time_at :: "buffer \<Rightarrow> nat \<Rightarrow> bool \<Rightarrow> wire_error + nat" where
  "lock_time_at buf witnessEnd standalone =
     bind_res (skipMwebBytes buf witnessEnd 1 ''MWEB tag'') (\<lambda>at1.
       if field buf witnessEnd \<noteq> Some 0
       then (if \<not> standalone then Inl (Fault ''a non-null MWEB part inside a block has no recorded length'')
             else if int (length buf) - 4 < int at1 then Inl (mwebShortError ''locktime'')
             else Inr (length buf - 4))
       else Inr at1)"

definition readMwebFlaggedTransaction :: "'tx wire_lib \<Rightarrow> buffer \<Rightarrow> nat \<Rightarrow> bool \<Rightarrow> wire_error + ('tx \<times> nat)" where
  "readMwebFlaggedTransaction lib buf start standalone =
     (let withWitness = (case field buf (start + 5) of None \<Rightarrow> False | Some f \<Rightarrow> f AND 1 = 1)
      in bind_res (skipMwebInsAndOuts buf (start + 6)) (\<lambda>(insOutsEnd, outsStart, nIns).
         bind_res (if withWitness then skipMwebWitness buf insOutsEnd nIns else Inr insOutsEnd) (\<lambda>witnessEnd.
         bind_res (lock_time_at buf witnessEnd standalone) (\<lambda>lockTimeAt.
         bind_res (skipMwebBytes buf lockTimeAt 4 ''locktime'') (\<lambda>e.
           if nIns = 0
           then bind_res (buildInputlessTransaction lib buf start outsStart lockTimeAt) (\<lambda>tx. Inr (tx, e - start))
           else bind_res (wl_tx lib False (subarray buf start (start + 4) @ (if withWitness then [0x00, 0x01] else [])
                    @ subarray buf (start + 6) witnessEnd @ subarray buf lockTimeAt e)) (\<lambda>tx. Inr (tx, e - start)))))))"

section \<open>Block bodies\<close>

definition assertBlockBodyIntact :: "'tx wire_lib \<Rightarrow> 'tx wire_block \<Rightarrow> nat \<Rightarrow> nat \<Rightarrow> bool \<Rightarrow> wire_error + unit" where
  "assertBlockBodyIntact lib block bufferLength bodyEnd extensionFollows =
     (let txs = (case wb_transactions block of None \<Rightarrow> [] | Some ts \<Rightarrow> ts)
      in if length txs < 1 then Inl (Fault ''Block holds no transactions'')
         else if bodyEnd \<noteq> bufferLength \<and> \<not> extensionFollows then Inl (Fault ''bytes after its last transaction'')
         else if wl_root lib txs \<noteq> wb_merkleRoot block then Inl (Fault ''Block merkle root mismatch'')
         else Inr ())"

text \<open>The transactions of a block, the offset after them, and whether the last was the HogEx.\<close>

fun mweb_transactions :: "'tx wire_lib \<Rightarrow> buffer \<Rightarrow> nat \<Rightarrow> nat \<Rightarrow> wire_error + ('tx list \<times> nat \<times> bool)" where
  "mweb_transactions lib buf 0 off = Inr ([], off, False)"
| "mweb_transactions lib buf (Suc k) off =
     (if k = 0 \<and> hasMwebFlag buf off
      then bind_res (readMwebFlaggedTransaction lib buf off False) (\<lambda>(tx, consumed). Inr ([tx], off + consumed, True))
      else bind_res (wl_tx lib True (drop off buf)) (\<lambda>tx.
           bind_res (mweb_transactions lib buf k (off + wl_tx_length lib tx)) (\<lambda>(txs, e, hogEx). Inr (tx # txs, e, hogEx))))"

definition readMwebTransactions :: "'tx wire_lib \<Rightarrow> cursor_buffer \<Rightarrow> wire_error + ('tx list \<times> nat \<times> bool)" where
  "readMwebTransactions lib reader =
     bind_res (readVarInt (wl_varuint lib) reader) (\<lambda>(nTransactions, r1).
       if int (length (cb_buffer r1)) - int (cb_offset r1) < int (nTransactions * 10)
       then Inl (Fault ''invalid transaction count'')
       else mweb_transactions lib (cb_buffer r1) nTransactions (cb_offset r1))"

section \<open>The decoder\<close>

datatype wire_format = Default_Format | Mweb_Format | Auxpow_Format

text \<open>The registry's full names and the wire formats of their coins.\<close>

definition coin_wire_format :: "jsstr \<Rightarrow> wire_format option" where
  "coin_wire_format coin =
     (if coin = js ''bitcoin'' then Some Default_Format
      else if coin = js ''litecoin'' then Some Mweb_Format
      else if coin = js ''dogecoin'' then Some Auxpow_Format else None)"

definition decoder_format :: "jsstr \<Rightarrow> wire_format option" where
  "decoder_format networkName = coin_wire_format (hd (split_on 45 networkName))"

definition doubleSha256AndReverse :: "'tx wire_lib \<Rightarrow> buffer \<Rightarrow> buffer" where
  "doubleSha256AndReverse lib dat = rev (wl_sha256 lib (wl_sha256 lib dat))"

definition mweb_header :: "cursor_buffer \<Rightarrow> wire_error + ('tx wire_block \<times> cursor_buffer)" where
  "mweb_header r0 =
     bind_res (readInt32 r0) (\<lambda>(version, r1).
     bind_res (readSlice 32 r1) (\<lambda>(prevHash, r2).
     bind_res (readSlice 32 r2) (\<lambda>(merkleRoot, r3).
     bind_res (readUInt32 r3) (\<lambda>(timestamp, r4).
     bind_res (readUInt32 r4) (\<lambda>(bits, r5).
     bind_res (readUInt32 r5) (\<lambda>(nonce, r6).
       Inr (\<lparr>wb_version = version, wb_prevHash = prevHash, wb_merkleRoot = merkleRoot, wb_timestamp = timestamp,
             wb_bits = bits, wb_nonce = nonce, wb_transactions = None, wb_witnessCommit = None\<rparr>, r6)))))))"

definition mweb_block :: "'tx wire_lib \<Rightarrow> buffer \<Rightarrow> wire_error + 'tx wire_block" where
  "mweb_block lib buf =
     (if length buf < 80 then Inl (Fault ''Buffer too small (< 80 bytes)'')
      else bind_res (mweb_header \<lparr>cb_buffer = buf, cb_offset = 0\<rparr>) (\<lambda>(block, r).
        if length buf = 80 then Inr block
        else (case readMwebTransactions lib r of
                Inl e \<Rightarrow> Inl (transactionParseError ''Block transaction parse failed'' e)
              | Inr (txs, bodyEnd, extensionFollows) \<Rightarrow>
                  (let block1 = block\<lparr>wb_transactions := Some txs\<rparr>
                   in bind_res (assertBlockBodyIntact lib block1 (length buf) bodyEnd extensionFollows) (\<lambda>_.
                        Inr (block1\<lparr>wb_witnessCommit := wl_commit lib block1\<rparr>))))))"

definition plain_block :: "'tx wire_lib \<Rightarrow> buffer \<Rightarrow> wire_error + 'tx wire_block" where
  "plain_block lib buf =
     (case wl_block lib buf of
        Inl e \<Rightarrow> Inl (transactionParseError ''Block transaction parse failed'' e)
      | Inr block \<Rightarrow>
          if length buf = 80 then Inr block
          else bind_res (assertBlockBodyIntact lib block (length buf) (wl_block_length lib block) False) (\<lambda>_. Inr block))"

definition blockFromBuffer :: "'tx wire_lib \<Rightarrow> wire_format \<Rightarrow> buffer \<Rightarrow> wire_error + 'tx wire_block" where
  "blockFromBuffer lib fmt buf = (if fmt = Mweb_Format then mweb_block lib buf else plain_block lib buf)"

definition blockFromHex :: "'tx wire_lib \<Rightarrow> wire_format \<Rightarrow> jsstr \<Rightarrow> wire_error + 'tx wire_block" where
  "blockFromHex lib fmt blockHex = blockFromBuffer lib fmt (hex_bytes blockHex)"

definition transaction_from_hex :: "'tx wire_lib \<Rightarrow> wire_format \<Rightarrow> jsstr \<Rightarrow> wire_error + 'tx" where
  "transaction_from_hex lib fmt txHex =
     (if txHex = [] \<or> odd (length txHex) \<or> \<not> list_all (\<lambda>u. hex_digit u \<noteq> None) txHex
      then Inl (TransactionParse ''Transaction hex must be a non-empty, even-length hexadecimal string'')
      else (let buf = hex_bytes txHex
            in if fmt = Mweb_Format \<and> hasMwebFlag buf 0
               then bind_res (readMwebFlaggedTransaction lib buf 0 True) (\<lambda>(tx, consumed).
                      if consumed \<noteq> length buf then Inl (TransactionParse ''Transaction has trailing byte(s)'') else Inr tx)
               else bind_res (wl_tx lib True buf) (\<lambda>tx.
                      if wl_tx_length lib tx \<noteq> length buf then Inl (TransactionParse ''Transaction has trailing byte(s)'') else Inr tx)))"

definition transactionFromHex :: "'tx wire_lib \<Rightarrow> wire_format \<Rightarrow> jsstr \<Rightarrow> wire_error + 'tx" where
  "transactionFromHex lib fmt txHex =
     (case transaction_from_hex lib fmt txHex of
        Inr tx \<Rightarrow> Inr tx
      | Inl e \<Rightarrow> Inl (transactionParseError ''Transaction parse failed'' e))"

section \<open>The flagged format\<close>

text \<open>Litecoin's serialization of a transaction with the MWEB flag, and the plain one of the same transaction.\<close>

record flagged_tx =
  ft_version :: buffer
  ft_witness :: "buffer list list option"
  ft_ins :: "tx_in list"
  ft_outs :: "tx_out list"
  ft_locktime :: buffer

definition ft_flag :: "flagged_tx \<Rightarrow> byte" where
  "ft_flag t = (if ft_witness t = None then 0x08 else 0x09)"

definition ft_stacks :: "flagged_tx \<Rightarrow> buffer" where
  "ft_stacks t = (case ft_witness t of None \<Rightarrow> [] | Some w \<Rightarrow> concat (map (list_bytes var_bytes) w))"

definition flagged_bytes :: "flagged_tx \<Rightarrow> buffer \<Rightarrow> buffer" where
  "flagged_bytes t part = ft_version t @ [0, ft_flag t] @ list_bytes in_bytes (ft_ins t) @ list_bytes out_bytes (ft_outs t)
     @ ft_stacks t @ part @ ft_locktime t"

definition plain_bytes :: "flagged_tx \<Rightarrow> buffer" where
  "plain_bytes t = ft_version t @ (if ft_witness t = None then [] else [0, 1]) @ list_bytes in_bytes (ft_ins t)
     @ list_bytes out_bytes (ft_outs t) @ ft_stacks t @ ft_locktime t"

definition flagged_ok :: "flagged_tx \<Rightarrow> bool" where
  "flagged_ok t \<longleftrightarrow> length (ft_version t) = 4 \<and> length (ft_locktime t) = 4 \<and> list_all in_ok (ft_ins t)
     \<and> list_all out_ok (ft_outs t) \<and> length (ft_ins t) < 2 ^ 53 \<and> length (ft_outs t) < 2 ^ 53
     \<and> (case ft_witness t of None \<Rightarrow> True | Some w \<Rightarrow> length w = length (ft_ins t) \<and> list_all stack_ok w)"

text \<open>The transaction the library is asked to make.\<close>

definition library_tx :: "'tx wire_lib \<Rightarrow> flagged_tx \<Rightarrow> wire_error + 'tx" where
  "library_tx lib t =
     (if ft_ins t = []
      then Inr (wl_make lib (signed32 (le_value (ft_version t)))
             (map (\<lambda>u. (to_script u, le_value (to_value u))) (ft_outs t)) (le_value (ft_locktime t)))
      else wl_tx lib False (plain_bytes t))"

section \<open>Walking is exact\<close>

lemma skip_stands: "stands buf off bs \<Longrightarrow> length bs = n \<Longrightarrow> skipMwebBytes buf off n what = Inr (off + n)"
  by (auto simp: skipMwebBytes_def stands_def)

lemma compact_size_exact:
  "stands buf off (compact_bytes n) \<Longrightarrow> n < 2 ^ 53 \<Longrightarrow> readMwebCompactSize buf off what = Inr (n, off + length (compact_bytes n))"
proof -
  assume st: "stands buf off (compact_bytes n)" and n: "n < 2 ^ 53"
  have tail: "stands buf (off + 1) bs" if "stands buf off (b # bs)" for b bs
    using that stands_append[of buf off "[b]" bs] by simp
  have wide: ?thesis if c: "compact_bytes n = b # le_bytes w n" "n < 256 ^ w" "\<not> unat b < 0xFD"
      "w = (if b = 0xFD then 2 else if b = 0xFE then 4 else 8)" for b w
  proof -
    have f: "field buf off = Some b" using st c(1) by (auto dest: stands_field)
    have t: "stands buf (off + 1) (le_bytes w n)" using st c(1) tail by simp
    have "int n \<le> MAX_SAFE" using n by (simp add: MAX_SAFE_def)
    then show ?thesis
      using f c(3) skip_stands[OF t length_le_bytes, of what] buf_read_bytes[OF t c(2)]
      by (simp add: readMwebCompactSize_def c(1) Let_def flip: c(4))
  qed
  consider "n < 0xFD" | "0xFD \<le> n" "n \<le> 0xFFFF" | "0xFFFF < n" "n \<le> 0xFFFFFFFF" | "0xFFFFFFFF < n" by linarith
  then show ?thesis
  proof cases
    case 1
    then have "unat (word_of_nat n :: byte) = n" by (simp add: unat_of_nat)
    moreover have "field buf off = Some (word_of_nat n)" using 1 st by (auto simp: compact_bytes_def dest: stands_field)
    ultimately show ?thesis using 1 by (simp add: readMwebCompactSize_def compact_bytes_def)
  next
    case 2 then show ?thesis by (intro wide[of "0xFD" 2]) (simp_all add: compact_bytes_def)
  next
    case 3 then show ?thesis by (intro wide[of "0xFE" 4]) (simp_all add: compact_bytes_def)
  next
    case 4 then show ?thesis using n by (intro wide[of "0xFF" 8]) (simp_all add: compact_bytes_def)
  qed
qed

lemma var_bytes_exact:
  "stands buf off (var_bytes s) \<Longrightarrow> readable s \<Longrightarrow> skipMwebVarBytes buf off what = Inr (off + length (var_bytes s))"
proof -
  assume "stands buf off (var_bytes s)" "readable s"
  then have s: "stands buf off (compact_bytes (length s))" "length s < 2 ^ 53" "stands buf (off + length (compact_bytes (length s))) s"
    by (simp_all add: var_bytes_def stands_append readable_def)
  show ?thesis
    by (simp add: skipMwebVarBytes_def compact_size_exact[OF s(1,2)] skip_stands[OF s(3) HOL.refl]) (simp add: var_bytes_def)
qed

lemma mweb_ins_exact:
  "stands buf off (concat (map in_bytes ins)) \<Longrightarrow> list_all in_ok ins
    \<Longrightarrow> skip_mweb_ins buf (length ins) off = Inr (off + length (concat (map in_bytes ins)))"
proof (induction ins arbitrary: off)
  case (Cons i ins)
  let ?v = "length (var_bytes (ti_script i))"
  from Cons.prems(2) have i: "length (ti_prevout i) = 36" "readable (ti_script i)" "length (ti_sequence i) = 4"
    "list_all in_ok ins" by (auto simp: in_ok_def[of i])
  from Cons.prems(1) i have st: "stands buf off (ti_prevout i)" "stands buf (off + 36) (var_bytes (ti_script i))"
    "stands buf (off + 36 + ?v) (ti_sequence i)" "stands buf (off + 36 + ?v + 4) (concat (map in_bytes ins))"
    by (simp_all add: in_bytes_def[of i] stands_append add.assoc)
  show ?case
    using Cons.IH[OF st(4) i(4)]
    by (simp add: skip_stands[OF st(1) i(1)] var_bytes_exact[OF st(2) i(2)] skip_stands[OF st(3) i(3)])
      (simp add: in_bytes_def[of i] i)
qed simp

lemma mweb_outs_exact:
  "stands buf off (concat (map out_bytes outs)) \<Longrightarrow> list_all out_ok outs
    \<Longrightarrow> skip_mweb_outs buf (length outs) off = Inr (off + length (concat (map out_bytes outs)))
      \<and> inputless_outs buf (length outs) off = Inr (map (\<lambda>u. (to_script u, le_value (to_value u))) outs)"
proof (induction outs arbitrary: off)
  case (Cons t outs)
  let ?c = "length (compact_bytes (length (to_script t)))"
  from Cons.prems(2) have t: "length (to_value t) = 8" "readable (to_script t)" "length (to_script t) < 2 ^ 53" "list_all out_ok outs"
    by (auto simp: out_ok_def[of t] readable_def)
  from Cons.prems(1) t have st: "stands buf off (to_value t)" "stands buf (off + 8) (var_bytes (to_script t))"
    "stands buf (off + 8) (compact_bytes (length (to_script t)))" "stands buf (off + 8 + ?c) (to_script t)"
    "stands buf (off + 8 + ?c + length (to_script t)) (concat (map out_bytes outs))"
    by (simp_all add: out_bytes_def[of t] var_bytes_def[of "to_script t"] stands_append add.assoc)
  have len: "length (var_bytes (to_script t)) = ?c + length (to_script t)" by (simp add: var_bytes_def)
  have script: "take (length (to_script t)) (drop (off + 8 + ?c) buf) = to_script t" using st(4) by (simp add: stands_def)
  show ?case
    using Cons.IH[OF st(5) t(4)] script
    by (simp add: skip_stands[OF st(1) t(1)] var_bytes_exact[OF st(2) t(2)] buf_read_stands[OF st(1) t(1)]
        compact_size_exact[OF st(3) t(3)] len add.assoc)
      (simp add: out_bytes_def[of t] len t)
qed simp

lemma mweb_items_exact:
  "stands buf off (concat (map var_bytes st)) \<Longrightarrow> list_all readable st
    \<Longrightarrow> skip_mweb_items buf (length st) off = Inr (off + length (concat (map var_bytes st)))"
proof (induction st arbitrary: off)
  case (Cons s st)
  from Cons.prems have s: "stands buf off (var_bytes s)" "readable s" "list_all readable st"
    "stands buf (off + length (var_bytes s)) (concat (map var_bytes st))" by (simp_all add: stands_append)
  show ?case using Cons.IH[OF s(4,3)] by (simp add: var_bytes_exact[OF s(1,2)])
qed simp

lemma mweb_witness_exact:
  "stands buf off (concat (map (list_bytes var_bytes) w)) \<Longrightarrow> list_all stack_ok w
    \<Longrightarrow> skipMwebWitness buf off (length w) = Inr (off + length (concat (map (list_bytes var_bytes) w)))"
proof (induction w arbitrary: off)
  case (Cons st w)
  let ?c = "length (compact_bytes (length st))" and ?m = "length (concat (map var_bytes st))"
  from Cons.prems have s: "length st < 2 ^ 53" "list_all readable st" "list_all stack_ok w"
    "stands buf off (compact_bytes (length st))" "stands buf (off + ?c) (concat (map var_bytes st))"
    "stands buf (off + ?c + ?m) (concat (map (list_bytes var_bytes) w))"
    by (simp_all add: stack_ok_def[of st] list_bytes_def[of var_bytes st] stands_append add.assoc del: length_concat)
  show ?case
    using Cons.IH[OF s(6,3)]
    by (simp add: compact_size_exact[OF s(4,1)] mweb_items_exact[OF s(5,2)] del: length_concat)
      (simp add: list_bytes_def[of var_bytes st])
qed simp

lemma list_exact:
  "stands buf off (list_bytes f xs) \<Longrightarrow> length xs < 2 ^ 53
    \<Longrightarrow> readMwebCompactSize buf off what = Inr (length xs, off + length (compact_bytes (length xs)))
      \<and> stands buf (off + length (compact_bytes (length xs))) (concat (map f xs))"
  by (simp add: list_bytes_def stands_append compact_size_exact)

text \<open>
  The whole walk.  The part is null inside a block; in a transaction that stands alone it may be any
  body, which then runs up to the last four bytes.
\<close>

lemma flagged_exact:
  assumes st: "stands buf start (flagged_bytes t part)" and ok: "flagged_ok t"
    and part: "part = [0] \<or> standalone \<and> part \<noteq> [] \<and> hd part \<noteq> 0 \<and> start + length (flagged_bytes t part) = length buf"
  shows "readMwebFlaggedTransaction lib buf start standalone
    = bind_res (library_tx lib t) (\<lambda>tx. Inr (tx, length (flagged_bytes t part)))"
proof -
  define li lo w where "li = list_bytes in_bytes (ft_ins t)" and "lo = list_bytes out_bytes (ft_outs t)" and "w = ft_stacks t"
  define mk where "mk = [0, ft_flag t]"
  have bytes: "flagged_bytes t part = ft_version t @ mk @ li @ lo @ w @ part @ ft_locktime t" "length mk = 2"
    by (simp_all add: flagged_bytes_def li_def lo_def w_def mk_def)
  from ok have len: "length (ft_version t) = 4" "length (ft_locktime t) = 4" "list_all in_ok (ft_ins t)"
    "list_all out_ok (ft_outs t)" "length (ft_ins t) < 2 ^ 53" "length (ft_outs t) < 2 ^ 53" by (auto simp: flagged_ok_def)
  define p where "p = start + 6"
  from st have s: "stands buf start (ft_version t)" "stands buf (start + 4) mk" "stands buf p li"
    "stands buf (p + length li) lo" "stands buf (p + length li + length lo) w"
    "stands buf (p + length li + length lo + length w) part"
    "stands buf (p + length li + length lo + length w + length part) (ft_locktime t)"
    unfolding bytes(1) by (simp_all add: stands_append len bytes(2) p_def ac_simps)
  define we lt where "we = p + length li + length lo + length w" and "lt = we + length part"
  have "stands buf (start + 5) [ft_flag t]" using s(2) stands_append[of buf "start + 4" "[0]" "[ft_flag t]"] by (simp add: mk_def add.commute)
  then have flag: "(case field buf (start + 5) of None \<Rightarrow> False | Some f \<Rightarrow> f AND 1 = 1) \<longleftrightarrow> ft_witness t \<noteq> None"
    by (cases "ft_witness t") (auto dest!: stands_field simp: ft_flag_def)
  define ci co where "ci = length (compact_bytes (length (ft_ins t)))" and "co = length (compact_bytes (length (ft_outs t)))"
  note ins = list_exact[OF s(3)[unfolded li_def] len(5)] and outs = list_exact[OF s(4)[unfolded lo_def] len(6)]
  have li: "length li = ci + length (concat (map in_bytes (ft_ins t)))"
    and lo: "length lo = co + length (concat (map out_bytes (ft_outs t)))"
    by (simp_all add: li_def lo_def list_bytes_def ci_def co_def)
  have walk: "skipMwebInsAndOuts buf p = Inr (p + length li + length lo, p + length li, length (ft_ins t))"
    using ins outs mweb_ins_exact[of buf "p + ci" "ft_ins t", OF _ len(3)]
      mweb_outs_exact[of buf "p + length li + co" "ft_outs t", OF _ len(4)]
    by (simp add: skipMwebInsAndOuts_def li lo ci_def[symmetric] co_def[symmetric] add.assoc flip: li_def del: length_concat)
  have wit: "(if ft_witness t \<noteq> None then skipMwebWitness buf (p + length li + length lo) (length (ft_ins t))
      else Inr (p + length li + length lo)) = Inr we"
  proof (cases "ft_witness t")
    case None then show ?thesis by (simp add: we_def w_def ft_stacks_def)
  next
    case (Some ws)
    then have "length ws = length (ft_ins t)" "list_all stack_ok ws" using ok by (auto simp: flagged_ok_def)
    with Some mweb_witness_exact[of buf "p + length li + length lo" ws] s(5) show ?thesis
      by (simp add: we_def w_def ft_stacks_def del: length_concat)
  qed
  have ends: "lt + 4 = start + length (flagged_bytes t part)" by (simp add: bytes len lt_def we_def p_def)
  obtain b bs where pb: "part = b # bs" using part by (cases part) auto
  have one: "skipMwebBytes buf we (Suc 0) ''MWEB tag'' = Inr (Suc we)"
    using stands_inside[OF s(6)] by (simp add: skipMwebBytes_def pb flip: we_def)
  have tag: "field buf we = Some b" using s(6) by (auto simp: pb we_def dest: stands_field)
  have lock: "lock_time_at buf we standalone = Inr lt"
  proof (cases "b = 0")
    case True
    with part pb have "part = [0]" by auto
    with True show ?thesis by (simp add: lock_time_at_def one tag lt_def)
  next
    case False
    with part pb have "standalone" "start + length (flagged_bytes t part) = length buf" by auto
    with ends have "standalone" "length buf = lt + 4" by simp_all
    with False show ?thesis by (simp add: lock_time_at_def one tag lt_def pb)
  qed
  have lt: "stands buf lt (ft_locktime t)" using s(7) by (simp add: lt_def we_def)
  have e: "skipMwebBytes buf lt 4 ''locktime'' = Inr (lt + 4)" by (rule skip_stands[OF lt len(2)])
  have consumed: "lt + 4 - start = length (flagged_bytes t part)" using ends by simp
  have sub: "subarray buf start (start + 4) = ft_version t" "subarray buf p we = li @ lo @ w" "subarray buf lt (lt + 4) = ft_locktime t"
  proof -
    have "stands buf p (li @ lo @ w)" using s(3-5) by (simp add: stands_append add.assoc)
    then show "subarray buf p we = li @ lo @ w" by (simp add: subarray_def stands_def we_def add.assoc)
  qed (use s(1) lt len in \<open>simp_all add: subarray_def stands_def\<close>)
  have make: "buildInputlessTransaction lib buf start (p + length li) lt = library_tx lib t" if "ft_ins t = []"
    using that outs mweb_outs_exact[of buf "p + length li + co" "ft_outs t", OF _ len(4)]
      buf_read_stands[OF s(1) len(1)] buf_read_stands[OF lt len(2)]
    by (simp add: buildInputlessTransaction_def library_tx_def co_def[symmetric])
  have plain: "plain_bytes t = ft_version t @ (if ft_witness t \<noteq> None then [0, 1] else []) @ (li @ lo @ w) @ ft_locktime t"
    by (simp add: plain_bytes_def li_def lo_def w_def)
  have "readMwebFlaggedTransaction lib buf start standalone
      = (if length (ft_ins t) = 0
         then bind_res (buildInputlessTransaction lib buf start (p + length li) lt) (\<lambda>tx. Inr (tx, lt + 4 - start))
         else bind_res (wl_tx lib False (subarray buf start (start + 4) @ (if ft_witness t \<noteq> None then [0x00, 0x01] else [])
           @ subarray buf p we @ subarray buf lt (lt + 4))) (\<lambda>tx. Inr (tx, lt + 4 - start)))"
    by (simp only: readMwebFlaggedTransaction_def Let_def p_def[symmetric] flag walk wit lock e bind_res.simps prod.case)
  then show ?thesis
    using make plain by (auto simp: sub consumed library_tx_def)
qed

section \<open>A block split at its transactions\<close>

definition lib_reads :: "'tx wire_lib \<Rightarrow> buffer \<Rightarrow> 'tx \<Rightarrow> bool" where
  "lib_reads lib b t \<longleftrightarrow> 10 \<le> length b \<and> (\<forall>rest. wl_tx lib True (b @ rest) = Inr t) \<and> wl_tx_length lib t = length b"

text \<open>The HogEx: flagged, with a null part, and of version 1 or 2.\<close>

definition hogex :: "flagged_tx \<Rightarrow> bool" where
  "hogex t \<longleftrightarrow> flagged_ok t \<and> le_value (ft_version t) \<in> {1, 2}"

lemma stands_drop: "stands buf off bs \<Longrightarrow> \<exists>rest. drop off buf = bs @ rest"
  by (auto simp: stands_split)

lemma hogex_flag: "stands buf off (flagged_bytes t part) \<Longrightarrow> hogex t \<Longrightarrow> hasMwebFlag buf off"
proof -
  assume st: "stands buf off (flagged_bytes t part)" and t: "hogex t"
  then have len: "length (ft_version t) = 4" "length (ft_locktime t) = 4" by (auto simp: hogex_def flagged_ok_def)
  have "6 \<le> length (flagged_bytes t part)" by (simp add: flagged_bytes_def len)
  then have "off + 6 \<le> length buf" using stands_inside[OF st] by simp
  moreover define z f where "z = [0 :: byte]" and "f = [ft_flag t]"
  have bytes: "\<exists>rest. flagged_bytes t part = ft_version t @ z @ f @ rest" "length z = 1"
    by (simp_all add: flagged_bytes_def z_def f_def)
  from bytes(1) st have s: "stands buf off (ft_version t)" "stands buf (off + 4) z" "stands buf (off + 5) f"
    by (auto simp: stands_append len bytes(2) add.commute)
  then have "field buf (off + 4) = Some 0" "field buf (off + 5) = Some (ft_flag t)"
    unfolding z_def f_def by (auto dest: stands_field)
  ultimately have "off + 6 \<le> length buf" "buf ! (off + 4) = 0" "buf ! (off + 5) = ft_flag t"
    by (auto simp: field_def split: if_splits)
  moreover have "le_value (take 4 (drop off buf)) = 1 \<or> le_value (take 4 (drop off buf)) = 2"
    using s(1) t len(1) by (auto simp: stands_def hogex_def)
  moreover have "ft_flag t = LITECOIN_HOGEX_FLAG \<or> ft_flag t = LITECOIN_MWEB_SEGWIT_FLAG"
    by (simp add: ft_flag_def LITECOIN_HOGEX_FLAG_def LITECOIN_MWEB_SEGWIT_FLAG_def)
  ultimately show ?thesis by (simp add: hasMwebFlag_def Let_def)
qed

lemma transactions_split:
  "list_all2 (lib_reads lib) bs ts \<Longrightarrow> stands buf off (concat bs @ flagged_bytes t [0]) \<Longrightarrow> hogex t
    \<Longrightarrow> library_tx lib t = Inr h
    \<Longrightarrow> mweb_transactions lib buf (Suc (length bs)) off = Inr (ts @ [h], off + length (concat bs @ flagged_bytes t [0]), True)"
proof (induction bs ts arbitrary: off rule: list_all2_induct)
  case Nil
  then have "hasMwebFlag buf off" using hogex_flag by simp
  with Nil show ?case using flagged_exact[of buf off t "[0]" False lib] by (simp add: hogex_def)
next
  case (Cons b bs x ts)
  then have st: "stands buf off b" "stands buf (off + length b) (concat bs @ flagged_bytes t [0])"
    by (simp_all only: concat.simps append.assoc stands_append)
  obtain rest where rest: "drop off buf = b @ rest" using stands_drop[OF st(1)] by blast
  have "mweb_transactions lib buf (Suc (Suc (length bs))) off
      = bind_res (mweb_transactions lib buf (Suc (length bs)) (off + length b)) (\<lambda>(txs, e, hogEx). Inr (x # txs, e, hogEx))"
    using Cons(1) rest by (subst mweb_transactions.simps(2)) (simp add: lib_reads_def del: mweb_transactions.simps)
  with Cons.IH[OF st(2) Cons.prems(2,3)] show ?case by (simp del: mweb_transactions.simps)
qed

lemma varint_stands:
  assumes "varuint_codec vu" "vu_encode vu n = Inr nb" "stands buf off nb"
  shows "readVarInt vu \<lparr>cb_buffer = buf, cb_offset = off\<rparr> = Inr (n, \<lparr>cb_buffer = buf, cb_offset = off + length nb\<rparr>)"
  using varuint_codec.decode_encode[OF assms(1-3)] by (simp add: readVarInt_def moved_def)

lemma mweb_header_read:
  assumes "80 \<le> length buf"
  shows "\<exists>block. mweb_header \<lparr>cb_buffer = buf, cb_offset = 0\<rparr> = Inr (block, \<lparr>cb_buffer = buf, cb_offset = 80\<rparr>)
    \<and> wb_prevHash block = take 32 (drop 4 buf) \<and> wb_merkleRoot block = take 32 (drop 36 buf)"
  using assms
  by (simp add: mweb_header_def readInt32_def readSlice_def readUInt32_def buf_read_def moved_def)

lemma mweb_block_split:
  fixes lib :: "'tx wire_lib"
  assumes lib: "list_all2 (lib_reads lib) bs ts" "hogex t" "library_tx lib t = Inr h"
      "varuint_codec (wl_varuint lib)" "vu_encode (wl_varuint lib) (Suc (length bs)) = Inr nb"
    and root: "length hdr = 80" "wl_root lib (ts @ [h]) = take 32 (drop 36 hdr)"
  shows "\<exists>block. mweb_block lib (hdr @ nb @ concat bs @ flagged_bytes t [0] @ ext) = Inr block
    \<and> wb_transactions block = Some (ts @ [h]) \<and> wb_prevHash block = take 32 (drop 4 hdr)"
proof -
  let ?body = "concat bs @ flagged_bytes t [0]"
  let ?buf = "hdr @ nb @ ?body @ ext"
  have assoc: "hdr @ nb @ concat bs @ flagged_bytes t [0] @ ext = ?buf" by simp
  obtain block :: "'tx wire_block" where b: "mweb_header \<lparr>cb_buffer = ?buf, cb_offset = 0\<rparr> = Inr (block, \<lparr>cb_buffer = ?buf, cb_offset = 80\<rparr>)"
    "wb_prevHash block = take 32 (drop 4 hdr)" "wb_merkleRoot block = take 32 (drop 36 hdr)"
    using mweb_header_read[of ?buf] root(1) by auto
  have "stands ?buf 80 nb" using stands_middle[of hdr nb "?body @ ext"] root(1) by simp
  note n = varint_stands[OF lib(4,5) this]
  have st: "stands ?buf (80 + length nb) ?body" using stands_middle[of "hdr @ nb" ?body ext] root(1) by simp
  note txs = transactions_split[OF lib(1) st lib(2,3)]
  have "10 \<le> length (flagged_bytes t [0])"
    using lib(2) by (simp add: hogex_def flagged_ok_def flagged_bytes_def)
  moreover have "10 * length bs \<le> length (concat bs)"
    using lib(1) by (induction rule: list_all2_induct) (auto simp: lib_reads_def)
  ultimately have "10 * Suc (length bs) \<le> length (?body @ ext)" by (simp del: length_concat)
  then have read: "readMwebTransactions lib \<lparr>cb_buffer = ?buf, cb_offset = 80\<rparr>
      = Inr (ts @ [h], 80 + length nb + length ?body, True)"
    using root(1) by (simp only: readMwebTransactions_def n bind_res.simps prod.case cursor_buffer.simps txs)
      (simp del: length_concat mweb_transactions.simps)
  have "length ?buf = 80 + length nb + length (concat bs) + length (flagged_bytes t [0]) + length ext" using root(1) by simp
  with \<open>10 \<le> length (flagged_bytes t [0])\<close> have big: "80 < length ?buf" by linarith
  show ?thesis
    unfolding assoc using big read b root(2)
    by (simp add: mweb_block_def assertBlockBodyIntact_def Let_def del: length_append)
qed

text \<open>A body that was accepted is the one its header commits to.\<close>

lemma accepted_body:
  fixes lib :: "'tx wire_lib"
  assumes "blockFromBuffer lib fmt buf = Inr block" "length buf \<noteq> 80"
  shows "\<exists>txs. wb_transactions block = Some txs \<and> txs \<noteq> [] \<and> wl_root lib txs = wb_merkleRoot block"
proof -
  have body: "\<exists>txs. wb_transactions b = Some txs \<and> txs \<noteq> [] \<and> wl_root lib txs = wb_merkleRoot b"
    if "assertBlockBodyIntact lib b n e x = Inr ()" for b n e x
    using that by (auto simp: assertBlockBodyIntact_def Let_def split: if_splits option.splits)
  show ?thesis
  proof (cases "fmt = Mweb_Format")
    case True
    with assms have m: "mweb_block lib buf = Inr block" by (simp add: blockFromBuffer_def)
    with assms(2) obtain b r where h: "mweb_header \<lparr>cb_buffer = buf, cb_offset = 0\<rparr> = Inr (b :: 'tx wire_block, r)"
      by (auto simp: mweb_block_def bind_res_Inr_iff split: if_splits)
    with m assms(2) obtain txs e x where "readMwebTransactions lib r = Inr (txs, e, x)"
      by (cases "readMwebTransactions lib r") (auto simp: mweb_block_def split: if_splits)
    with m h assms(2) have *: "assertBlockBodyIntact lib (b\<lparr>wb_transactions := Some txs\<rparr>) (length buf) e x = Inr ()"
      "block = b\<lparr>wb_transactions := Some txs, wb_witnessCommit := wl_commit lib (b\<lparr>wb_transactions := Some txs\<rparr>)\<rparr>"
      by (auto simp: mweb_block_def Let_def bind_res_Inr_iff split: if_splits)
    from body[OF *(1)] *(2) show ?thesis by simp
  next
    case False
    with assms have "plain_block lib buf = Inr block" by (simp add: blockFromBuffer_def)
    with assms(2) obtain e where "assertBlockBodyIntact lib block (length buf) e False = Inr ()"
      by (auto simp: plain_block_def bind_res_Inr_iff split: if_splits sum.splits)
    from body[OF this] show ?thesis .
  qed
qed

text \<open>Errors of \<open>transactionFromHex\<close> are of one class.\<close>

lemma transaction_errors: "transactionFromHex lib fmt txHex = Inl e \<Longrightarrow> \<exists>m. e = TransactionParse m"
  by (auto simp: transactionFromHex_def transactionParseError_def split: sum.splits wire_error.splits)

text \<open>A transaction that stands alone in the flagged format reads as its plain form.\<close>

lemma standalone_exact:
  assumes t: "hogex t" "part = [0] \<or> part \<noteq> [] \<and> hd part \<noteq> 0" and lib: "library_tx lib t = Inr x"
  shows "transactionFromHex lib Mweb_Format (uint8ArrayToHex (flagged_bytes t part)) = Inr x"
proof -
  let ?b = "flagged_bytes t part"
  have "?b \<noteq> []" using t(1) by (auto simp: flagged_bytes_def)
  then have hex: "uint8ArrayToHex ?b \<noteq> []" by (cases ?b) (simp_all add: uint8ArrayToHex_Cons)
  have digits: "list_all (\<lambda>u. hex_digit u \<noteq> None) (uint8ArrayToHex b)" for b
    by (induction b) (simp_all add: uint8ArrayToHex_Cons byte_nibbles)
  have "readMwebFlaggedTransaction lib ?b 0 True = Inr (x, length ?b)"
    using flagged_exact[of ?b 0 t part True lib] t lib by (simp add: hogex_def)
  moreover have "hasMwebFlag ?b 0" using hogex_flag[OF stands_self t(1)] .
  ultimately have "transaction_from_hex lib Mweb_Format (uint8ArrayToHex ?b) = Inr x"
    using hex digits[of ?b] by (simp add: transaction_from_hex_def Let_def)
  then show ?thesis by (simp add: transactionFromHex_def)
qed

end
