(* ===== verification/Wire_Properties.thy ===== *)
theory Wire_Properties
  imports Block_Queries Block_Decoder
begin

text \<open>
  Properties of the wire format and of the node connector, each with an example.
\<close>

section \<open>Merge-mined blocks\<close>

text \<open>
  C14.  A merge-mined block is fetched the same either way: where the node holds a block of a header, a
  well-formed proof of any shape and transactions, both cutting the proof out of its bytes (with the
  header alone or with a header that carries the proof) and putting it together from its transactions
  give the header, the number of transactions and the transactions, byte for byte.
\<close>

theorem auxpow_block_same_either_way:
  assumes "length h = 80" "aux_pow_ok a" "length txs \<le> 0xFFFFFFFF" "list_all (\<lambda>b. b \<noteq> []) txs"
    and "assertWholeBlock lib (uint8ArrayToHex (h @ compact_bytes (length txs) @ concat txs)) = Inr ()"
    and "hdr = h \<and> odd (unat (h ! 1)) \<or> hdr = h @ aux_pow_bytes a"
    and "gives env (GetBlockHeader hash False) (TextValue (uint8ArrayToHex hdr))"
    and "gives env (GetBlock hash False)
      (TextValue (uint8ArrayToHex (h @ aux_pow_bytes a @ compact_bytes (length txs) @ concat txs)))"
    and "gives env (GetBlock hash True) (VerboseBlock (Some ids))"
    and "list_all2 (\<lambda>t b. gives env (GetRawTransaction t) (TextValue (uint8ArrayToHex b))) ids txs"
  shows "fst (getBlockWithoutAuxPow env lib hash c) = Inr (uint8ArrayToHex (h @ compact_bytes (length txs) @ concat txs))
    \<and> fst (getBlockReassembled env setting hash c') = Inr (uint8ArrayToHex (h @ compact_bytes (length txs) @ concat txs))"
  using two_ways[OF assms] by blast

definition mined_tx :: parent_tx where
  "mined_tx = \<lparr>pt_version = [1, 0, 0, 0], pt_witness = Some (1, [[[7, 7]]]),
     pt_ins = [\<lparr>ti_prevout = replicate 36 0, ti_script = [3, 2, 1], ti_sequence = replicate 4 255\<rparr>],
     pt_outs = [\<lparr>to_value = replicate 8 5, to_script = [106]\<rparr>], pt_locktime = replicate 4 0\<rparr>"

definition mined_proof :: aux_pow where
  "mined_proof = \<lparr>ap_coinbase = mined_tx, ap_parent_hash = replicate 32 9, ap_branch = [replicate 32 8, replicate 32 4],
     ap_branch_index = replicate 4 0, ap_chain = [], ap_chain_index = replicate 4 0, ap_header = replicate 80 6\<rparr>"

definition mined_header :: buffer where
  "mined_header = [4, 1] @ replicate 78 0"

definition mined_lib :: "nat wire_lib" where
  "mined_lib = \<lparr>wl_block = (\<lambda>_. Inr \<lparr>wb_version = 260, wb_prevHash = [], wb_merkleRoot = replicate 32 0, wb_timestamp = 0,
       wb_bits = 0, wb_nonce = 0, wb_transactions = Some [1, 2], wb_witnessCommit = None\<rparr>),
     wl_block_length = (\<lambda>_. 86), wl_tx = (\<lambda>_ _. Inr 1), wl_tx_length = (\<lambda>_. 10), wl_make = (\<lambda>_ _ _. 2),
     wl_root = (\<lambda>_. replicate 32 0), wl_commit = (\<lambda>_. None), wl_varuint = compact_codec, wl_sha256 = (\<lambda>b. b)\<rparr>"

definition mined_node :: node_env where
  "mined_node = \<lparr>re_answer = (\<lambda>_ _ q. Answered (Body None (Some (case q of
       GetBlockHeader _ _ \<Rightarrow> TextValue (uint8ArrayToHex mined_header)
     | GetBlock _ v \<Rightarrow> if v then VerboseBlock (Some [js ''t1'', js ''t2''])
         else TextValue (uint8ArrayToHex (mined_header @ aux_pow_bytes mined_proof @ compact_bytes 2 @ [1, 2, 3, 4, 5]))
     | GetRawTransaction t \<Rightarrow> TextValue (uint8ArrayToHex (if t = js ''t1'' then [1, 2] else [3, 4, 5]))
     | _ \<Rightarrow> OtherValue True)))), re_clock = (\<lambda>_. 0)\<rparr>"

definition two_endpoints :: connector where
  "two_endpoints = \<lparr>co_endpoints = [js ''http://a:1'', js ''http://b:1''], co_active = 0, co_failures = 1, co_threshold = 3,
     co_rpcErrors = 0, co_startedAt = 0, co_lastOk = 0, co_lastFail = 0, co_posts = 0\<rparr>"

lemma mined_ok: "aux_pow_ok mined_proof"
  by (simp add: aux_pow_ok_def mined_proof_def branch_ok_def parent_tx_ok_def mined_tx_def in_ok_def out_ok_def readable_def stack_ok_def)

lemma mined_node_gives:
  "gives mined_node (GetBlockHeader b False) (TextValue (uint8ArrayToHex mined_header))"
  "gives mined_node (GetBlock b False) (TextValue (uint8ArrayToHex (mined_header @ aux_pow_bytes mined_proof @ compact_bytes 2 @ [1, 2, 3, 4, 5])))"
  "gives mined_node (GetBlock b True) (VerboseBlock (Some [js ''t1'', js ''t2'']))"
  "gives mined_node (GetRawTransaction (js ''t1'')) (TextValue (uint8ArrayToHex [1, 2]))"
  "gives mined_node (GetRawTransaction (js ''t2'')) (TextValue (uint8ArrayToHex [3, 4, 5]))"
  by (simp_all add: gives_def mined_node_def)

theorem auxpow_block_same_either_way_witness:
  "fst (getBlockWithoutAuxPow mined_node mined_lib [] two_endpoints) = Inr (uint8ArrayToHex (mined_header @ [2] @ [1, 2, 3, 4, 5]))
    \<and> fst (getBlockReassembled mined_node None [] two_endpoints) = Inr (uint8ArrayToHex (mined_header @ [2] @ [1, 2, 3, 4, 5]))"
proof -
  have two: "compact_bytes 2 = [2]" "compact_bytes (Suc (Suc 0)) = [2]" by (simp_all add: compact_bytes_def)
  have "assertWholeBlock mined_lib (uint8ArrayToHex (mined_header @ compact_bytes (length [[1, 2], [3, 4, 5 :: byte]]) @ concat [[1, 2], [3, 4, 5]])) = Inr ()"
    by (simp add: two assertWholeBlock_def mined_lib_def mined_header_def Let_def)
  moreover have "length mined_header = 80" "odd (unat (mined_header ! 1))" by (simp_all add: mined_header_def)
  ultimately show ?thesis
    using auxpow_block_same_either_way[of mined_header mined_proof "[[1, 2], [3, 4, 5]]" mined_lib mined_header mined_node "[]"
        "[js ''t1'', js ''t2'']" two_endpoints None two_endpoints] mined_ok mined_node_gives
    by (simp add: two)
qed

section \<open>Litecoin blocks\<close>

text \<open>
  C15.  A Litecoin block is split at its transactions: a block of a header, transactions that the library
  reads, the flagged HogEx and any extension after it decodes to those transactions in their order, the
  HogEx in its plain form last, and to the parent hash of the header, where the header's root is that of
  these transactions.
\<close>

theorem litecoin_block_split_exactly:
  assumes "list_all2 (lib_reads lib) bs ts" "hogex t" "library_tx lib t = Inr x"
    and "varuint_codec (wl_varuint lib)" "vu_encode (wl_varuint lib) (Suc (length bs)) = Inr nb"
    and "length hdr = 80" "wl_root lib (ts @ [x]) = take 32 (drop 36 hdr)"
  shows "\<exists>block. blockFromHex lib Mweb_Format (uint8ArrayToHex (hdr @ nb @ concat bs @ flagged_bytes t [0] @ ext)) = Inr block
    \<and> wb_transactions block = Some (ts @ [x]) \<and> wb_prevHash block = take 32 (drop 4 hdr)"
  using mweb_block_split[OF assms] by (simp add: blockFromHex_def blockFromBuffer_def)

definition sample_hogex :: flagged_tx where
  "sample_hogex = \<lparr>ft_version = [2, 0, 0, 0], ft_witness = Some [[[1, 2], []]],
     ft_ins = [\<lparr>ti_prevout = replicate 36 3, ti_script = [], ti_sequence = replicate 4 255\<rparr>],
     ft_outs = [\<lparr>to_value = [1, 0, 0, 0, 0, 0, 0, 0], to_script = [88, 8]\<rparr>], ft_locktime = replicate 4 0\<rparr>"

lemma sample_hogex_ok: "hogex sample_hogex" "library_tx mined_lib sample_hogex = Inr 1"
  by (simp_all add: hogex_def flagged_ok_def sample_hogex_def in_ok_def out_ok_def readable_def stack_ok_def le_value_def
      library_tx_def mined_lib_def)

theorem litecoin_block_split_exactly_witness:
  "\<exists>block. blockFromHex mined_lib Mweb_Format (uint8ArrayToHex (replicate 80 0 @ [2] @ concat [replicate 10 1]
      @ flagged_bytes sample_hogex [0] @ [5, 5, 5])) = Inr block
    \<and> wb_transactions block = Some ([1] @ [1]) \<and> wb_prevHash block = replicate 32 0"
proof -
  have "list_all2 (lib_reads mined_lib) [replicate 10 1] [1]" by (simp add: lib_reads_def mined_lib_def)
  moreover have "varuint_codec (wl_varuint mined_lib)" using compact.varuint_codec_axioms by (simp add: mined_lib_def)
  moreover have "vu_encode (wl_varuint mined_lib) (Suc (length [replicate 10 (1 :: byte)])) = Inr [2]"
    by (simp add: mined_lib_def compact_codec_def compact_bytes_def)
  ultimately show ?thesis
    using litecoin_block_split_exactly[of mined_lib "[replicate 10 1]" "[1]" sample_hogex 1 "[2]" "replicate 80 0" "[5, 5, 5]"] sample_hogex_ok
    by (simp add: mined_lib_def)
qed

text \<open>
  C16.  A flagged transaction that stands alone reads as its plain form, whatever MWEB part it carries:
  the part is left out and the witness, where a carrier keeps its payload, is kept.
\<close>

theorem flagged_transaction_reads_plain:
  assumes "hogex t" "part = [0] \<or> part \<noteq> [] \<and> hd part \<noteq> 0" "ft_ins t \<noteq> []" "wl_tx lib False (plain_bytes t) = Inr x"
  shows "transactionFromHex lib Mweb_Format (uint8ArrayToHex (flagged_bytes t part)) = Inr x"
  using standalone_exact[OF assms(1,2), of lib x] assms(3,4) by (simp add: library_tx_def)

theorem flagged_transaction_reads_plain_witness:
  "transactionFromHex mined_lib Mweb_Format (uint8ArrayToHex (flagged_bytes sample_hogex [1, 9, 9, 9])) = Inr 1"
  using flagged_transaction_reads_plain[of sample_hogex "[1, 9, 9, 9]" mined_lib 1] sample_hogex_ok(1)
  by (simp add: mined_lib_def sample_hogex_def)

section \<open>The connector\<close>




text \<open>
  C18.  A call to the node is bounded and accounted for: on either retry ladder it posts at most ten
  times, and it counts one error exactly when it throws, whatever the node answers.
\<close>

theorem rpc_calls_bounded_and_counted:
  "accounted 10 (fst (rpcCallWithTimeoutRetry env q c)) c (snd (rpcCallWithTimeoutRetry env q c))
    \<and> accounted 10 (fst (getRawTransaction env' t c)) c (snd (getRawTransaction env' t c))"
  using timeout_retries_accounted[of env q 10 None c] raw_retries_accounted[of env' "GetRawTransaction t" 10 None c]
  by (simp add: rpcCallWithTimeoutRetry_def getRawTransaction_def runRawTransactionRetries_def)

end
