(* ===== verification/Spec2Isabelle.thy ===== *)
theory Spec2Isabelle
  imports Sync_Properties Wire_Properties
begin

text \<open>
  A verification library for the XChain decoder, the service that follows a Bitcoin-like chain, finds
  the XChain actions carried by its transactions and keeps them, with the dispensers they open, in a
  database that other services read.  All paths below are under \<open>src/src\<close>.

  \<^bold>\<open>How the program works.\<close>  The block loop asks the node for the next block, checks that it extends the
  last stored one, and stores it in one database transaction: the block row, each transaction that
  carries an action (parsed from its scripts and witnesses, its source found by walking back to the
  output it spends), the outputs the action's recipients will look for, the dispensers it opens or
  extends, and the expiry of dispensers.  A fault rolls the block back and the loop tries it again; a
  transaction that fails every time is quarantined.  When the node no longer has a stored block the
  blocks above the fork are deleted newest first, each with an undo of what it overwrote.

  \<^bold>\<open>The theories, in the order they build on each other.\<close>
  \<^item> \<open>Decoder_Prelude\<close>: bytes, JavaScript strings as lists of code units, list and option lemmas.
    \<open>Js_Text\<close> models the two \<open>TextDecoder\<close>s over UTF-8 and UTF-16, \<open>Js_Number\<close> the decimal grammar and the
    rounding of \<open>Number()\<close>; they stand for the language, not for files of the repository.
  \<^item> \<open>Activation\<close> (\<open>protocol/constants/*.js\<close> and the gate modules): the flag-day tables as lists and one
    gate function each.  Its locale \<open>activation_gate\<close> is interpreted on every gate.
  \<^item> \<open>Payload\<close> (\<open>XChainDecoder/payload_helpers.js\<close>): action names, aliases, the canonical payload.
  \<^item> \<open>Protocol_Time\<close> (\<open>protocol/protocol_time.js\<close>, \<open>dispenser_cancel_grace.js\<close>): median time past, the
    time context of a block, the grace floors.
  \<^item> \<open>Expiration\<close> (\<open>dispenser_wide_expiration.js\<close>): expiration tokens as exact integers or as doubles.
  \<^item> \<open>Batch_Capture\<close> (\<open>protocol/batch_sub_command_capture\<close>): the sub-commands of a batch and the batches
    the indexer provably rejects.
  \<^item> \<open>Decoder_Config\<close>, \<open>Registration\<close> (\<open>dispenser_registration.js\<close>, \<open>dispenser_registration_collapse.js\<close>):
    configuration and counters; what a transaction's commands register, collapse and edit.
  \<^item> \<open>Decode_Action\<close>, \<open>Carriers\<close>, \<open>Envelope\<close>, \<open>Source_Resolution\<close>, \<open>Transaction_Parsing\<close>
    (\<open>source_resolution.js\<close>, \<open>carrier_extraction.js\<close>, \<open>envelope_recognition.js\<close>,
    \<open>transaction_parsing.js\<close>): parsing one transaction, as steps that thread the error counters and
    the database and may throw.  The node, the script library and the block cipher are the record
    \<open>chain_env\<close>, an argument of every definition that uses them.
  \<^item> \<open>Db_Connection\<close>, \<open>Db_Tables\<close>, \<open>Dispenser_Table\<close> (\<open>db/connection_lifecycle.js\<close>,
    \<open>addresses_and_events.js\<close>, \<open>transactions.js\<close>, \<open>blocks.js\<close>, \<open>dispensers.js\<close>, \<open>dispenser_queries.js\<close>):
    a session is the tables, the tables a rollback returns to, and a list of fates: for each coming
    round trip to the server, that it executes or the error it fails with.  Every statement is a
    function on the tables; every operation is the statements with the handlers around them.
  \<^item> \<open>Storage_Gate\<close> (\<open>dispenser_and_oracle_fees.js\<close>): what is stored of a parsed transaction, and the
    oracle addresses of its commands.
  \<^item> \<open>Reorg_Undo\<close>, \<open>Block_Log\<close> (\<open>db/blocks.js\<close>): deleting a block, and the ledger as a log of blocks.  The
    locale \<open>block_log\<close> states what such a log promises (each write of a block is absorbed by undoing
    it) and proves once that blocks and branches are undone; it is interpreted on the tables.
  \<^item> \<open>Tx_Ingest\<close>, \<open>Block_Store\<close> (\<open>transaction_ingest.js\<close>, \<open>block_store.js\<close>, \<open>sync_loop.js\<close>): one
    transaction of a block with its retry ladder, and the block around it, over a state of the
    decoder's counters, the loop object, the set of open addresses and the session.
  \<^item> \<open>Op_Logic\<close>, \<open>Ingest_Safety\<close>, \<open>Block_Outcome\<close>, \<open>Quarantine\<close>: triples for operations, the contract
    that a failure answer comes only after the transaction was undone, the proof that every step of
    the ingest keeps it, the outcome of a block, and the ladder over several runs.
  \<^item> \<open>Js_Json\<close>, \<open>Js_Date\<close>: \<open>JSON.stringify\<close> of a string, \<open>JSON.parse\<close> and \<open>toISOString\<close>, again the language.
  \<^item> \<open>Chain_Identity\<close> (\<open>protocol/chain_identity.js\<close>): whether an endpoint proves to serve another chain.
  \<^item> \<open>Reorg_Halt\<close>, \<open>Reorg_Walk\<close> (\<open>db/reorg_halt.js\<close>, \<open>XChainDecoder/reorg_halt.js\<close>,
    \<open>reorg_verification.js\<close>, \<open>reorg_verification/*.js\<close>): the durable halt and the walk to the fork point,
    over a session and a node whose answers depend on the number of the call, so that it may change its
    mind between any two.  The loop is a \<open>partial_function\<close>: it may wait forever on a dead node.
  \<^item> \<open>Reorg_Safety\<close>, \<open>Reorg_Termination\<close>, \<open>Reorg_Result\<close>: a locale of relations that steps stay within,
    interpreted for steps that delete nothing, that keep the retry count and that only add calls; the
    invariant of a run; the measure under which it ends; what a whole run does to depth and ledger.
    \<open>Reorg_Properties\<close> and \<open>Ingest_Properties\<close> hold the properties of reorgs and of block storage.
  \<^item> \<open>Sync_State\<close>, \<open>Halt_Park\<close>, \<open>Tip_Refresh\<close>, \<open>Sync_Loop\<close> (\<open>chain_integrity.js\<close>, \<open>tip_refresh.js\<close>,
    \<open>sync_loop.js\<close>, \<open>block_ingest.js\<close>, \<open>startup.js\<close>): the parse loop over all of the above: the park on a
    halt, the node's tip with its gates, fetching and linking the next block, the reconciles, a pass of
    the loop and the boot.  A step may throw out of the loop or, through the walk, never return.
    \<open>Sync_Logic\<close> holds the triples for its steps.
  \<^item> \<open>Sync_Status\<close> (\<open>sync_status.js\<close>): the windows, predicates and the status record of the health probes.
  \<^item> \<open>Sync_Park\<close>, \<open>Sync_Keeps\<close>, \<open>Sync_Stranded\<close>: three invariants of the passes of the loop: the park on a
    condemned database, the ledger and session while every gate refuses the node, and the state a walk
    leaves that deleted blocks and then waits.  \<open>Sync_Properties\<close> holds the properties of the loop.
  \<^item> \<open>Wire_Buffer\<close>, \<open>Auxpow_Codec\<close>, \<open>Block_Decoder\<close> (\<open>chain/bufferutils.js\<close>,
    \<open>chain/blockchain_connector/auxpow_codec.js\<close>, \<open>chain/XChainBlockDecoder.js\<close>): the bytes of blocks and
    transactions.  The locale \<open>varuint_codec\<close> is what the readers ask of the package that encodes lengths; it is
    interpreted on the codec of \<open>auxpow_codec.js\<close>.  \<open>bitcoinjs-lib\<close> is the record \<open>wire_lib\<close> of functions.
  \<^item> \<open>Rpc_Transport\<close>, \<open>Block_Queries\<close> (\<open>chain/blockchain_connector.js\<close> and \<open>blockchain_connector/*.js\<close>): one
    post with its failover, the retry ladders, the questions.  \<open>Wire_Properties\<close> holds the properties of both groups.

  \<^bold>\<open>What the properties show.\<close>  C1 to C3 (\<open>Sync_Properties\<close>) are about the running loop: a database that a
  halt condemned is never parsed, a node that no gate lets through changes nothing, and a walk that waits
  after it deleted blocks leaves the loop stuck.  C4 to C9 (\<open>Reorg_Properties\<close>) are about reorgs: only
  blocks the node disowned are deleted, the depth stays within its windows over restarts, the ledger left
  is one the chain went through, a halt survives the process, success means that decoder and node agree,
  and the walk ends unless the node is dead.  C10 to C13 (\<open>Ingest_Properties\<close>) are about a whole block: it
  is stored entirely or not at all, one that was stored can be deleted, and a transaction that always
  fails stalls its block four runs at most.  C14 to C18 (\<open>Wire_Properties\<close>) are about bytes and the node:
  both ways of fetching a merge-mined block agree, Litecoin blocks are split exactly, failover finds the
  living endpoint, and calls are bounded.  C19 to C25 are about the database: blocks are undone exactly,
  deletion is atomic, purges never hide an address that still counts, amounts are exact, and the
  transaction lock is fair.  C26 to C35 and C40 are about parsing one transaction: what is stored is
  known, lossless or counted, its output keys are distinct, envelopes and carriers are read whole, and
  times and expirations are exact.  C36 to C39 are about batches and registrations.

  \<^bold>\<open>Bounds.\<close>  Loops are recursive on the data they consume (inputs, outputs, commands, tokens) or on a
  counter the source has too (the five attempts of a read, the heights a halted walk may go down).  The
  JSON reader alone runs on fuel, twice the length of its text and two, and \<open>json_parse_count\<close> shows
  that this is enough.  The reorg walk has no bound in the source and none in the model; C9 gives the
  condition under which it ends.  Heights, indices and satoshi values are natural numbers or integers;
  expirations carry the checks of the source against the largest safe integer and the 64-bit column.

  \<^bold>\<open>Not modelled.\<close>  Log lines and pauses, which decide nothing.  The wire format of blocks and transactions
  and the node's RPC transport, which are libraries and sockets: the model takes their answers.  Schema
  migrations, configuration files, the HTTP API, metrics and log shipping, which hold no decoding logic.
  Clearing a halt by hand (\<open>clear_reorg_halt.js\<close>).  The mempool mirror, which runs beside the loop on a
  session of its own, the coin registry, and of the boot the preparation of the database.
\<close>

section \<open>Example inputs\<close>

definition sample_collate :: "jsstr \<Rightarrow> jsstr" where
  "sample_collate s = s"

definition sample_session :: "tables session" where
  "sample_session = \<lparr>db_tables = fresh_tables, db_saved = None, db_fates = []\<rparr>"

definition sample_ops :: "block_op list" where
  "sample_ops =
     [WriteBlock \<lparr>bi_index = 5, bi_hash = Some ([5]), bi_time = Some 1000, bi_previous = Some ([4])\<rparr>,
      WriteTx \<lparr>ti_index = 1, ti_hash = Some ([6]), ti_block = 5, ti_source = Some ([7]),
        ti_destination = None, ti_data = [8], ti_raw = None, ti_pubkey = None\<rparr>,
      WriteDispenser \<lparr>od_tx = 1, od_address = Some ([7]), od_expiration = 900, od_oracle = None,
        od_source = Some ([7])\<rparr>,
      ExpireDispensers 1000,
      EditDispensers ([7]) 2000]"

fun run_ops :: "block_op list \<Rightarrow> tables session \<Rightarrow> tables session" where
  "run_ops [] s = s"
| "run_ops (o1 # os) s = run_ops os (snd (run_block_op sample_collate 5 o1 s))"

fun ops_fit :: "block_op list \<Rightarrow> tables session \<Rightarrow> bool" where
  "ops_fit [] s \<longleftrightarrow> True"
| "ops_fit (o1 # os) s \<longleftrightarrow> op_of_block 5 (session_ledger s) o1 \<and> fst (run_block_op sample_collate 5 o1 s) = Inr Stored
     \<and> ops_fit os (snd (run_block_op sample_collate 5 o1 s))"

lemma run_ops_run:
  "block_run sample_collate 5 s t \<Longrightarrow> ops_fit os t \<Longrightarrow> block_run sample_collate 5 s (run_ops os t)"
proof (induction os arbitrary: t)
  case (Cons x os)
  have "run_block_op sample_collate 5 x t = (Inr Stored, snd (run_block_op sample_collate 5 x t))"
    using Cons.prems(2) by (metis ops_fit.simps(2) prod.collapse)
  then have "block_run sample_collate 5 s (snd (run_block_op sample_collate 5 x t))"
    by (rule block_run.step[OF Cons.prems(1), rotated]) (use Cons.prems(2) in simp_all)
  with Cons show ?case by simp
qed simp

lemma in_block_txs: "x \<in> block_txs h l \<longleftrightarrow> (\<exists>t \<in> set (l_txs l). t_block t = h \<and> t_index t = x)"
  by (auto simp: block_txs_def)

lemmas op_defs = insertBlock_def insertTransaction_def insertTransactionRow_def insertDispenser_def
  insertDispenserRow_def dispenser_insert_def deleteOpenDispensers_def extendEditedDispenser_def
  recordDispenserExtensionUndo_def extendOpenDispenserExpirationBySource_def createAddress_def
  createTransaction_def getAddressId_def getTransactionId_def insert_ignore_def lookup_id_def
  add_block_def add_tx_def add_dispenser_def map_ledger_def ledger_update_def soft_expire_def
  expire_row_def record_undo_def add_undo_def extend_rows_def extend_row_def extendable_def
  source_match_def clear_mark_def sql_query_def sql_write_def next_fate_def db_bind_def db_catch_def
  db_return_def duplicate_or_failed_def rethrow_or_def in_block_txs HASH_MAX_CHARS_def
  INDEX_ADDRESS_MAX_CHARS_def Let_def

lemmas delete_defs = deleteBlockByIndex_def restoreDispenserExtensions_def deleteBlockRows_def
  insertReorgEvent_def beginTransaction_def commitTransaction_def in_transaction_def append_event_def
  restore_rows_def restore_row_def undo_entry_def drop_undo_def clear_marks_def delete_outputs_def
  delete_dispensers_def delete_txs_def delete_block_def

lemmas sample_defs = sample_session_def sample_ops_def sample_collate_def fresh_tables_def empty_ledger_def

lemma sample_run: "block_run sample_collate 5 sample_session (run_ops sample_ops sample_session)"
  by (rule run_ops_run[OF block_run.refl]) (simp add: sample_defs op_defs)

lemma sample_below: "sound_below 5 (session_ledger sample_session)"
  by (simp add: sound_below_def below_height_def ledger_wf_def sample_session_def fresh_tables_def empty_ledger_def)

section \<open>The database and reorgs\<close>

text \<open>
  C19.  Deleting a block that was stored and then reorganised away returns the ledger (blocks,
  transactions, outputs, dispensers, undo log) exactly as it was before the block, whatever writes the
  block made: rows inserted, dispensers expired, expirations edited, in any order and number.
\<close>

theorem reorg_restores_ledger:
  assumes "sound_below h (session_ledger s)" and "block_run collate h s s'"
    and "db_tables c = db_tables s'" "db_saved c = None"
    and "deleteBlockByIndex h x c = (Inr True, c')"
  shows "session_ledger c' = session_ledger s \<and> db_saved c' = None"
  using deleteBlockByIndex_atomic[OF assms(5,4)] block_run_undone[OF assms(1,2)] assms(3)
  by (auto simp: block_removed_def append_event_def Let_def split: option.splits)

text \<open>The example block, as its operations leave the session.\<close>

definition after_sample :: "tables session" where
  "after_sample = run_ops sample_ops sample_session"

lemma after_sample_facts:
  "fst (deleteBlockByIndex 5 (Some [5]) after_sample) = Inr True"
  "db_saved after_sample = None"
  "map d_expiration (l_dispensers (session_ledger after_sample)) = [2000]"
  by (simp_all add: after_sample_def sample_defs op_defs delete_defs)

theorem reorg_restores_ledger_witness:
  "map d_expiration (l_dispensers (session_ledger after_sample)) = [2000] \<and>
   session_ledger (snd (deleteBlockByIndex 5 (Some [5]) after_sample)) = empty_ledger"
proof -
  have run: "deleteBlockByIndex 5 (Some [5]) after_sample
      = (Inr True, snd (deleteBlockByIndex 5 (Some [5]) after_sample))"
    by (rule prod_eqI) (simp_all add: after_sample_facts)
  have "session_ledger sample_session = empty_ledger"
    by (simp add: sample_session_def fresh_tables_def)
  then show ?thesis
    using reorg_restores_ledger[OF sample_below sample_run _ _ run] after_sample_facts
    by (simp add: after_sample_def)
qed

text \<open>
  C20.  Deleting a block is one transaction: either every row of the block is gone, the overwritten
  expirations are back and the REORG marker is in the event log, or the call throws and every table
  is as it was.  No transaction is left open in either case.
\<close>

theorem block_delete_is_atomic:
  assumes "db_saved s = None" "deleteBlockByIndex h x s = (r, s')"
  shows "db_saved s' = None \<and>
    (r = Inr True \<and> session_ledger s' = undo_block h (session_ledger s)
       \<and> tb_events (db_tables s') = tb_events (db_tables s)
           @ (case x of None \<Rightarrow> [] | Some hash \<Rightarrow> [reorg_event h hash])
     \<or> (\<exists>e. r = Inl e) \<and> db_tables s' = db_tables s)"
  using deleteBlockByIndex_atomic[OF assms(2,1)]
  by (auto simp: block_removed_def append_event_def Let_def split: option.splits)

definition failing_session :: "tables session" where
  "failing_session = after_sample\<lparr>db_fates := [None, None, None, None, Some 1205]\<rparr>"

lemma failing_session_facts:
  "fst (deleteBlockByIndex 5 None failing_session) = Inl 1205" "db_saved failing_session = None"
  by (simp_all add: failing_session_def after_sample_def sample_defs op_defs delete_defs
      endTransaction_def roll_back_def db_throw_def)

theorem block_delete_is_atomic_witness:
  "fst (deleteBlockByIndex 5 None failing_session) = Inl 1205 \<and>
   db_tables (snd (deleteBlockByIndex 5 None failing_session)) = db_tables failing_session"
proof -
  have "deleteBlockByIndex 5 None failing_session = (Inl 1205, snd (deleteBlockByIndex 5 None failing_session))"
    by (rule prod_eqI) (simp_all add: failing_session_facts)
  from block_delete_is_atomic[OF failing_session_facts(2) this] failing_session_facts(1) show ?thesis by simp
qed

text \<open>
  A whole branch is undone: after any number of consecutive blocks, deleting them newest first
  returns the ledger from before the first of them.
\<close>

theorem branch_undone:
  assumes "sound_below h l" "block_chain ledger_step h n l l'"
  shows "undo_down undo_block h n l' = l"
  using assms by (rule ledger_log.chain_undone)

definition row_of :: "nat \<Rightarrow> block_row" where
  "row_of n = \<lparr>b_index = n, b_hash = Some 2, b_time = Some 100, b_previous = Some 1\<rparr>"

theorem branch_undone_witness:
  "undo_down undo_block 0 2 (empty_ledger\<lparr>l_blocks := [row_of 0, row_of 1]\<rparr>) = empty_ledger"
proof (rule branch_undone)
  show "sound_below 0 empty_ledger"
    by (simp add: sound_below_def below_height_def ledger_wf_def empty_ledger_def)
  have "ledger_step 0 empty_ledger (empty_ledger\<lparr>l_blocks := [row_of 0]\<rparr>)"
    by (rule ledger_step.block[of "row_of 0"]) (simp_all add: add_block_def empty_ledger_def row_of_def)
  moreover have "ledger_step 1 (empty_ledger\<lparr>l_blocks := [row_of 0]\<rparr>) (empty_ledger\<lparr>l_blocks := [row_of 0, row_of 1]\<rparr>)"
    by (rule ledger_step.block[of "row_of 1"]) (simp_all add: add_block_def empty_ledger_def row_of_def)
  ultimately show "block_chain ledger_step 0 2 empty_ledger (empty_ledger\<lparr>l_blocks := [row_of 0, row_of 1]\<rparr>)"
    by (auto simp: numeral_2_eq_2 intro!: exI r_into_rtranclp)
qed

text \<open>
  C21.  The purge that follows a commit does not break the undoing of the block: purging at a lower
  height and then deleting the block leaves exactly what purging the older ledger leaves.
\<close>

theorem purge_commutes_with_reorg:
  assumes "sound_below h (session_ledger s)" "block_run collate h s s'" "k < h"
  shows "undo_block h (purge_undo k (purge_dispensers k f (session_ledger s')))
    = purge_undo k (purge_dispensers k f (session_ledger s))"
proof -
  have "sound_below (Suc h) (session_ledger s')"
    using ledger_log.steps_undo[OF block_run_steps[OF assms(2)] ledger_log.below_Suc[OF assms(1)]] by simp
  then have "ledger_wf (session_ledger s')" by (simp add: sound_below_def)
  then show ?thesis
    using undo_purge_commute[OF _ assms(3)] block_run_undone[OF assms(1,2)] by simp
qed

theorem purge_commutes_with_reorg_witness:
  "undo_block 5 (purge_undo 3 (purge_dispensers 3 (Some 500) (session_ledger (run_ops sample_ops sample_session))))
    = purge_undo 3 (purge_dispensers 3 (Some 500) (session_ledger sample_session))"
  by (rule purge_commutes_with_reorg[OF sample_below sample_run]) simp

text \<open>
  C22.  A purge with the grace floor of its block never removes an address that a later block still
  captures: the set of captured addresses of every block with a time and a parent time no earlier
  than the purging block's is the same before and after.
\<close>

theorem purge_keeps_captured_addresses:
  assumes "purgeExpiredDispensers safeHeight (purgeGraceFloor net (Num p)) s = (r, s')"
    and "db_saved s = None" and "isDispenserPurgeGraceActive net (Num p)" and "p \<le> t" "p \<le> q"
  shows "open_addresses (cancelGraceFloor net (Num t) (Num q)) (db_tables s')
    = open_addresses (cancelGraceFloor net (Num t) (Num q)) (db_tables s)"
  by (rule purge_open_addresses[OF assms(1,2)])
    (use assms(3-5) in \<open>auto simp: purgeGraceFloor_def cancelGraceFloor_def Let_def split: option.splits\<close>)

theorem purge_keeps_captured_addresses_witness:
  "open_addresses (cancelGraceFloor ''regtest'' (Num 9000) (Num 8000))
      (db_tables (snd (purgeExpiredDispensers 7 (purgeGraceFloor ''regtest'' (Num 7500)) after_sample)))
    = open_addresses (cancelGraceFloor ''regtest'' (Num 9000) (Num 8000)) (db_tables after_sample)"
proof (rule purge_keeps_captured_addresses)
  show "purgeExpiredDispensers 7 (purgeGraceFloor ''regtest'' (Num 7500)) after_sample
    = (fst (purgeExpiredDispensers 7 (purgeGraceFloor ''regtest'' (Num 7500)) after_sample),
       snd (purgeExpiredDispensers 7 (purgeGraceFloor ''regtest'' (Num 7500)) after_sample))" by simp
  show "isDispenserPurgeGraceActive ''regtest'' (Num 7500)" by code_simp
qed (simp_all add: after_sample_facts)

text \<open>
  An edit only widens the view: no row's expiration goes down, no row changes its key, and every
  address captured before the edit is captured after it, under every grace floor.
\<close>

theorem edit_only_extends:
  assumes "extendEditedDispenser collate h source e s = (Inr Stored, s')"
  shows "open_addresses g (db_tables s) \<subseteq> open_addresses g (db_tables s')
    \<and> list_all2 (\<lambda>d d'. d_tx d' = d_tx d \<and> d_addr d' = d_addr d \<and> d_expiration d \<le> d_expiration d')
        (l_dispensers (session_ledger s)) (l_dispensers (session_ledger s'))"
  using open_addresses_edit[OF assms, of g] extendEditedDispenser_step[OF assms]
  by (auto simp: extend_rows_def record_undo_def list_all2_conv_all_nth extend_row_monotone)

theorem edit_only_extends_witness:
  "open_addresses None (db_tables after_sample)
     \<subseteq> open_addresses None (db_tables (snd (extendEditedDispenser sample_collate 6 [7] 3000 after_sample)))"
proof -
  have "extendEditedDispenser sample_collate 6 [7] 3000 after_sample
      = (Inr Stored, snd (extendEditedDispenser sample_collate 6 [7] 3000 after_sample))"
    by (rule prod_eqI) (simp_all add: after_sample_def sample_defs op_defs)
  from edit_only_extends[OF this, of None] show ?thesis by simp
qed

text \<open>
  Expiring dispensers at a block whose own stored time is within the grace floor changes no
  captured address: a dispenser closes for capture only when the grace after its expiring block is over.
\<close>

theorem expiry_keeps_grace_captures:
  assumes "deleteOpenDispensers h m s = (Inr Stored, s')"
    and "find (\<lambda>b. b_index b = h) (l_blocks (session_ledger s)) = Some b" "b_time b = Some t" "fl \<le> int t"
  shows "open_addresses (Some fl) (db_tables s') = open_addresses (Some fl) (db_tables s)"
  using assms by (rule open_addresses_expire)

theorem expiry_keeps_grace_captures_witness:
  "open_addresses (Some 400) (db_tables (snd (deleteOpenDispensers 5 3000 after_sample)))
    = open_addresses (Some 400) (db_tables after_sample)"
proof (rule expiry_keeps_grace_captures[where t = 1000])
  show "deleteOpenDispensers 5 3000 after_sample = (Inr Stored, snd (deleteOpenDispensers 5 3000 after_sample))"
    by (rule prod_eqI) (simp_all add: after_sample_def sample_defs op_defs)
  show "find (\<lambda>b. b_index b = 5) (l_blocks (session_ledger after_sample))
      = Some \<lparr>b_index = 5, b_hash = Some 2, b_time = Some 1000, b_previous = Some 3\<rparr>"
    by (simp add: after_sample_def sample_defs op_defs)
qed simp_all

text \<open>
  C23.  The set of oracle addresses read above the flag-day contains the single address the legacy
  ranking picks from the same tables, so no output the legacy capture took is lost.
\<close>

theorem oracle_set_contains_legacy_pick:
  assumes "getOpenDispenserOracleAddressBySource collate src s = (Inr (Some (Some a)), s1)"
    and "getOpenDispenserOracleAddressesBySource collate src u = (Inr (Some as), u1)"
    and "db_tables u = db_tables s"
  shows "a \<in> set as"
  using assms by (rule oracle_pick_in_set)

definition oracle_session :: "tables session" where
  "oracle_session = sample_session\<lparr>db_tables := fresh_tables\<lparr>tb_addresses := [(1, []), (2, [7]), (3, [9])],
     tb_ledger := empty_ledger\<lparr>l_dispensers := [\<lparr>d_tx = 4, d_addr = 2, d_expiration = 10, d_oracle = Some 3,
       d_source = None, d_expired = None\<rparr>]\<rparr>\<rparr>\<rparr>"

theorem oracle_set_contains_legacy_pick_witness:
  "[9] \<in> set [[9::nat]]"
proof (rule oracle_set_contains_legacy_pick)
  show "getOpenDispenserOracleAddressBySource sample_collate [7] oracle_session
      = (Inr (Some (Some [9])), snd (getOpenDispenserOracleAddressBySource sample_collate [7] oracle_session))"
    by (rule prod_eqI) (simp_all add: getOpenDispenserOracleAddressBySource_def oracle_session_def sample_defs
        op_defs source_oracles_def id_text_def List.map_filter_def)
  show "getOpenDispenserOracleAddressesBySource sample_collate [7] oracle_session
      = (Inr (Some [[9]]), snd (getOpenDispenserOracleAddressesBySource sample_collate [7] oracle_session))"
    by (rule prod_eqI) (simp_all add: getOpenDispenserOracleAddressesBySource_def oracle_session_def sample_defs
        op_defs source_oracles_def id_text_def List.map_filter_def)
qed simp

text \<open>
  C24.  The amount of a stored output is written exactly: an optional sign, digits, a point and eight
  digits that together denote the number of satoshis, for every amount of any size.
\<close>

theorem satoshi_text_exact:
  "\<exists>whole frac. bigIntSatoshiToDecimalsString v = (if v < 0 then js ''-'' else []) @ whole @ js ''.'' @ frac
     \<and> length frac = 8 \<and> whole \<noteq> [] \<and> list_all is_digit (whole @ frac)
     \<and> int (decimal_value (whole @ frac)) = \<bar>v\<bar>"
proof -
  define n where "n = nat \<bar>v\<bar>"
  define d where "d = decimal_string n"
  obtain whole frac where
    "(if length d \<le> 8 then js ''0.'' @ replicate (8 - length d) 48 @ d
      else take (length d - 8) d @ js ''.'' @ drop (length d - 8) d) = whole @ js ''.'' @ frac"
    "length frac = 8" "whole \<noteq> []" "list_all is_digit (whole @ frac)" "decimal_value (whole @ frac) = n"
    using split_decimals[OF decimal_string_digits[of n]] unfolding decimal_value_string d_def by metis
  moreover have "int n = \<bar>v\<bar>" by (simp add: n_def)
  ultimately show ?thesis
    unfolding bigIntSatoshiToDecimalsString_def SATOSHIS_DECIMALS_def Let_def n_def[symmetric] d_def[symmetric]
    by (rule_tac exI[of _ whole], rule_tac exI[of _ frac]) simp
qed



section \<open>Parsing and storing an action\<close>

text \<open>A stored payload: the alias \<open>MSG\<close>, which is stored under its canonical name.\<close>

definition sample_result :: parse_result where
  "sample_result = \<lparr>pr_data = ascii_bytes (js ''MSG''), pr_compiledDataLength = 4, pr_rawData = None,
     pr_source = Some (js ''a''), pr_sourcePubkey = None, pr_dispenseOutputs = [], pr_paymentOutputs = [],
     pr_payloadCeiling = 8192, pr_envelope = False\<rparr>"

lemma sample_units: "ascii_units (js ''MSG'')" "ascii_units (js ''MESSAGE'')"
  by (simp_all add: js_def ascii_units_def)

lemma sample_name: "until_first pipe_byte (ascii_bytes (js ''MSG'')) = ascii_bytes (js ''MSG'')"
  "from_first pipe_byte (ascii_bytes (js ''MSG'')) = []"
  by (simp_all add: ascii_bytes_def js_def pipe_byte_def)

lemma sample_alias: "alias_or_self (js ''MSG'') = ActionText (js ''MESSAGE'')"
  "js ''MESSAGE'' \<in> set VALID_ACTION_NAMES" "js ''MSG'' \<noteq> js ''MESSAGE''"
  by (simp_all add: alias_or_self_def ACTION_ALIASES_def VALID_ACTION_NAMES_def js_def)

lemma sample_canonical:
  "out_buffer (canonicalizeActionPayload (ascii_bytes (js ''MSG''))) = ascii_bytes (js ''MESSAGE'')"
  "isKnown (canonicalizeActionPayload (ascii_bytes (js ''MSG'')))"
  using sample_units sample_alias by (simp_all add: canonicalize_parts sample_name)

lemma sample_stored:
  "buildStoredActionRecord sample_result 0
    = (\<lparr>st_skip = False, st_data = js ''MESSAGE'', st_rawData = None\<rparr>, 0)"
proof -
  have ne: "ascii_bytes (js ''MSG'') \<noteq> []" by (simp add: ascii_bytes_def js_def)
  show ?thesis
    using sample_units(2) sample_canonical ne
    by (simp add: buildStoredActionRecord_def sample_result_def Let_def MAX_ACTION_DATA_LENGTH_def)
qed

text \<open>Transactions: one with two paying outputs, and one with an envelope in each of its two inputs.\<close>

definition sample_cfg :: decoder_config where
  "sample_cfg = \<lparr>coinTick = ''BTC'', consensusNetwork = ''regtest'', feeDestination = None,
     expirationFeeDefaultDays = 30, supportsSegwit = True, auxPow = False\<rparr>"

definition sample_env :: chain_env where
  "sample_env = \<lparr>script_decompile = (\<lambda>_. Inr (Some (envelope_script [[1]] (replicate 32 2)))),
     fromOutputScript = (\<lambda>_. Some (js ''a'')), aes128_block = (\<lambda>_ b. take 16 (b @ replicate 16 0)),
     getRawTransaction = (\<lambda>_. RpcThrows), transactionFromHex = (\<lambda>_. Inl ())\<rparr>"

definition sample_input :: "buffer list \<Rightarrow> tx_input" where
  "sample_input w = \<lparr>in_hash = replicate 32 1, in_index = 0, in_script = [], in_witness = w,
     in_standard = None\<rparr>"


definition sample_db :: "'z pubkey_db" where
  "sample_db = \<lparr>db_getAddressId = (\<lambda>_ z. (Inr None, z)), db_hasPubkey = (\<lambda>_ z. (Inr False, z)),
     db_insertPubkey = (\<lambda>_ _ z. (Inr True, z))\<rparr>"

definition paying_tx :: transaction where
  "paying_tx = \<lparr>tx_id = [], tx_ins = [sample_input []],
     tx_outs = [\<lparr>out_script = [], out_value = 5\<rparr>, \<lparr>out_script = [], out_value = 7\<rparr>]\<rparr>"


definition no_stats :: decoder_stats where
  "no_stats = \<lparr>parseErrors = 0, rpcErrors = 0\<rparr>"

definition parsed :: "int option \<Rightarrow> transaction \<Rightarrow> parse_result" where
  "parsed h tx = the (projr (fst (parseTransaction sample_cfg sample_env (\<lambda>_. False) sample_db True h tx no_stats)))"

text \<open>
  C26.  Every action text the decoder stores starts with one of the known action names, spelled
  canonically, and was within its carrier's size ceiling; its raw data is stored with it and the row
  is not skipped.
\<close>

theorem stored_action_is_known:
  assumes "buildStoredActionRecord r errors = (stored, errors')" "st_data stored \<noteq> []"
  shows "until_first pipe (st_data stored) \<in> set VALID_ACTION_NAMES \<and> \<not> st_skip stored
    \<and> st_rawData stored = pr_rawData r
    \<and> pr_compiledDataLength r
        \<le> (if pr_payloadCeiling r = 0 then MAX_ACTION_DATA_LENGTH else pr_payloadCeiling r)"
  using stored_name[OF assms] by simp

theorem stored_action_is_known_witness:
  "until_first pipe (js ''MESSAGE'') \<in> set VALID_ACTION_NAMES"
  using stored_action_is_known[OF sample_stored] by (simp add: js_def)

text \<open>
  Canonicalising a payload touches only its action name: the parameters after the first
  separator are kept byte for byte, and canonicalising the result changes nothing and names the same
  action.
\<close>

theorem canonical_payload_stable:
  "out_buffer (canonicalizeActionPayload (out_buffer (canonicalizeActionPayload b)))
     = out_buffer (canonicalizeActionPayload b)
   \<and> from_first pipe_byte (out_buffer (canonicalizeActionPayload b)) = from_first pipe_byte b
   \<and> actionName (canonicalizeActionPayload (out_buffer (canonicalizeActionPayload b)))
     = actionName (canonicalizeActionPayload b)"
proof (cases "isKnown (canonicalizeActionPayload b)")
  case True
  then show ?thesis
    by (rule canonicalize_known)
      (simp add: canonicalize_parts(2,4)[of "out_buffer (canonicalizeActionPayload b)"] alias_or_self_valid)
qed (simp add: canonicalize_unknown)

text \<open>
  C27.  The outputs a parsed transaction stores, dispense payments, action payments and the shifted
  outputs of its funding transaction, never share an output index, so their inserts cannot collide.
\<close>

theorem stored_output_keys_distinct:
  assumes "parseTransaction cfg env opn db mempool h tx st = (Inr (Some r), st')"
    and "length (tx_outs tx) \<le> FUNDING_VOUT_BASE"
  shows "distinct (map co_vout (pr_dispenseOutputs r @ pr_paymentOutputs r))"
  using assms by (rule parse_vouts_distinct)

theorem stored_output_keys_distinct_witness:
  "map co_vout (pr_dispenseOutputs (parsed None paying_tx) @ pr_paymentOutputs (parsed None paying_tx)) = [0, 1]
   \<and> distinct (map co_vout (pr_dispenseOutputs (parsed None paying_tx) @ pr_paymentOutputs (parsed None paying_tx)))"
proof
  have "parseTransaction sample_cfg sample_env (\<lambda>_. False) sample_db True None paying_tx no_stats
      = (Inr (Some (parsed None paying_tx)), no_stats)"
    by code_simp
  from stored_output_keys_distinct[OF this]
  show "distinct (map co_vout (pr_dispenseOutputs (parsed None paying_tx) @ pr_paymentOutputs (parsed None paying_tx)))"
    by (simp add: paying_tx_def FUNDING_VOUT_BASE_def)
qed code_simp

text \<open>
  C28.  Node trouble is told apart from bad data: the RPC error counter moves, by one, exactly when
  parsing ends in the tagged lookup failure that makes the block be retried instead of quarantined.
\<close>

theorem rpc_failures_are_tagged:
  "rpcErrors (snd (parseTransaction cfg env opn db mempool h tx st)) = rpcErrors st
     + (if fst (parseTransaction cfg env opn db mempool h tx st) = Inl RpcLookupFailure then 1 else 0)"
  using rpc_counted_parse[OF pubkey_db_keeps_True, of cfg env opn db mempool h tx] unfolding rpc_counted_def
  by (metis prod.collapse)










lemma strict_text_lossless:
  assumes "strict_decode buf = Some s"
  shows "utf8_encode s = (if take 3 buf = [0xEF, 0xBB, 0xBF] then drop 3 buf else buf)
    \<and> lenient_decode buf = s"
proof -
  have bom: "take 3 (map unat buf) = [0xEF, 0xBB, 0xBF] \<longleftrightarrow> take 3 buf = [0xEF, 0xBB, 0xBF]"
  proof -
    have "inj (unat :: byte \<Rightarrow> nat)" by (rule injI) (simp add: word_unat_eq_iff)
    moreover have "[0xEF, 0xBB, 0xBF] = map unat [0xEF, 0xBB, 0xBF :: byte]" by simp
    ultimately show ?thesis by (metis inj_map_eq_map take_map)
  qed
  then have "map word_of_nat (strip_bom (map unat buf))
      = (if take 3 buf = [0xEF, 0xBB, 0xBF] then drop 3 buf else buf)"
    by (simp add: strip_bom_def starts_with_def drop_map comp_def numeral_3_eq_3)
  with strict_decode_encode[OF assms] strict_decode_lenient[OF assms] show ?thesis by simp
qed

text \<open>
  C33.  Text is stored losslessly or counted: when a payload is stored as text and the error counter
  did not move, encoding the text as UTF-8 gives back the bytes of the canonical payload, but for a
  leading byte-order mark.
\<close>

theorem stored_text_is_lossless:
  assumes "buildStoredActionRecord r n = (st, n)" "st_data st \<noteq> []"
  shows "utf8_encode (st_data st) = (let b = out_buffer (canonicalizeActionPayload (pr_data r))
    in if take 3 b = [0xEF, 0xBB, 0xBF] then drop 3 b else b)"
proof -
  have "strict_decode (out_buffer (canonicalizeActionPayload (pr_data r))) = Some (st_data st)"
    using assms by (auto simp: buildStoredActionRecord_def Let_def split: if_splits option.splits)
  then show ?thesis by (simp add: strict_text_lossless Let_def)
qed

theorem stored_text_is_lossless_witness:
  "utf8_encode (js ''MESSAGE'') = ascii_bytes (js ''MESSAGE'')"
proof -
  have "take 3 (ascii_bytes (js ''MESSAGE'')) \<noteq> [0xEF, 0xBB, 0xBF]" "js ''MESSAGE'' \<noteq> []"
    by (simp_all add: ascii_bytes_def js_def)
  then show ?thesis
    using stored_text_is_lossless[OF sample_stored] sample_canonical(1) by (simp add: sample_result_def)
qed

section \<open>Time, expirations and gates\<close>

text \<open>
  C34.  On a network that runs on median time, protocol time never runs ahead of the raw header time
  and never runs backwards from a block to the next, as long as header times obey the chain's own rule
  that a block's time is not below the median of the blocks before it.
\<close>

theorem protocol_time_monotone:
  assumes "isProtocolTimeMtpActive net" "ts \<noteq> []" "\<forall>t \<in> set ts. 0 < t" "0 < raw"
    and "median_of (take 11 ts) \<le> raw" "median_of (take 11 (raw # ts)) \<le> raw'"
  shows "\<exists>a b. protocolTime net (Num raw) (Some (map Num ts)) = Num a
     \<and> protocolTime net (Num raw') (Some (map Num (raw # ts))) = Num b
     \<and> a \<le> b \<and> a \<le> raw \<and> b \<le> raw'"
proof -
  have "medianTimePast (Some (map Num ts)) = Some (median_of (take 11 ts))"
    using medianTimePast_Num[of ts] assms by (simp add: MEDIAN_TIME_SPAN_def)
  moreover have "medianTimePast (Some (map Num (raw # ts))) = Some (median_of (take 11 (raw # ts)))"
    using medianTimePast_Num[of "raw # ts"] assms by (simp add: MEDIAN_TIME_SPAN_def)
  moreover have "median_of (take 11 ts) \<le> median_of (take 11 (raw # ts))"
    using assms(2,5) by (rule median_window_mono)
  ultimately show ?thesis
    using assms by (simp add: protocolTime_def)
qed

theorem protocol_time_monotone_witness:
  "\<exists>a b. protocolTime ''testnet'' (Num 50) (Some (map Num [40, 30])) = Num a
     \<and> protocolTime ''testnet'' (Num 45) (Some (map Num [50, 40, 30])) = Num b
     \<and> a \<le> b \<and> a \<le> 50 \<and> b \<le> 45"
  by (rule protocol_time_monotone) (simp_all add: isProtocolTimeMtpActive_def PROTOCOL_TIME_MTP_NETWORKS_def median_of_def)

text \<open>
  C35.  Above the exact-integer gate an accepted expiration token denotes a whole number, and what is
  registered is that number, clamped to the largest safe integer and never rounded.
\<close>

theorem expiration_is_exact:
  assumes norm: "normalizeDispenserExpiration (Some s) net t (js_Number s) = Some x"
    and valid: "hasValidExpirationToken (Some s) (Some x) net t"
    and gate: "isExactIntegerExpirationActive net t" and ne: "s \<noteq> []"
  shows "\<exists>m v. match_decimal (js_trim s) = Some m \<and> dm_integer m v \<and> (v = 0 \<or> \<not> dm_negative m)
    \<and> v \<le> U64_MAX \<and> x = min (int v) MAX_SAFE_DISPENSER_EXPIRATION"
proof -
  have "isExactIntegerToken s"
    using valid gate ne by (simp add: hasValidExpirationToken_def split: if_splits)
  then obtain m v where m: "match_decimal (js_trim s) = Some m" "dm_integer m v"
    by (rule isExactIntegerToken_integer)
  have num: "safe_integer (js_Number s)
      = (if v < 2 ^ 53 then Some (if dm_negative m then - int v else int v) else None)"
    using js_Number_match[OF m(1)] decimal_number_integer[OF m(2)] by simp
  from normalize_cases[OF norm] show ?thesis
  proof
    assume "safe_integer (js_Number s) = Some x \<and> 0 \<le> x"
    with num have v: "v < 2 ^ 53" "x = int v" "v = 0 \<or> \<not> dm_negative m"
      by (auto split: if_splits)
    then have "int v \<le> MAX_SAFE_DISPENSER_EXPIRATION" "v \<le> U64_MAX"
      by (simp_all add: MAX_SAFE_DISPENSER_EXPIRATION_def U64_MAX_def)
    with m v show ?thesis by auto
  next
    assume "isDispenserWideExpirationActive net t \<and> x = MAX_SAFE_DISPENSER_EXPIRATION
      \<and> (\<exists>v. exactUnsignedDecimal s = Some v \<and> MAX_SAFE_DISPENSER_EXPIRATION < int v \<and> v \<le> U64_MAX)"
    then obtain w where w: "exactUnsignedDecimal s = Some w" "MAX_SAFE_DISPENSER_EXPIRATION < int w"
      "w \<le> U64_MAX" "x = MAX_SAFE_DISPENSER_EXPIRATION" by auto
    from w(1) obtain m' where "match_decimal (js_trim s) = Some m'" "dm_integer m' w" "\<not> dm_negative m'"
      by (rule exactUnsignedDecimal_value)
    with w show ?thesis by (intro exI[of _ m'] exI[of _ w]) simp
  qed
qed

lemma five_literal: "match_decimal (js_trim [53]) = Some \<lparr>dm_sign = [], dm_int = [53], dm_frac = [], dm_exp = None\<rparr>"
  "dm_integer \<lparr>dm_sign = [], dm_int = [53], dm_frac = [], dm_exp = None\<rparr> 5"
  by (simp_all add: js_trim_def js_trim_start_def js_space_def match_decimal_def take_sign_def span_digits_def
      is_digit_def match_exponent_def dm_integer_def dm_scale_def dm_exponent_def dm_digits_def
      decimal_value_def digits_value_def)

lemma five_number: "safe_integer (js_Number [53]) = Some 5"
  using js_Number_match[OF five_literal(1)] decimal_number_integer[OF five_literal(2)]
  by (simp add: dm_negative_def)

lemma five_registers: "normalizeDispenserExpiration (Some [53]) net t (js_Number [53]) = Some 5"
  by (simp add: normalizeDispenserExpiration_def five_number js_trim_def js_trim_start_def js_space_def)

lemma five_valid: "hasValidExpirationToken (Some [53]) (Some 5) net t"
proof -
  have "safe_integer (js_Number (js ''0'')) = Some 0"
    using js_Number_match[of "js ''0''" "\<lparr>dm_sign = [], dm_int = [48], dm_frac = [], dm_exp = None\<rparr>"]
      decimal_number_integer[of "\<lparr>dm_sign = [], dm_int = [48], dm_frac = [], dm_exp = None\<rparr>" 0]
    by (simp add: js_def js_trim_def js_trim_start_def js_space_def match_decimal_def take_sign_def span_digits_def
        is_digit_def match_exponent_def dm_integer_def dm_scale_def dm_exponent_def dm_digits_def
        decimal_value_def digits_value_def dm_negative_def)
  then have "isExactIntegerToken [53]"
    by (simp add: isExactIntegerToken_def five_literal(1))
  then show ?thesis
    by (simp add: hasValidExpirationToken_def MAX_SAFE_DISPENSER_EXPIRATION_def)
qed

theorem expiration_is_exact_witness:
  "\<exists>m v. match_decimal (js_trim [53]) = Some m \<and> dm_integer m v \<and> (v = 0 \<or> \<not> dm_negative m)
    \<and> v \<le> U64_MAX \<and> 5 = min (int v) MAX_SAFE_DISPENSER_EXPIRATION"
proof (rule expiration_is_exact[OF five_registers five_valid])
  show "isExactIntegerExpirationActive ''regtest'' (Num 9)" by code_simp
qed simp

text \<open>
  A registered expiration is a natural number no larger than the largest safe integer, whatever
  the token, the network and the time.
\<close>

theorem expiration_in_range:
  assumes "normalizeDispenserExpiration (Some s) net t (js_Number s) = Some x"
  shows "0 \<le> x \<and> x \<le> MAX_SAFE_DISPENSER_EXPIRATION"
  using normalize_range[of "Some s" net t x] assms by simp

theorem expiration_in_range_witness: "(0 :: int) \<le> 5 \<and> (5 :: int) \<le> MAX_SAFE_DISPENSER_EXPIRATION"
  by (rule expiration_in_range[OF five_registers])

text \<open>
  Every activation gate splits a chain of non-decreasing times once: no block below its moment
  is decoded under the new rule and every block from it on is.
\<close>

theorem gates_split_history:
  assumes "gate \<in> {isOracleFeeCaptureActive, isOracleFeeSetCaptureActive, isDispenserExpiryRealignActive,
      isDispenserCancelGraceActive, isDispenserCancelGraceParentFloorActive, isDispenserPurgeGraceActive,
      isDispenserWideExpirationActive, isExactIntegerExpirationActive, isBatchSubCommandCaptureActive,
      isBatchCostWeightingActive, isDispenserAddressIdCollapseActive}"
    and "sorted ts"
  shows "\<exists>old new. ts = old @ new
    \<and> (\<forall>t \<in> set old. \<not> gate net (Num t)) \<and> (\<forall>t \<in> set new. gate net (Num t))"
  by (insert assms(1), (elim insertE emptyE; hypsubst;
      (rule oracle_fee.history_splits[OF assms(2)]
        | rule oracle_fee_set.history_splits[OF assms(2)]
        | rule expiry_realign.history_splits[OF assms(2)]
        | rule cancel_grace.history_splits[OF assms(2)]
        | rule parent_floor.history_splits[OF assms(2)]
        | rule purge_grace.history_splits[OF assms(2)]
        | rule wide_expiration.history_splits[OF assms(2)]
        | rule exact_expiration.history_splits[OF assms(2)]
        | rule batch_capture.history_splits[OF assms(2)]
        | rule cost_weighting.history_splits[OF assms(2)]
        | rule address_id_collapse.history_splits[OF assms(2)])))

theorem gates_split_history_witness:
  "\<exists>old new. [0, 1786060800, 1900000000] = old @ new
    \<and> (\<forall>t \<in> set old. \<not> isOracleFeeCaptureActive ''mainnet'' (Num t))
    \<and> (\<forall>t \<in> set new. isOracleFeeCaptureActive ''mainnet'' (Num t))"
  by (rule gates_split_history) simp_all

section \<open>Batches and dispensers\<close>


text \<open>
  The commands captured from an action: below the gate the action itself; above it, for a batch,
  at most 250 sub-commands, each with a name and none of them a batch again.
\<close>

theorem captured_commands_flat:
  assumes "isBatchSubCommandCaptureActive net t" "starts_with (js ''BATCH|'') d"
    and "c \<in> set (captureCommands d net t)"
  shows "subCommandActionName c \<noteq> [] \<and> subCommandActionName c \<noteq> js ''BATCH''
    \<and> length (captureCommands d net t) \<le> 250"
  using assms by (rule captured_sub_commands)

lemma one_command_batch: "captureCommands (js ''BATCH|0|X'') ''regtest'' (Num 5) = [js ''X'']"
  "isBatchSubCommandCaptureActive ''regtest'' (Num 5)" "starts_with (js ''BATCH|'') (js ''BATCH|0|X'')"
  by (simp_all add: captureCommands_def batchSubCommands_def BATCH_SUB_COMMAND_FORMATS_def starts_with_def js_def
      semicolon_def rejected_unfold subCommandActionName_def pipe_def subCommandLimitKey_def expandAliasName_def
      ACTION_ALIASES_def batchCostWeight_sum subCommandCostWeight_def COMMAND_WEIGHTS_def expandSubCommandAlias_def
      isBatchSubCommandCaptureActive_def time_gate_def table_entry_def
      BATCH_SUBCOMMAND_OUTPUT_CAPTURE_ACTIVATION_def)

theorem captured_commands_flat_witness:
  "subCommandActionName (js ''X'') \<noteq> [] \<and> subCommandActionName (js ''X'') \<noteq> js ''BATCH''
    \<and> length (captureCommands (js ''BATCH|0|X'') ''regtest'' (Num 5)) \<le> 250"
  by (rule captured_commands_flat[OF one_command_batch(2,3)]) (simp add: one_command_batch(1))

text \<open>
  C37.  Registrations collapse by key: one row per key in order of first appearance, carrying the
  first source, the first named oracle and the latest expiration of its group.
\<close>

theorem collapse_groups_by_key:
  "\<exists>rows. collapseRegistrationsByKey cs keyOf = map snd rows
     \<and> map fst rows = rev (remdups (rev (List.map_filter (candidate_key keyOf) cs)))
     \<and> list_all (\<lambda>(k, r). key_group keyOf cs k \<noteq> []
          \<and> reg_sourceAddress r = cand_sourceAddress (hd (key_group keyOf cs k))
          \<and> reg_oracleAddress r = first_oracle (key_group keyOf cs k)
          \<and> reg_expiration r = Max (set (map cand_expiration (key_group keyOf cs k)))) rows"
proof (intro exI conjI)
  let ?rows = "foldl (collapse_candidate keyOf) [] cs"
  show keys: "map fst ?rows = rev (remdups (rev (List.map_filter (candidate_key keyOf) cs)))"
    by (rule collapse_rows(2))
  have dist: "distinct (map fst ?rows)" unfolding keys by simp
  show "list_all (\<lambda>(k, r). key_group keyOf cs k \<noteq> []
          \<and> reg_sourceAddress r = cand_sourceAddress (hd (key_group keyOf cs k))
          \<and> reg_oracleAddress r = first_oracle (key_group keyOf cs k)
          \<and> reg_expiration r = Max (set (map cand_expiration (key_group keyOf cs k)))) ?rows"
    unfolding list_all_iff
  proof (clarify)
    fix k r assume "(k, r) \<in> set ?rows"
    then have "group_registration (key_group keyOf cs k) = Some r"
      using dist collapse_rows(1)[of keyOf cs k] by simp
    from group_registration_fields[OF this]
    show "key_group keyOf cs k \<noteq> [] \<and> reg_sourceAddress r = cand_sourceAddress (hd (key_group keyOf cs k))
        \<and> reg_oracleAddress r = first_oracle (key_group keyOf cs k)
        \<and> reg_expiration r = Max (set (map cand_expiration (key_group keyOf cs k)))" by simp
  qed
qed (simp add: collapseRegistrationsByKey_def)



definition edit_command :: jsstr where
  "edit_command = join_on pipe [js ''DISPENSER'', [50], [], [], [53]]"

lemmas command_parts = pipe_def js_def starts_with_def


lemma edit_command_parts:
  "split_on pipe edit_command = [js ''DISPENSER'', [50], [], [], [53]]"
  "starts_with (js ''DISPENSER|'') edit_command"
  by (simp_all add: edit_command_def command_parts)


lemmas dispenser_indices = V0_GIVE_COIN_INDEX_def V0_GET_COIN_INDEX_def V0_GET_ADDRESS_INDEX_def
  ORACLE_ADDRESS_INDEX_def V0_EXPIRATION_INDEX_def V0_REQUIRED_FIELD_COUNT_def V2_EXPIRATION_INDEX_def

lemma two_format: "dispenser_format (js ''DISPENSER'' # [50] # fs) = Some 2"
  by (simp add: dispenser_format_def field_def js_parseInt_def js_trim_start_def js_space_def is_digit_def
      take_sign_def span_digits_def decimal_value_def digits_value_def)



text \<open>
  C39.  An edit moves an expiration only into the future: the mirrored value is in range and lies
  strictly after the block's time, and only a format-2 command of a known source yields one.
\<close>

theorem edits_lie_in_the_future:
  assumes "dispenserEditExtension cfg command prefix source t = Some (src, x)"
  shows "source = Some src \<and> src \<noteq> [] \<and> 0 \<le> x \<and> x \<le> MAX_SAFE_DISPENSER_EXPIRATION
    \<and> (\<exists>now. to_number t = Some now \<and> now < x) \<and> dispenser_format (split_on pipe command) = Some 2"
  using edit_extension_sound[OF assms] by blast

lemma edit_command_extends:
  "dispenserEditExtension sample_cfg edit_command (js ''DISPENSER|'') (Some [7]) (Num 1) = Some ([7], 5)"
  by (simp add: dispenserEditExtension_def edit_command_parts two_format dispenser_indices five_registers five_valid
      exceeds_time_def)

theorem edits_lie_in_the_future_witness:
  "Some [7] = Some [7 :: nat] \<and> [7 :: nat] \<noteq> [] \<and> (0 :: int) \<le> 5 \<and> (5 :: int) \<le> MAX_SAFE_DISPENSER_EXPIRATION
    \<and> (\<exists>now. to_number (Num 1) = Some now \<and> now < 5) \<and> dispenser_format (split_on pipe edit_command) = Some 2"
  by (rule edits_lie_in_the_future[OF edit_command_extends])

text \<open>
  C40.  The decoder's opcode tests compare loosely: a two-element output script whose first element
  pushes the three digits \<open>106\<close> is read as an \<open>OP_RETURN\<close> carrier although it is none.
\<close>

theorem digits_read_as_op_return:
  "read_carrier env segwit tx (Some [Data (ascii_bytes (js ''106'')), push]) txid c
    = readOpReturnCarrier env segwit tx push txid c"
proof -
  let ?m = "\<lparr>dm_sign = [], dm_int = [49, 48, 54], dm_frac = [], dm_exp = None\<rparr>"
  have m: "match_decimal (js_trim (js ''106'')) = Some ?m" "dm_integer ?m 106"
    by (simp_all add: js_def js_trim_def js_trim_start_def js_space_def match_decimal_def take_sign_def
        span_digits_def is_digit_def match_exponent_def dm_integer_def dm_scale_def dm_exponent_def
        dm_digits_def decimal_value_def digits_value_def)
  have "safe_integer (js_Number (js ''106'')) = Some 106"
    using js_Number_match[OF m(1)] decimal_number_integer[OF m(2)] by (simp add: dm_negative_def)
  moreover have "lenient_decode (ascii_bytes (js ''106'')) = js ''106''"
    by (rule lenient_decode_ascii) (simp add: ascii_units_def js_def)
  ultimately show ?thesis by (simp add: read_carrier_def OP_RETURN_def)
qed

end
